(* ===== verification/Prelude.thy ===== *)
theory Prelude
  imports
    Main
    "HOL-Library.Word"
    "HOL-Library.Char_ord"
    "HOL-Library.List_Lexorder"
    "HOL-Library.Product_Lexorder"
    "HOL-Library.Sublist"
    "HOL-Library.DAList"
begin

text \<open>
  Shared vocabulary of the development.

  Go values are represented as follows.
  \<^item> A Go \<^verbatim>\<open>string\<close>, \<^verbatim>\<open>[]byte\<close> or \<^verbatim>\<open>[32]byte\<close> is a list of bytes, the HOL type \<open>string\<close>;
    the comparison \<open><\<close> of strings is the bytewise lexicographic one, as in Go.
  \<^item> A \<^verbatim>\<open>uint64\<close>, \<^verbatim>\<open>uint32\<close> or \<^verbatim>\<open>uint8\<close> is a word of that width, so \<open>+\<close> wraps around. A Go \<^verbatim>\<open>int\<close>
    counter is a 64-bit word compared by its signed reading.
  \<^item> A Go \<^verbatim>\<open>map[K]V\<close> is a \<open>('k, 'v) dict\<close>: an association list whose keys are distinct by
    construction (\<open>HOL-Library.DAList\<close>). \<^verbatim>\<open>for k, v := range m\<close> visits \<open>entries m\<close>. Go leaves the
    order open; the model fixes one, and no theorem below depends on which.
  \<^item> A call that returns \<^verbatim>\<open>(T, error)\<close> is a value of a sum type, \<open>Inl\<close> the error, or a tuple with an
    \<open>error option\<close> where the code returns a result together with an error.
\<close>

type_synonym bytes = string
type_synonym uint8 = "8 word"
type_synonym uint16 = "16 word"
type_synonym uint32 = "32 word"
type_synonym uint64 = "64 word"
type_synonym go_int = "64 word"
type_synonym ('k, 'v) dict = "('k, 'v) alist"

named_theorems dict_simps \<open>lookup and aggregate laws of finite maps\<close>
named_theorems frame_simps \<open>fields an operation leaves alone\<close>
named_theorems inv_intros \<open>preservation of the component invariants\<close>

section \<open>Finite maps\<close>

abbreviation dget :: "('k, 'v) dict \<Rightarrow> 'k \<Rightarrow> 'v option" where
  "dget \<equiv> DAList.lookup"

abbreviation dset :: "'k \<Rightarrow> 'v \<Rightarrow> ('k, 'v) dict \<Rightarrow> ('k, 'v) dict" where
  "dset \<equiv> DAList.update"

abbreviation ddel :: "'k \<Rightarrow> ('k, 'v) dict \<Rightarrow> ('k, 'v) dict" where
  "ddel \<equiv> DAList.delete"

abbreviation dempty :: "('k, 'v) dict" where
  "dempty \<equiv> DAList.empty"

abbreviation entries :: "('k, 'v) dict \<Rightarrow> ('k \<times> 'v) list" where
  "entries \<equiv> DAList.impl_of"

definition dget_or :: "'v \<Rightarrow> ('k, 'v) dict \<Rightarrow> 'k \<Rightarrow> 'v" where
  "dget_or z m k = (case dget m k of None \<Rightarrow> z | Some v \<Rightarrow> v)"

text \<open>Assignment through a pointer stored in the map, \<^verbatim>\<open>p := m[k]; p.f = \<dots>\<close>.\<close>

definition dmodify :: "'k \<Rightarrow> ('v \<Rightarrow> 'v) \<Rightarrow> ('k, 'v) dict \<Rightarrow> ('k, 'v) dict" where
  "dmodify k f m = (case dget m k of None \<Rightarrow> m | Some v \<Rightarrow> dset k (f v) m)"

definition dict_sum :: "('k \<Rightarrow> 'v \<Rightarrow> int) \<Rightarrow> ('k, 'v) dict \<Rightarrow> int" where
  "dict_sum f m = sum_list (map (\<lambda>(k, v). f k v) (entries m))"

text \<open>A loop over the entries of a map that stops at the first error.\<close>

fun first_error :: "('a \<Rightarrow> 'e option) \<Rightarrow> 'a list \<Rightarrow> 'e option" where
  "first_error f [] = None"
| "first_error f (x # xs) = (case f x of Some e \<Rightarrow> Some e | None \<Rightarrow> first_error f xs)"

section \<open>Decimal and hexadecimal text\<close>

fun dec_digits :: "nat \<Rightarrow> string" where
  "dec_digits n =
     (if n < 10 then [char_of (48 + n)] else dec_digits (n div 10) @ [char_of (48 + n mod 10)])"

declare dec_digits.simps [simp del]

fun dec_value :: "string \<Rightarrow> nat \<Rightarrow> nat" where
  "dec_value [] acc = acc"
| "dec_value (c # cs) acc = dec_value cs (acc * 10 + (of_char c - 48))"

definition show_int :: "int \<Rightarrow> string" where
  "show_int i = (if i < 0 then CHR ''-'' # dec_digits (nat (- i)) else dec_digits (nat i))"

text \<open>The verb \<^verbatim>\<open>%020d\<close> of \<^verbatim>\<open>fmt\<close>: decimal, padded with zeros on the left.\<close>

definition pad_left :: "nat \<Rightarrow> string \<Rightarrow> string" where
  "pad_left n s = replicate (n - length s) (CHR ''0'') @ s"

definition hex_digit :: "nat \<Rightarrow> char" where
  "hex_digit d = (if d < 10 then char_of (48 + d) else char_of (87 + d))"

fun hex_fixed :: "nat \<Rightarrow> nat \<Rightarrow> string" where
  "hex_fixed 0 v = []"
| "hex_fixed (Suc k) v = hex_fixed k (v div 16) @ [hex_digit (v mod 16)]"

definition hex_bytes :: "bytes \<Rightarrow> string" where
  "hex_bytes bs = concat (map (\<lambda>c. hex_fixed 2 (of_char c)) bs)"

section \<open>Interfaces\<close>

text \<open>A text or binary format: what is encoded from an admissible value decodes to that value.\<close>

locale codec =
  fixes enc :: "'a \<Rightarrow> bytes"
    and dec :: "bytes \<Rightarrow> 'a option"
    and ok :: "'a \<Rightarrow> bool"
  assumes dec_enc: "ok x \<Longrightarrow> dec (enc x) = Some x"
begin

lemma enc_inject: "ok x \<Longrightarrow> ok y \<Longrightarrow> enc x = enc y \<longleftrightarrow> x = y"
  using dec_enc by (metis option.inject)

lemma enc_inj_on: "inj_on enc {x. ok x}"
  using enc_inject by (auto intro: inj_onI)

end

text \<open>
  A state machine with an invariant: \<open>start\<close> holds of the initial states, \<open>step\<close> executes one operation and
  \<open>inv\<close> is kept. \<open>admissible\<close> restricts the operations of a run.
\<close>

locale state_machine =
  fixes step :: "'op \<Rightarrow> 's \<Rightarrow> 's"
    and start :: "'s \<Rightarrow> bool"
    and admissible :: "'op \<Rightarrow> bool"
    and inv :: "'s \<Rightarrow> bool"
  assumes inv_start: "start s \<Longrightarrow> inv s"
    and inv_step: "inv s \<Longrightarrow> admissible op \<Longrightarrow> inv (step op s)"
begin

lemma inv_fold: "inv s \<Longrightarrow> \<forall>op \<in> set ops. admissible op \<Longrightarrow> inv (fold step ops s)"
  by (induction ops arbitrary: s) (auto intro: inv_step)

lemma inv_run: "start s \<Longrightarrow> \<forall>op \<in> set ops. admissible op \<Longrightarrow> inv (fold step ops s)"
  by (intro inv_fold inv_start)

end

section \<open>Lemmas on finite maps\<close>

lemma mem_entries_iff [dict_simps]: "(k, v) \<in> set (entries m) \<longleftrightarrow> dget m k = Some v"
  by (simp add: DAList.lookup.rep_eq)

lemma dget_or_empty [simp]: "dget_or z dempty k = z"
  by (simp add: dget_or_def)

lemma dget_or_dset [simp]: "dget_or z (dset k v m) j = (if j = k then v else dget_or z m j)"
  by (simp add: dget_or_def DAList.lookup_update)

lemma dget_dmodify: "dget (dmodify k f m) j = (if j = k then map_option f (dget m k) else dget m j)"
  by (simp add: dmodify_def DAList.lookup_update split: option.splits)

lemma dmodify_Some: "dget m k = Some v \<Longrightarrow> dmodify k f m = dset k (f v) m"
  by (simp add: dmodify_def)

lemma sum_list_alist_update:
  fixes g :: "'k \<times> 'v \<Rightarrow> int"
  assumes "distinct (map fst al)"
  shows "sum_list (map g (AList.update k v al)) =
    sum_list (map g al) - (case map_of al k of None \<Rightarrow> 0 | Some u \<Rightarrow> g (k, u)) + g (k, v)"
  using assms
proof (induction al)
  case Nil
  then show ?case by simp
next
  case (Cons p al)
  obtain a b where p: "p = (a, b)" by (cases p)
  show ?case
  proof (cases "a = k")
    case True
    then show ?thesis by (simp add: p)
  next
    case False
    with Cons show ?thesis by (simp add: p)
  qed
qed

lemma dict_sum_empty [simp]: "dict_sum f dempty = 0"
  by (simp add: dict_sum_def DAList.empty.rep_eq)

lemma dict_sum_dset [dict_simps]:
  "dict_sum f (dset k v m) = dict_sum f m - (case dget m k of None \<Rightarrow> 0 | Some u \<Rightarrow> f k u) + f k v"
  using sum_list_alist_update [of "entries m" "\<lambda>(k, v). f k v" k v]
  by (simp add: dict_sum_def DAList.update.rep_eq DAList.lookup.rep_eq split: option.splits)

lemma dict_sum_fresh: "dget m k = None \<Longrightarrow> dict_sum f (dset k v m) = dict_sum f m + f k v"
  by (simp add: dict_sum_dset)

lemma dict_sum_replace:
  "dget m k = Some u \<Longrightarrow> dict_sum f (dset k v m) = dict_sum f m - f k u + f k v"
  by (simp add: dict_sum_dset)

lemma first_error_None: "first_error f xs = None \<longleftrightarrow> (\<forall>x \<in> set xs. f x = None)"
  by (induction xs) (auto split: option.splits)

lemma first_error_entries:
  "first_error f (entries m) = None \<longleftrightarrow> (\<forall>k v. dget m k = Some v \<longrightarrow> f (k, v) = None)"
  by (auto simp: first_error_None mem_entries_iff)

lemma unat_succ:
  fixes x :: uint64
  assumes "Suc (unat x) < 2 ^ 64"
  shows "unat (x + 1) = Suc (unat x)"
  using assms by (simp add: unat_word_ariths)

section \<open>Lemmas on decimal text\<close>

lemma dec_digits_nonempty [simp]: "dec_digits n \<noteq> []"
  by (subst dec_digits.simps) simp

lemma dec_digits_set: "c \<in> set (dec_digits n) \<Longrightarrow> \<exists>d < 10. c = char_of (48 + d :: nat)"
proof (induction n rule: dec_digits.induct)
  case (1 n)
  show ?case
  proof (cases "n < 10")
    case True
    with 1 show ?thesis by (auto simp: dec_digits.simps [of n])
  next
    case False
    with 1 have "c \<in> set (dec_digits (n div 10)) \<or> c = char_of (48 + n mod 10)"
      by (auto simp: dec_digits.simps [of n])
    moreover have "n mod 10 < 10" by simp
    ultimately show ?thesis using 1 False by blast
  qed
qed

lemma length_dec_digits: "0 < k \<Longrightarrow> length (dec_digits n) \<le> k \<longleftrightarrow> n < 10 ^ k"
proof (induction n arbitrary: k rule: dec_digits.induct)
  case (1 n)
  show ?case
  proof (cases "n < 10")
    case True
    have "(10::nat) \<le> 10 ^ k" using \<open>0 < k\<close> by (simp add: self_le_power)
    with True have "n < 10 ^ k" by linarith
    with True \<open>0 < k\<close> show ?thesis by (simp add: dec_digits.simps [of n])
  next
    case False
    then have len: "length (dec_digits n) = Suc (length (dec_digits (n div 10)))"
      by (simp add: dec_digits.simps [of n])
    obtain j where k: "k = Suc j" using \<open>0 < k\<close> by (cases k) auto
    show ?thesis
    proof (cases "j = 0")
      case True
      have "0 < length (dec_digits (n div 10))" by simp
      with len k True False show ?thesis by simp
    next
      case j: False
      have "length (dec_digits n) \<le> k \<longleftrightarrow> length (dec_digits (n div 10)) \<le> j"
        by (simp add: len k)
      also have "\<dots> \<longleftrightarrow> n div 10 < 10 ^ j"
        using 1 False j by simp
      also have "\<dots> \<longleftrightarrow> n < 10 ^ k"
        by (simp add: k div_less_iff_less_mult mult.commute)
      finally show ?thesis .
    qed
  qed
qed

lemma dec_value_append: "dec_value (xs @ ys) acc = dec_value ys (dec_value xs acc)"
  by (induction xs arbitrary: acc) auto

lemma dec_value_digits [simp]: "dec_value (dec_digits n) 0 = n"
proof (induction n rule: dec_digits.induct)
  case (1 n)
  show ?case
  proof (cases "n < 10")
    case True
    then show ?thesis by (simp add: dec_digits.simps [of n])
  next
    case False
    have "(48 + n mod 10) mod 256 = 48 + n mod 10" by simp
    with 1 False show ?thesis by (simp add: dec_digits.simps [of n] dec_value_append)
  qed
qed

lemma inj_dec_digits: "dec_digits a = dec_digits b \<longleftrightarrow> a = b"
  by (metis dec_value_digits)

lemma dec_digits_no_minus: "CHR ''-'' \<notin> set (dec_digits n)"
proof
  assume "CHR ''-'' \<in> set (dec_digits n)"
  then obtain d :: nat where "d < 10" "CHR ''-'' = char_of (48 + d)"
    using dec_digits_set by blast
  then have "(of_char (CHR ''-'') :: nat) = (48 + d) mod 256" by simp
  with \<open>d < 10\<close> show False by simp
qed

lemma inj_show_int: "show_int a = show_int b \<longleftrightarrow> a = b"
proof
  assume eq: "show_int a = show_int b"
  have "(a < 0) = (b < 0)"
  proof (rule ccontr)
    assume "(a < 0) \<noteq> (b < 0)"
    then consider "a < 0" "\<not> b < 0" | "\<not> a < 0" "b < 0" by blast
    then show False
    proof cases
      case 1
      with eq have "CHR ''-'' \<in> set (dec_digits (nat b))"
        by (metis list.set_intros(1) show_int_def)
      then show False by (simp add: dec_digits_no_minus)
    next
      case 2
      with eq have "CHR ''-'' \<in> set (dec_digits (nat a))"
        by (metis list.set_intros(1) show_int_def)
      then show False by (simp add: dec_digits_no_minus)
    qed
  qed
  with eq show "a = b"
    by (auto simp: show_int_def inj_dec_digits split: if_splits)
qed simp

lemma dec_value_zeros: "dec_value (replicate k (CHR ''0'')) 0 = 0"
  by (induction k) auto

lemma dec_value_pad_left: "dec_value (pad_left k (dec_digits n)) 0 = n"
  by (simp add: pad_left_def dec_value_append dec_value_zeros)

lemma inj_pad_dec: "pad_left k (dec_digits a) = pad_left k (dec_digits b) \<longleftrightarrow> a = b"
  by (metis dec_value_pad_left)

end
