(* ===== verification/Hashing.thy ===== *)
theory Hashing
  imports Prelude
begin

text \<open>
  What the repository uses of \<^verbatim>\<open>encoding/binary\<close>, \<^verbatim>\<open>crypto/sha256\<close> and \<^verbatim>\<open>crypto/hmac\<close>: big-endian
  integers, SHA-256 (FIPS 180-4) and HMAC (RFC 2104), and the length-prefixed framing all its
  canonical encodings are built from.

  The framing lemmas show that a list of fields is recovered from its frame. No property assumes
  that SHA-256 is injective on all inputs; where two requests have to be told apart by their hashes,
  the hypothesis speaks of the requests at hand.
\<close>

unbundle bit_operations_syntax

section \<open>Big-endian integers\<close>

fun be_bytes :: "nat \<Rightarrow> int \<Rightarrow> bytes" where
  "be_bytes 0 v = []"
| "be_bytes (Suc k) v = be_bytes k (v div 256) @ [char_of (v mod 256)]"

definition put_uint32 :: "uint32 \<Rightarrow> bytes" where
  "put_uint32 w = be_bytes 4 (uint w)"

definition put_uint64 :: "uint64 \<Rightarrow> bytes" where
  "put_uint64 w = be_bytes 8 (uint w)"

definition put_uint16 :: "uint16 \<Rightarrow> bytes" where
  "put_uint16 w = be_bytes 2 (uint w)"

definition be_value :: "bytes \<Rightarrow> int" where
  "be_value bs = foldl (\<lambda>a c. a * 256 + of_char c) 0 bs"

section \<open>SHA-256\<close>

text \<open>
  The constants are computed from their definition in the standard: the first 32 bits of the fractional
  parts of the cube roots of the first 64 primes, and of the square roots of the first 8.
\<close>

definition sha_primes :: "int list" where
  "sha_primes = filter (\<lambda>p. list_all (\<lambda>d. p mod d \<noteq> 0) [2..p - 1]) [2..311]"

fun int_root :: "nat \<Rightarrow> int \<Rightarrow> nat \<Rightarrow> int \<Rightarrow> int" where
  "int_root k n 0 r = r"
| "int_root k n (Suc b) r = int_root k n b (if (r + 2 ^ b) ^ k \<le> n then r + 2 ^ b else r)"

definition sha_K :: "uint32 list" where
  "sha_K = map (\<lambda>p. word_of_int (int_root 3 (p * 2 ^ 96) 36 0)) sha_primes"

definition sha_H0 :: "uint32 list" where
  "sha_H0 = map (\<lambda>p. word_of_int (int_root 2 (p * 2 ^ 64) 36 0)) [2, 3, 5, 7, 11, 13, 17, 19]"

definition sha_rotr :: "nat \<Rightarrow> uint32 \<Rightarrow> uint32" where
  "sha_rotr n x = drop_bit n x OR push_bit (32 - n) x"

definition sha_pad :: "bytes \<Rightarrow> bytes" where
  "sha_pad m = m @ [CHR 0x80] @ replicate ((119 - length m mod 64) mod 64) (CHR 0x00)
     @ be_bytes 8 (8 * int (length m))"

fun sha_chunks :: "nat \<Rightarrow> nat \<Rightarrow> 'a list \<Rightarrow> 'a list list" where
  "sha_chunks k 0 xs = []"
| "sha_chunks k (Suc n) xs = take k xs # sha_chunks k n (drop k xs)"

text \<open>The message schedule is built newest word first.\<close>

definition sha_sched_next :: "uint32 list \<Rightarrow> uint32" where
  "sha_sched_next ws =
     (let w2 = ws ! 1; w7 = ws ! 6; w15 = ws ! 14; w16 = ws ! 15 in
      w16 + (sha_rotr 7 w15 XOR sha_rotr 18 w15 XOR drop_bit 3 w15) + w7
          + (sha_rotr 17 w2 XOR sha_rotr 19 w2 XOR drop_bit 10 w2))"

fun sha_sched :: "nat \<Rightarrow> uint32 list \<Rightarrow> uint32 list" where
  "sha_sched 0 ws = rev ws"
| "sha_sched (Suc n) ws = sha_sched n (sha_sched_next ws # ws)"

definition sha_round :: "uint32 list \<Rightarrow> uint32 \<times> uint32 \<Rightarrow> uint32 list" where
  "sha_round st kw =
     (case st of
        [a, b, c, d, e, f, g, h] \<Rightarrow>
          let t1 = h + (sha_rotr 6 e XOR sha_rotr 11 e XOR sha_rotr 25 e)
                     + ((e AND f) XOR (NOT e AND g)) + fst kw + snd kw;
              t2 = (sha_rotr 2 a XOR sha_rotr 13 a XOR sha_rotr 22 a)
                     + ((a AND b) XOR (a AND c) XOR (b AND c))
          in [t1 + t2, a, b, c, d + t1, e, f, g]
      | _ \<Rightarrow> st)"

definition sha_compress :: "uint32 list \<Rightarrow> bytes \<Rightarrow> uint32 list" where
  "sha_compress h blk =
     map2 (+) h (foldl sha_round h
       (zip sha_K (sha_sched 48 (rev (map (\<lambda>b. word_of_int (be_value b)) (sha_chunks 4 16 blk))))))"

definition sha256 :: "bytes \<Rightarrow> bytes" where
  "sha256 m =
     (let p = sha_pad m in
      concat (map put_uint32 (foldl sha_compress sha_H0 (sha_chunks 64 (length p div 64) p))))"

definition zero_hash :: bytes where
  "zero_hash = replicate 32 (CHR 0x00)"

section \<open>HMAC\<close>

definition xor_byte :: "int \<Rightarrow> char \<Rightarrow> char" where
  "xor_byte n c = char_of ((of_char c :: int) XOR n)"

definition hmac_sha256 :: "bytes \<Rightarrow> bytes \<Rightarrow> bytes" where
  "hmac_sha256 key msg =
     (let short = (if length key > 64 then sha256 key else key);
          k = short @ replicate (64 - length short) (CHR 0x00)
      in sha256 (map (xor_byte 0x5c) k @ sha256 (map (xor_byte 0x36) k @ msg)))"

section \<open>Framing\<close>

text \<open>
  \<open>framed n f\<close> is the field \<open>f\<close> behind its length as an \<open>n\<close>-byte big-endian integer: \<^verbatim>\<open>n = 4\<close> in
  the ledger, the simulator and the certificates, \<^verbatim>\<open>n = 8\<close> in the transport messages.
\<close>

definition framed :: "nat \<Rightarrow> bytes \<Rightarrow> bytes" where
  "framed n f = be_bytes n (int (length f)) @ f"

definition framed_list :: "nat \<Rightarrow> bytes list \<Rightarrow> bytes" where
  "framed_list n fs = concat (map (framed n) fs)"

section \<open>Lemmas\<close>

lemma length_be_bytes [simp]: "length (be_bytes k v) = k"
  by (induction k v rule: be_bytes.induct) auto

lemma be_value_snoc [simp]: "be_value (bs @ [c]) = be_value bs * 256 + of_char c"
  by (simp add: be_value_def)

lemma be_value_be_bytes: "be_value (be_bytes k v) = v mod 256 ^ k"
proof (induction k v rule: be_bytes.induct)
  case (1 v)
  then show ?case by (simp add: be_value_def)
next
  case (2 k v)
  have "be_value (be_bytes (Suc k) v) = (v div 256 mod 256 ^ k) * 256 + v mod 256"
    using 2 by simp
  also have "\<dots> = v mod (256 * 256 ^ k)"
    using zmod_zmult2_eq [of "256 ^ k" v 256] by simp
  finally show ?case by simp
qed

lemma be_bytes_inject:
  "0 \<le> a \<Longrightarrow> a < 256 ^ k \<Longrightarrow> 0 \<le> b \<Longrightarrow> b < 256 ^ k \<Longrightarrow> be_bytes k a = be_bytes k b \<longleftrightarrow> a = b"
  by (metis be_value_be_bytes mod_pos_pos_trivial)

lemma put_uint64_inject [simp]: "put_uint64 a = put_uint64 b \<longleftrightarrow> a = b"
proof -
  have "uint a < 256 ^ 8" "uint b < 256 ^ 8"
    using uint_lt2p [of a] uint_lt2p [of b] by simp_all
  then show ?thesis
    by (simp add: put_uint64_def be_bytes_inject word_uint_eq_iff)
qed

lemma length_put_uint64 [simp]: "length (put_uint64 w) = 8"
  by (simp add: put_uint64_def)

lemma length_put_uint32 [simp]: "length (put_uint32 w) = 4"
  by (simp add: put_uint32_def)

lemma framed_append_inject:
  assumes "int (length f) < 256 ^ n" "int (length g) < 256 ^ n"
  shows "framed n f @ r = framed n g @ s \<longleftrightarrow> f = g \<and> r = s"
proof
  assume eq: "framed n f @ r = framed n g @ s"
  then have "be_bytes n (int (length f)) = be_bytes n (int (length g)) \<and> f @ r = g @ s"
    by (simp add: framed_def)
  then have "length f = length g" "f @ r = g @ s"
    using assms be_bytes_inject [of "int (length f)" n "int (length g)"] by auto
  then show "f = g \<and> r = s" by simp
qed simp

lemma put_uint16_append_inject [simp]: "put_uint16 a @ r = put_uint16 b @ s \<longleftrightarrow> a = b \<and> r = s"
proof -
  have "uint a < 256 ^ 2" "uint b < 256 ^ 2"
    using uint_lt2p [of a] uint_lt2p [of b] by simp_all
  then show ?thesis by (simp add: put_uint16_def be_bytes_inject word_uint_eq_iff)
qed

lemma put_uint64_append_inject [simp]: "put_uint64 a @ r = put_uint64 b @ s \<longleftrightarrow> a = b \<and> r = s"
  by simp

lemma put_uint32_nonempty [simp]: "put_uint32 w \<noteq> []"
  using length_put_uint32 [of w] by (metis length_0_conv zero_neq_numeral)

text \<open>Fields of at most a megabyte, as all validated text is, and arrays of 32 bytes.\<close>

lemma frame32: "length v \<le> 1048576 \<Longrightarrow> put_uint32 (word_of_nat (length v)) @ v = framed 4 v"
  by (simp add: put_uint32_def framed_def unsigned_of_nat take_bit_nat_eq_self)

lemma framed4_append_inject:
  "length f \<le> 1048576 \<Longrightarrow> length g \<le> 1048576 \<Longrightarrow> framed 4 f @ r = framed 4 g @ s \<longleftrightarrow> f = g \<and> r = s"
  by (rule framed_append_inject) simp_all

lemma framed4_inject: "length f \<le> 1048576 \<Longrightarrow> length g \<le> 1048576 \<Longrightarrow> framed 4 f = framed 4 g \<longleftrightarrow> f = g"
  using framed4_append_inject [of f g "[]" "[]"] by simp

definition array32 :: "bytes \<Rightarrow> bool" where
  "array32 b \<longleftrightarrow> length b = 32"

lemma array32_append_inject: "array32 f \<Longrightarrow> array32 g \<Longrightarrow> f @ r = g @ s \<longleftrightarrow> f = g \<and> r = s"
  by (simp add: array32_def)

lemma framed_list_simps [simp]:
  "framed_list n [] = []"
  "framed_list n (f # fs) = framed n f @ framed_list n fs"
  by (simp_all add: framed_list_def)

lemma framed_nonempty [simp]: "0 < n \<Longrightarrow> framed n f \<noteq> []"
  by (cases n) (simp_all add: framed_def)

lemma framed_list_inject:
  assumes "0 < n" "\<forall>f \<in> set fs. int (length f) < 256 ^ n" "\<forall>g \<in> set gs. int (length g) < 256 ^ n"
  shows "framed_list n fs = framed_list n gs \<longleftrightarrow> fs = gs"
  using assms(2,3)
proof (induction fs arbitrary: gs)
  case Nil
  then show ?case using \<open>0 < n\<close> by (cases gs) auto
next
  case (Cons f fs)
  show ?case
  proof (cases gs)
    case Nil
    then show ?thesis using \<open>0 < n\<close> by simp
  next
    case gs: (Cons g gs')
    have "framed_list n (f # fs) = framed_list n gs \<longleftrightarrow> f = g \<and> framed_list n fs = framed_list n gs'"
      using Cons.prems by (simp add: gs framed_append_inject)
    also have "\<dots> \<longleftrightarrow> f # fs = gs" using Cons by (simp add: gs)
    finally show ?thesis .
  qed
qed

lemma length_concat_const: "(\<forall>x \<in> set xs. length x = k) \<Longrightarrow> length (concat xs) = k * length xs"
  by (induction xs) auto

lemma length_sha_round: "length (sha_round st kw) = length st"
  by (auto simp: sha_round_def Let_def split: list.splits)

lemma length_foldl_sha_round: "length (foldl sha_round st kws) = length st"
  by (induction kws arbitrary: st) (auto simp: length_sha_round)

lemma length_foldl_sha_compress: "length (foldl sha_compress st bs) = length st"
  by (induction bs arbitrary: st) (auto simp: sha_compress_def length_foldl_sha_round)

lemma length_sha256 [simp]: "length (sha256 m) = 32"
proof -
  have "length (concat (map put_uint32 ws)) = 4 * length ws" for ws
    by (induction ws) auto
  then show ?thesis
    by (simp add: sha256_def Let_def length_foldl_sha_compress sha_H0_def)
qed

lemma length_hmac [simp]: "length (hmac_sha256 k m) = 32"
  by (simp add: hmac_sha256_def Let_def)

lemma length_zero_hash [simp]: "length zero_hash = 32"
  by (simp add: zero_hash_def)

end
