(* ===== verification/Network.thy ===== *)
theory Network
  imports Hashing "HOL-Library.Multiset"
begin

text \<open>
  The fault-injecting transport of \<^verbatim>\<open>internal/simulation/network.go\<close>. The mutex serialises the methods,
  so each is a function from the state of the network to its result and the new state.

  \<^verbatim>\<open>time.Duration\<close> and \<^verbatim>\<open>time.Time\<close> are integers of nanoseconds. The \<^verbatim>\<open>int\<close> counters are 64-bit words read
  as signed integers.
\<close>

section \<open>State\<close>

datatype sim_error = ErrPartitioned | ErrPacketLost | ErrNodeDown | ErrStaleFence | ErrSimOther string

type_synonym MessageKind = string

definition Command :: MessageKind where "Command = ''COMMAND''"

definition Event :: MessageKind where "Event = ''EVENT''"

definition Response :: MessageKind where "Response = ''RESPONSE''"

definition Ack :: MessageKind where "Ack = ''ACK''"

record Envelope =
  env_MessageID :: string
  env_From :: string
  env_To :: string
  env_Kind :: MessageKind
  env_CorrelationID :: string
  env_Payload :: bytes
  env_Sequence :: uint64
  env_Delivery :: uint32

type_synonym link = "string \<times> string"

definition canonicalLink :: "string \<Rightarrow> string \<Rightarrow> link" where
  "canonicalLink a b = (if a < b then (a, b) else (b, a))"

record Network =
  n_seed :: uint64
  n_sequence :: uint64
  n_tick :: uint64
  n_dropPercent :: uint8
  n_duplicateEvery :: uint64
  n_reorder :: bool
  n_partitions :: "(link, bool) dict"
  n_down :: "(string, bool) dict"
  n_clockSkew :: "(string, int) dict"
  n_dropNext :: "(string, go_int) dict"
  n_duplicateNext :: "(string, go_int) dict"
  n_loseResponse :: "(string, go_int) dict"
  n_queue :: "Envelope list"

definition NewNetwork :: "uint64 \<Rightarrow> Network" where
  "NewNetwork seed = \<lparr>n_seed = seed, n_sequence = 0, n_tick = 0, n_dropPercent = 0,
     n_duplicateEvery = 0, n_reorder = False, n_partitions = dempty, n_down = dempty,
     n_clockSkew = dempty, n_dropNext = dempty, n_duplicateNext = dempty, n_loseResponse = dempty,
     n_queue = []\<rparr>"

section \<open>Fault injection\<close>

definition Network_Partition :: "string \<Rightarrow> string \<Rightarrow> Network \<Rightarrow> Network" where
  "Network_Partition a b n = n\<lparr>n_partitions := dset (canonicalLink a b) True (n_partitions n)\<rparr>"

definition Network_Heal :: "string \<Rightarrow> string \<Rightarrow> Network \<Rightarrow> Network" where
  "Network_Heal a b n = n\<lparr>n_partitions := ddel (canonicalLink a b) (n_partitions n)\<rparr>"

definition Network_HealAll :: "Network \<Rightarrow> Network" where
  "Network_HealAll n = n\<lparr>n_partitions := dempty\<rparr>"

definition Network_SetDropPercent :: "uint8 \<Rightarrow> Network \<Rightarrow> Network" where
  "Network_SetDropPercent percent n = n\<lparr>n_dropPercent := (if percent > 100 then 100 else percent)\<rparr>"

definition Network_SetDuplicateEvery :: "uint64 \<Rightarrow> Network \<Rightarrow> Network" where
  "Network_SetDuplicateEvery every n = n\<lparr>n_duplicateEvery := every\<rparr>"

definition Network_SetReorder :: "bool \<Rightarrow> Network \<Rightarrow> Network" where
  "Network_SetReorder enabled n = n\<lparr>n_reorder := enabled\<rparr>"

definition Network_DropNext :: "string \<Rightarrow> go_int \<Rightarrow> Network \<Rightarrow> Network" where
  "Network_DropNext messageID k n =
     (if 0 <s k
      then n\<lparr>n_dropNext := dset messageID (dget_or 0 (n_dropNext n) messageID + k) (n_dropNext n)\<rparr>
      else n)"

definition Network_DuplicateNext :: "string \<Rightarrow> go_int \<Rightarrow> Network \<Rightarrow> Network" where
  "Network_DuplicateNext messageID extra n =
     (if 0 <s extra
      then n\<lparr>n_duplicateNext :=
        dset messageID (dget_or 0 (n_duplicateNext n) messageID + extra) (n_duplicateNext n)\<rparr>
      else n)"

definition Network_LoseResponse :: "string \<Rightarrow> Network \<Rightarrow> Network" where
  "Network_LoseResponse requestID n =
     n\<lparr>n_loseResponse := dset requestID (dget_or 0 (n_loseResponse n) requestID + 1) (n_loseResponse n)\<rparr>"

definition Network_Crash :: "string \<Rightarrow> Network \<Rightarrow> Network" where
  "Network_Crash node n = n\<lparr>n_down := dset node True (n_down n)\<rparr>"

definition Network_Restart :: "string \<Rightarrow> Network \<Rightarrow> Network" where
  "Network_Restart node n = n\<lparr>n_down := ddel node (n_down n)\<rparr>"

definition Network_ClockSkew :: "string \<Rightarrow> int \<Rightarrow> Network \<Rightarrow> Network" where
  "Network_ClockSkew node skew n = n\<lparr>n_clockSkew := dset node skew (n_clockSkew n)\<rparr>"

definition Network_Now :: "string \<Rightarrow> int \<Rightarrow> Network \<Rightarrow> int" where
  "Network_Now node base n = base + dget_or 0 (n_clockSkew n) node"

section \<open>Transport\<close>

definition deterministicPercent :: "uint64 \<Rightarrow> uint64 \<Rightarrow> string \<Rightarrow> uint8" where
  "deterministicPercent seed sequence messageID =
     word_of_int (be_value (take 8 (sha256 (put_uint64 seed @ put_uint64 sequence @ messageID))) mod 100)"

definition isDown :: "Network \<Rightarrow> string \<Rightarrow> bool" where
  "isDown n node = dget_or False (n_down n) node"

definition isCut :: "Network \<Rightarrow> string \<Rightarrow> string \<Rightarrow> bool" where
  "isCut n a b = dget_or False (n_partitions n) (canonicalLink a b)"

text \<open>The packets a successful \<^verbatim>\<open>Send\<close> puts on the queue: the original and \<^verbatim>\<open>extra\<close> numbered duplicates.\<close>

definition deliveries :: "Envelope \<Rightarrow> go_int \<Rightarrow> Envelope list" where
  "deliveries envelope extra =
     envelope # map (\<lambda>d. envelope\<lparr>env_Delivery := word_of_int d\<rparr>) [1..sint extra]"

definition Network_Send :: "Envelope \<Rightarrow> Network \<Rightarrow> Network \<times> sim_error option" where
  "Network_Send envelope n =
     (if env_MessageID envelope = [] \<or> env_From envelope = [] \<or> env_To envelope = []
      then (n, Some (ErrSimOther ''simulation: invalid envelope''))
      else if isDown n (env_From envelope) \<or> isDown n (env_To envelope) then (n, Some ErrNodeDown)
      else if isCut n (env_From envelope) (env_To envelope) then (n, Some ErrPartitioned)
      else if env_Kind envelope = Response \<and> 0 <s dget_or 0 (n_loseResponse n) (env_CorrelationID envelope)
      then (n\<lparr>n_loseResponse := dset (env_CorrelationID envelope)
                (dget_or 0 (n_loseResponse n) (env_CorrelationID envelope) - 1) (n_loseResponse n)\<rparr>,
            Some ErrPacketLost)
      else if 0 <s dget_or 0 (n_dropNext n) (env_MessageID envelope)
      then (n\<lparr>n_dropNext := dset (env_MessageID envelope)
                (dget_or 0 (n_dropNext n) (env_MessageID envelope) - 1) (n_dropNext n)\<rparr>,
            Some ErrPacketLost)
      else
        let sequence = n_sequence n + 1;
            n1 = n\<lparr>n_sequence := sequence\<rparr>;
            stamped = envelope\<lparr>env_Sequence := sequence\<rparr>
        in if deterministicPercent (n_seed n) sequence (env_MessageID envelope) < n_dropPercent n
           then (n1, Some ErrPacketLost)
           else
             let next = dget_or 0 (n_duplicateNext n) (env_MessageID envelope);
                 extra = (if 0 < n_duplicateEvery n \<and> sequence mod n_duplicateEvery n = 0
                          then next + 1 else next)
             in (n1\<lparr>n_duplicateNext := ddel (env_MessageID envelope) (n_duplicateNext n),
                    n_queue := n_queue n @ deliveries stamped extra\<rparr>, None))"

text \<open>
  The loop of \<^verbatim>\<open>Drain\<close>: a packet whose destination is down or whose link is cut goes to \<^verbatim>\<open>remaining\<close>, any other to \<^verbatim>\<open>result\<close>.
  \<^verbatim>\<open>remaining\<close> reuses the array of the queue; it is never longer than the part of the queue already read.
\<close>

fun drain_loop :: "Network \<Rightarrow> Envelope list \<Rightarrow> Envelope list \<Rightarrow> Envelope list \<Rightarrow> Envelope list \<times> Envelope list" where
  "drain_loop n [] result remaining = (result, remaining)"
| "drain_loop n (envelope # queue) result remaining =
     (if isDown n (env_To envelope) \<or> isCut n (env_From envelope) (env_To envelope)
      then drain_loop n queue result (remaining @ [envelope])
      else drain_loop n queue (result @ [envelope]) remaining)"

text \<open>\<^verbatim>\<open>sort.SliceStable\<close>: each element moves to the left past the elements it is less than.\<close>

fun insert_stable :: "('a \<Rightarrow> 'a \<Rightarrow> bool) \<Rightarrow> 'a \<Rightarrow> 'a list \<Rightarrow> 'a list" where
  "insert_stable lt x [] = [x]"
| "insert_stable lt x (y # ys) = (if lt x y then x # y # ys else y # insert_stable lt x ys)"

definition slice_stable :: "('a \<Rightarrow> 'a \<Rightarrow> bool) \<Rightarrow> 'a list \<Rightarrow> 'a list" where
  "slice_stable lt xs = fold (insert_stable lt) xs []"

definition reorder_less :: "Envelope \<Rightarrow> Envelope \<Rightarrow> bool" where
  "reorder_less a b = (if env_Sequence a = env_Sequence b then env_Delivery a > env_Delivery b
                       else env_Sequence a > env_Sequence b)"

definition Network_Drain :: "Network \<Rightarrow> Network \<times> Envelope list" where
  "Network_Drain n =
     (let (result, remaining) = drain_loop n (n_queue n) [] []
      in (n\<lparr>n_tick := n_tick n + 1, n_queue := remaining\<rparr>,
          if n_reorder n then slice_stable reorder_less result else result))"

definition Network_Pending :: "Network \<Rightarrow> nat" where
  "Network_Pending n = length (n_queue n)"

section \<open>Runs\<close>

text \<open>
  Any sequence of calls on a network. Beside the new network, a step tells which packets a \<^verbatim>\<open>Send\<close> put on the queue and which packets
  a \<^verbatim>\<open>Drain\<close> handed out.
\<close>

datatype net_op =
    NetPartition string string
  | NetHeal string string
  | NetHealAll
  | NetSetDropPercent uint8
  | NetSetDuplicateEvery uint64
  | NetSetReorder bool
  | NetDropNext string go_int
  | NetDuplicateNext string go_int
  | NetLoseResponse string
  | NetCrash string
  | NetRestart string
  | NetClockSkew string int
  | NetSend Envelope
  | NetDrain

fun net_step :: "net_op \<Rightarrow> Network \<Rightarrow> Network \<times> Envelope list \<times> Envelope list" where
  "net_step (NetPartition a b) n = (Network_Partition a b n, [], [])"
| "net_step (NetHeal a b) n = (Network_Heal a b n, [], [])"
| "net_step NetHealAll n = (Network_HealAll n, [], [])"
| "net_step (NetSetDropPercent percent) n = (Network_SetDropPercent percent n, [], [])"
| "net_step (NetSetDuplicateEvery every) n = (Network_SetDuplicateEvery every n, [], [])"
| "net_step (NetSetReorder enabled) n = (Network_SetReorder enabled n, [], [])"
| "net_step (NetDropNext messageID k) n = (Network_DropNext messageID k n, [], [])"
| "net_step (NetDuplicateNext messageID extra) n = (Network_DuplicateNext messageID extra n, [], [])"
| "net_step (NetLoseResponse requestID) n = (Network_LoseResponse requestID n, [], [])"
| "net_step (NetCrash node) n = (Network_Crash node n, [], [])"
| "net_step (NetRestart node) n = (Network_Restart node n, [], [])"
| "net_step (NetClockSkew node skew) n = (Network_ClockSkew node skew n, [], [])"
| "net_step (NetSend envelope) n =
     (let n' = fst (Network_Send envelope n) in (n', drop (length (n_queue n)) (n_queue n'), []))"
| "net_step NetDrain n = (let (n', delivered) = Network_Drain n in (n', [], delivered))"

fun net_run :: "net_op list \<Rightarrow> Network \<Rightarrow> Network \<times> Envelope list \<times> Envelope list" where
  "net_run [] n = (n, [], [])"
| "net_run (op # ops) n =
     (let (n1, accepted, delivered) = net_step op n; (n2, accepted', delivered') = net_run ops n1
      in (n2, accepted @ accepted', delivered @ delivered'))"

definition on_link :: "string \<Rightarrow> string \<Rightarrow> Envelope \<Rightarrow> bool" where
  "on_link a b e \<longleftrightarrow> env_From e = a \<and> env_To e = b"

section \<open>Lemmas\<close>

lemma message_kinds [simp]:
  "Command \<noteq> Ack" "Ack \<noteq> Command" "Command \<noteq> Response" "Response \<noteq> Command" "Ack \<noteq> Response"
  "Response \<noteq> Ack" "Event \<noteq> Command" "Event \<noteq> Ack" "Event \<noteq> Response"
  by (simp_all add: Command_def Ack_def Response_def Event_def)

lemma canonicalLink_commute: "canonicalLink a b = canonicalLink b a"
  by (auto simp: canonicalLink_def)

lemma canonicalLink_eq_iff:
  "canonicalLink a b = canonicalLink c d \<longleftrightarrow> (a = c \<and> b = d) \<or> (a = d \<and> b = c)"
  by (auto simp: canonicalLink_def)

lemma dget_ddel: "dget (ddel k m) j = (if j = k then None else dget m j)"
  by (simp add: DAList.lookup_delete)

lemma dget_or_ddel [simp]: "dget_or z (ddel k m) j = (if j = k then z else dget_or z m j)"
  by (simp add: dget_or_def dget_ddel)

lemma set_deliveries:
  "set (deliveries e extra) \<subseteq> {e\<lparr>env_Delivery := d\<rparr> | d. True}"
  by (auto simp: deliveries_def intro: exI [of _ "env_Delivery e"])

lemma queue_Network_ops [frame_simps]:
  "n_queue (Network_Partition a b n) = n_queue n"
  "n_queue (Network_Heal a b n) = n_queue n"
  "n_queue (Network_HealAll n) = n_queue n"
  "n_queue (Network_SetDropPercent p n) = n_queue n"
  "n_queue (Network_SetDuplicateEvery v n) = n_queue n"
  "n_queue (Network_SetReorder o_n n) = n_queue n"
  "n_queue (Network_DropNext m c n) = n_queue n"
  "n_queue (Network_DuplicateNext m c n) = n_queue n"
  "n_queue (Network_LoseResponse m n) = n_queue n"
  "n_queue (Network_Crash r n) = n_queue n"
  "n_queue (Network_Restart r n) = n_queue n"
  "n_queue (Network_ClockSkew r s n) = n_queue n"
  by (simp_all add: Network_Partition_def Network_Heal_def Network_HealAll_def
      Network_SetDropPercent_def Network_SetDuplicateEvery_def Network_SetReorder_def
      Network_DropNext_def Network_DuplicateNext_def Network_LoseResponse_def Network_Crash_def
      Network_Restart_def Network_ClockSkew_def)

lemma Send_error_keeps_queue:
  "Network_Send e n = (n', Some err) \<Longrightarrow> n_queue n' = n_queue n"
  by (auto simp: Network_Send_def Let_def split: if_splits)

lemma Send_ok:
  assumes "Network_Send e n = (n', None)"
  shows "\<exists>extra. n_queue n' = n_queue n @ deliveries (e\<lparr>env_Sequence := n_sequence n + 1\<rparr>) extra"
  using assms by (auto simp: Network_Send_def Let_def split: if_splits)

lemma Send_queue_subset:
  assumes "Network_Send e n = (n', err)"
  shows "set (n_queue n') \<subseteq> set (n_queue n) \<union> {e\<lparr>env_Sequence := s, env_Delivery := d\<rparr> | s d. True}"
proof (cases err)
  case None
  then obtain extra where q: "n_queue n' = n_queue n @ deliveries (e\<lparr>env_Sequence := n_sequence n + 1\<rparr>) extra"
    using Send_ok assms by blast
  show ?thesis
    unfolding q using set_deliveries [of "e\<lparr>env_Sequence := n_sequence n + 1\<rparr>" extra] by fastforce
qed (use assms Send_error_keeps_queue in auto)

section \<open>Draining\<close>

lemma drain_loop_filter:
  "drain_loop n es result remaining =
     (result @ filter (\<lambda>e. \<not> (isDown n (env_To e) \<or> isCut n (env_From e) (env_To e))) es,
      remaining @ filter (\<lambda>e. isDown n (env_To e) \<or> isCut n (env_From e) (env_To e)) es)"
  by (induction n es result remaining rule: drain_loop.induct) auto

lemma mset_insert_stable [simp]: "mset (insert_stable lt x ys) = add_mset x (mset ys)"
  by (induction ys) auto

lemma mset_slice_stable [simp]: "mset (slice_stable lt xs) = mset xs"
proof -
  have "mset (fold (insert_stable lt) xs ys) = mset xs + mset ys" for ys
    by (induction xs arbitrary: ys) auto
  then show ?thesis by (simp add: slice_stable_def)
qed

lemma set_slice_stable [simp]: "set (slice_stable lt xs) = set xs"
  by (rule mset_eq_setD) simp

lemma sorted_insert_stable:
  assumes "sorted_wrt (\<lambda>x y. \<not> lt y x) ys"
    and "\<And>x y z. \<not> lt y x \<Longrightarrow> \<not> lt z y \<Longrightarrow> \<not> lt z x" "\<And>x y. lt x y \<Longrightarrow> \<not> lt y x"
  shows "sorted_wrt (\<lambda>x y. \<not> lt y x) (insert_stable lt x ys)"
  using assms(1)
proof (induction ys)
  case (Cons y ys)
  have "set (insert_stable lt x ys) = insert x (set ys)" using mset_insert_stable [of lt x ys] by (metis set_mset_add_mset_insert set_mset_mset)
  with Cons show ?case using assms(2) [of y x] assms(3) [of x y] by auto
qed simp

lemma sorted_slice_stable:
  assumes "\<And>x y z. \<not> lt y x \<Longrightarrow> \<not> lt z y \<Longrightarrow> \<not> lt z x" "\<And>x y. lt x y \<Longrightarrow> \<not> lt y x"
  shows "sorted_wrt (\<lambda>x y. \<not> lt y x) (slice_stable lt xs)"
proof -
  have "sorted_wrt (\<lambda>x y. \<not> lt y x) ys \<Longrightarrow> sorted_wrt (\<lambda>x y. \<not> lt y x) (fold (insert_stable lt) xs ys)" for ys
  proof (induction xs arbitrary: ys)
    case (Cons x xs)
    have "sorted_wrt (\<lambda>x y. \<not> lt y x) (insert_stable lt x ys)"
      by (rule sorted_insert_stable [OF Cons.prems]) (fact assms)+
    then show ?case using Cons.IH by simp
  qed simp
  then show ?thesis by (simp add: slice_stable_def)
qed

lemma sorted_reorder: "sorted_wrt (\<lambda>x y. \<not> reorder_less y x) (slice_stable reorder_less es)"
  by (rule sorted_slice_stable) (auto simp: reorder_less_def split: if_splits)

lemma Drain_mset:
  assumes "Network_Drain n = (n', es)"
  shows "mset (n_queue n') + mset es = mset (n_queue n)"
  using assms by (auto simp: Network_Drain_def drain_loop_filter ac_simps)

lemma Drain_set:
  assumes "Network_Drain n = (n', es)"
  shows "set (n_queue n') \<union> set es = set (n_queue n)"
  using Drain_mset [OF assms] by (metis set_mset_mset set_mset_union)

text \<open>All packets of a link are held back or all are handed out, so the order on a link is kept.\<close>

lemma filter_weaker: "(\<And>e. P e \<Longrightarrow> Q e) \<Longrightarrow> filter P (filter Q es) = filter P es"
  by (induction es) auto

lemma filter_apart: "(\<And>e. P e \<Longrightarrow> \<not> Q e) \<Longrightarrow> filter P (filter Q es) = []"
  by (induction es) auto

lemma Drain_link:
  assumes "Network_Drain n = (n', es)" "\<not> n_reorder n"
  shows "filter (on_link a b) es @ filter (on_link a b) (n_queue n') = filter (on_link a b) (n_queue n)"
proof -
  let ?held = "\<lambda>e. isDown n (env_To e) \<or> isCut n (env_From e) (env_To e)"
  have es: "es = filter (\<lambda>e. \<not> ?held e) (n_queue n)" "n_queue n' = filter ?held (n_queue n)"
    using assms by (auto simp: Network_Drain_def drain_loop_filter)
  show ?thesis
  proof (cases "isDown n b \<or> isCut n a b")
    case True
    then have "filter (on_link a b) es = []" "filter (on_link a b) (n_queue n') = filter (on_link a b) (n_queue n)"
      unfolding es by (intro filter_apart filter_weaker; auto simp: on_link_def)+
    then show ?thesis by simp
  next
    case False
    then have "filter (on_link a b) (n_queue n') = []" "filter (on_link a b) es = filter (on_link a b) (n_queue n)"
      unfolding es by (intro filter_apart filter_weaker; auto simp: on_link_def)+
    then show ?thesis by simp
  qed
qed

section \<open>Steps and runs\<close>

lemma Send_appends: "\<exists>copies. n_queue (fst (Network_Send e n)) = n_queue n @ copies"
proof (cases "Network_Send e n")
  case (Pair n' r)
  then show ?thesis using Send_error_keeps_queue Send_ok by (cases r) fastforce+
qed

lemma reorder_Send [simp]: "n_reorder (fst (Network_Send e n)) = n_reorder n"
  by (auto simp: Network_Send_def Let_def)

lemma net_step_conserves:
  assumes "net_step op n = (n', accepted, delivered)"
  shows "mset delivered + mset (n_queue n') = mset (n_queue n) + mset accepted"
proof (cases op)
  case (NetSend e)
  then show ?thesis using assms Send_appends [of e n] by (auto simp: Let_def)
next
  case NetDrain
  then show ?thesis using assms Drain_mset [of n n' delivered] by (auto simp: ac_simps split: prod.splits)
qed (use assms in \<open>auto simp: frame_simps\<close>)

lemma net_step_fifo:
  assumes "net_step op n = (n', accepted, delivered)" "\<not> n_reorder n" "op \<noteq> NetSetReorder True"
  shows "\<not> n_reorder n' \<and> filter (on_link a b) delivered @ filter (on_link a b) (n_queue n') =
    filter (on_link a b) (n_queue n) @ filter (on_link a b) accepted"
proof (cases op)
  case (NetSend e)
  then show ?thesis using assms Send_appends [of e n] by (auto simp: Let_def)
next
  case NetDrain
  then show ?thesis
    using assms Drain_link [of n n' delivered a b] by (auto simp: Network_Drain_def split: prod.splits)
qed (use assms in \<open>auto simp: frame_simps Network_Partition_def Network_Heal_def Network_HealAll_def
      Network_SetDropPercent_def Network_SetDuplicateEvery_def Network_SetReorder_def
      Network_DropNext_def Network_DuplicateNext_def Network_LoseResponse_def Network_Crash_def
      Network_Restart_def Network_ClockSkew_def split: if_splits\<close>)

lemma net_run_conserves:
  "net_run ops n = (n', accepted, delivered) \<Longrightarrow>
   mset delivered + mset (n_queue n') = mset (n_queue n) + mset accepted"
proof (induction ops arbitrary: n n' accepted delivered)
  case (Cons op ops)
  obtain n1 a d a' d' where run: "net_step op n = (n1, a, d)" "net_run ops n1 = (n', a', d')"
      "accepted = a @ a'" "delivered = d @ d'"
    using Cons.prems by (auto simp: Let_def split: prod.splits)
  then have "mset delivered + mset (n_queue n') = mset d + (mset (n_queue n1) + mset a')"
    using Cons.IH [OF run(2)] by (simp add: add.assoc)
  also have "\<dots> = mset (n_queue n) + mset a + mset a'"
    using net_step_conserves [OF run(1)] by (simp flip: add.assoc)
  finally show ?case using run(3) by (simp add: add.assoc)
qed simp

lemma net_run_fifo:
  "net_run ops n = (n', accepted, delivered) \<Longrightarrow> \<not> n_reorder n \<Longrightarrow> NetSetReorder True \<notin> set ops \<Longrightarrow>
   filter (on_link a b) delivered @ filter (on_link a b) (n_queue n') =
     filter (on_link a b) (n_queue n) @ filter (on_link a b) accepted"
proof (induction ops arbitrary: n n' accepted delivered)
  case (Cons op ops)
  obtain n1 x d x' d' where run: "net_step op n = (n1, x, d)" "net_run ops n1 = (n', x', d')"
      "accepted = x @ x'" "delivered = d @ d'"
    using Cons.prems(1) by (auto simp: Let_def split: prod.splits)
  have "\<not> n_reorder n1" "filter (on_link a b) d @ filter (on_link a b) (n_queue n1) =
      filter (on_link a b) (n_queue n) @ filter (on_link a b) x"
    using net_step_fifo [OF run(1)] Cons.prems(2,3) by auto
  moreover from this(1) have "filter (on_link a b) d' @ filter (on_link a b) (n_queue n') =
      filter (on_link a b) (n_queue n1) @ filter (on_link a b) x'"
    using Cons.IH [OF run(2)] Cons.prems(3) by simp
  ultimately show ?case using run(3,4) by (metis append_assoc filter_append)
qed simp

lemma deliveries_same:
  "list_all (\<lambda>c. c\<lparr>env_Sequence := 0, env_Delivery := 0\<rparr> = e\<lparr>env_Sequence := 0, env_Delivery := 0\<rparr>)
     (deliveries (e\<lparr>env_Sequence := s\<rparr>) extra)"
  by (auto simp: deliveries_def list_all_iff)

section \<open>Properties\<close>

text \<open>
  C20: \<^verbatim>\<open>Send\<close> never loses a packet silently. When it returns an error the queue is unchanged; when it
  returns nil, at least one copy of the envelope is appended, and the copies agree with the envelope
  in everything but the sequence and delivery numbers.
\<close>
theorem send_no_silent_loss:
  "case Network_Send e n of
     (n', Some err) \<Rightarrow> n_queue n' = n_queue n
   | (n', None) \<Rightarrow> (\<exists>copies. n_queue n' = n_queue n @ copies \<and> copies \<noteq> []
       \<and> list_all (\<lambda>c. c\<lparr>env_Sequence := 0, env_Delivery := 0\<rparr> = e\<lparr>env_Sequence := 0, env_Delivery := 0\<rparr>) copies)"
proof (cases "Network_Send e n")
  case (Pair n' r)
  show ?thesis
  proof (cases r)
    case None
    then obtain extra where "n_queue n' = n_queue n @ deliveries (e\<lparr>env_Sequence := n_sequence n + 1\<rparr>) extra"
      using Send_ok Pair by blast
    with Pair None deliveries_same [of e "n_sequence n + 1" extra] show ?thesis
      by (auto simp: deliveries_def)
  qed (use Pair Send_error_keeps_queue in auto)
qed

text \<open>
  C21: The network delivers every accepted packet once and keeps the order of a link. In every run of a new network, under any faults,
  the packets handed out by \<^verbatim>\<open>Drain\<close> and those still queued are together, with multiplicity, the packets \<^verbatim>\<open>Send\<close> accepted; unless
  reordering was switched on, the packets of a directed link are handed out in the order in which they were accepted. In the
  state reached, a \<^verbatim>\<open>Drain\<close> hands out no packet to a node that is down or over a cut link and holds back no other; with
  reordering on, it hands them out by decreasing sequence number, and among equal ones by decreasing delivery number.
\<close>
theorem network_delivers_in_order:
  "case net_run ops (NewNetwork seed) of (n, accepted, delivered) \<Rightarrow>
     mset delivered + mset (n_queue n) = mset accepted \<and>
     (NetSetReorder True \<in> set ops \<or>
        filter (on_link a b) delivered @ filter (on_link a b) (n_queue n) = filter (on_link a b) accepted) \<and>
     (case Network_Drain n of (n', es) \<Rightarrow>
        list_all (\<lambda>e. dget (n_down n) (env_To e) \<noteq> Some True \<and>
                      dget (n_partitions n) (canonicalLink (env_From e) (env_To e)) \<noteq> Some True) es \<and>
        list_all (\<lambda>e. dget (n_down n) (env_To e) = Some True \<or>
                      dget (n_partitions n) (canonicalLink (env_From e) (env_To e)) = Some True) (n_queue n') \<and>
        (if n_reorder n
         then sorted_wrt (\<lambda>x y. env_Sequence y < env_Sequence x \<or>
                env_Sequence y = env_Sequence x \<and> env_Delivery y \<le> env_Delivery x) es
         else es = filter (\<lambda>e. e \<in> set es) (n_queue n)))"
proof -
  obtain n accepted delivered where run: "net_run ops (NewNetwork seed) = (n, accepted, delivered)"
    by (cases "net_run ops (NewNetwork seed)") auto
  obtain n' es where drain: "Network_Drain n = (n', es)" by fastforce
  have flag: "dget_or False m k \<longleftrightarrow> dget m k = Some True" for m :: "('k, bool) dict" and k
    by (auto simp: dget_or_def split: option.split)
  have order: "\<not> reorder_less y x \<Longrightarrow> env_Sequence y < env_Sequence x \<or>
      env_Sequence y = env_Sequence x \<and> env_Delivery y \<le> env_Delivery x" for x y
    by (auto simp: reorder_less_def not_less le_less split: if_splits)
  have "if n_reorder n
     then sorted_wrt (\<lambda>x y. env_Sequence y < env_Sequence x \<or>
            env_Sequence y = env_Sequence x \<and> env_Delivery y \<le> env_Delivery x) es
     else es = filter (\<lambda>e. e \<in> set es) (n_queue n)"
    using drain sorted_wrt_mono_rel [OF order sorted_reorder]
    by (auto simp: Network_Drain_def drain_loop_filter intro!: filter_cong)
  moreover have "NetSetReorder True \<in> set ops \<or>
      filter (on_link a b) delivered @ filter (on_link a b) (n_queue n) = filter (on_link a b) accepted"
    using net_run_fifo [OF run, of a b] by (auto simp: NewNetwork_def)
  moreover have "mset delivered + mset (n_queue n) = mset accepted"
    using net_run_conserves [OF run] by (simp add: NewNetwork_def)
  ultimately show ?thesis
    using drain by (auto simp: run Network_Drain_def drain_loop_filter list_all_iff isDown_def isCut_def flag)
qed

end
