(* ===== verification/Cluster.thy ===== *)
theory Cluster
  imports Network
begin

text \<open>
  The fenced cluster of \<^verbatim>\<open>internal/simulation/cluster.go\<close>. A \<^verbatim>\<open>Handler\<close> is code of the caller: a function of
  the envelope and of a state \<open>'s\<close> of the caller's that returns the new state and an error or nil. A
  handler that calls back into the cluster is not covered.

  \<open>cluster_step\<close> is the transition relation of the cluster; the lemmas show that a fence issued before a
  restart stays stale.
\<close>

section \<open>State and operations\<close>

record Fence =
  f_Region :: string
  f_Epoch :: uint64

type_synonym 's Handler = "Envelope \<Rightarrow> 's \<Rightarrow> 's \<times> sim_error option"

record 's regionNode =
  rn_epoch :: uint64
  rn_running :: bool
  rn_handler :: "'s Handler option"

record 's Cluster =
  c_network :: Network
  c_nodes :: "(string, 's regionNode) dict"

fun addNodes :: "string list \<Rightarrow> (string, 's regionNode) dict \<Rightarrow> sim_error + (string, 's regionNode) dict" where
  "addNodes [] nodes = Inr nodes"
| "addNodes (region # regions) nodes =
     (if region = [] then Inl (ErrSimOther ''simulation: empty region'')
      else if dget nodes region \<noteq> None then Inl (ErrSimOther ''simulation: duplicate region'')
      else addNodes regions (dset region \<lparr>rn_epoch = 1, rn_running = True, rn_handler = None\<rparr> nodes))"

text \<open>A nil network is \<open>None\<close>.\<close>

definition NewCluster :: "Network option \<Rightarrow> string list \<Rightarrow> sim_error + 's Cluster" where
  "NewCluster network regions =
     (case network of
        None \<Rightarrow> Inl (ErrSimOther ''simulation: invalid cluster'')
      | Some net \<Rightarrow>
          if regions = [] then Inl (ErrSimOther ''simulation: invalid cluster'')
          else (case addNodes regions dempty of
              Inl e \<Rightarrow> Inl e
            | Inr nodes \<Rightarrow> Inr \<lparr>c_network = net, c_nodes = nodes\<rparr>))"

definition Cluster_Register ::
  "string \<Rightarrow> 's Handler option \<Rightarrow> 's Cluster \<Rightarrow> 's Cluster \<times> sim_error option" where
  "Cluster_Register region handler c =
     (case (dget (c_nodes c) region, handler) of
        (Some node, Some h) \<Rightarrow> (c\<lparr>c_nodes := dset region (node\<lparr>rn_handler := Some h\<rparr>) (c_nodes c)\<rparr>, None)
      | _ \<Rightarrow> (c, Some (ErrSimOther ''simulation: unknown region or nil handler'')))"

definition Cluster_Fence :: "string \<Rightarrow> 's Cluster \<Rightarrow> sim_error + Fence" where
  "Cluster_Fence region c =
     (case dget (c_nodes c) region of
        None \<Rightarrow> Inl ErrNodeDown
      | Some node \<Rightarrow> if \<not> rn_running node then Inl ErrNodeDown
                     else Inr \<lparr>f_Region = region, f_Epoch = rn_epoch node\<rparr>)"

definition Cluster_Valid :: "Fence \<Rightarrow> 's Cluster \<Rightarrow> bool" where
  "Cluster_Valid fence c =
     (case dget (c_nodes c) (f_Region fence) of
        None \<Rightarrow> False
      | Some node \<Rightarrow> rn_running node \<and> rn_epoch node = f_Epoch fence)"

definition Cluster_Crash :: "string \<Rightarrow> 's Cluster \<Rightarrow> 's Cluster \<times> sim_error option" where
  "Cluster_Crash region c =
     (case dget (c_nodes c) region of
        None \<Rightarrow> (c, Some (ErrSimOther ''simulation: unknown region''))
      | Some node \<Rightarrow> (c\<lparr>c_nodes := dset region (node\<lparr>rn_running := False\<rparr>) (c_nodes c),
                        c_network := Network_Crash region (c_network c)\<rparr>, None))"

definition Cluster_Restart :: "string \<Rightarrow> 's Cluster \<Rightarrow> 's Cluster \<times> sim_error option" where
  "Cluster_Restart region c =
     (case dget (c_nodes c) region of
        None \<Rightarrow> (c, Some (ErrSimOther ''simulation: unknown region''))
      | Some node \<Rightarrow>
          (c\<lparr>c_nodes := dset region (node\<lparr>rn_epoch := rn_epoch node + 1, rn_running := True\<rparr>) (c_nodes c),
             c_network := Network_Restart region (c_network c)\<rparr>, None))"

definition Cluster_Partition :: "string \<Rightarrow> string \<Rightarrow> 's Cluster \<Rightarrow> 's Cluster" where
  "Cluster_Partition a b c = c\<lparr>c_network := Network_Partition a b (c_network c)\<rparr>"

definition Cluster_Heal :: "string \<Rightarrow> string \<Rightarrow> 's Cluster \<Rightarrow> 's Cluster" where
  "Cluster_Heal a b c = c\<lparr>c_network := Network_Heal a b (c_network c)\<rparr>"

definition Cluster_Send :: "Fence \<Rightarrow> Envelope \<Rightarrow> 's Cluster \<Rightarrow> 's Cluster \<times> sim_error option" where
  "Cluster_Send fence envelope c =
     (if \<not> Cluster_Valid fence c \<or> f_Region fence \<noteq> env_From envelope then (c, Some ErrStaleFence)
      else let (net, err) = Network_Send envelope (c_network c) in (c\<lparr>c_network := net\<rparr>, err))"

fun deliverAll ::
  "(string, 's regionNode) dict \<Rightarrow> Envelope list \<Rightarrow> 's \<Rightarrow> 's \<times> sim_error list" where
  "deliverAll nodes [] s = (s, [])"
| "deliverAll nodes (e # es) s =
     (case dget nodes (env_To e) of
        None \<Rightarrow> (let (s', fs) = deliverAll nodes es s in (s', ErrNodeDown # fs))
      | Some node \<Rightarrow>
          if \<not> rn_running node then (let (s', fs) = deliverAll nodes es s in (s', ErrNodeDown # fs))
          else (case rn_handler node of
              None \<Rightarrow> (let (s', fs) = deliverAll nodes es s
                       in (s', ErrSimOther ''simulation: no handler'' # fs))
            | Some h \<Rightarrow>
                (let (s1, err) = h e s; (s', fs) = deliverAll nodes es s1
                 in (s', case err of None \<Rightarrow> fs | Some x \<Rightarrow> x # fs))))"

definition Cluster_Deliver :: "'s \<Rightarrow> 's Cluster \<Rightarrow> 's Cluster \<times> 's \<times> sim_error list" where
  "Cluster_Deliver s c =
     (let (net, envelopes) = Network_Drain (c_network c);
          (s', failures) = deliverAll (c_nodes c) envelopes s
      in (c\<lparr>c_network := net\<rparr>, s', failures))"

definition Cluster_Regions :: "'s Cluster \<Rightarrow> string list" where
  "Cluster_Regions c = sort (map fst (entries (c_nodes c)))"

section \<open>Transition relation\<close>

inductive cluster_step :: "'s Cluster \<Rightarrow> 's Cluster \<Rightarrow> bool" where
  step_register: "cluster_step c (fst (Cluster_Register region handler c))"
| step_crash: "cluster_step c (fst (Cluster_Crash region c))"
| step_restart: "cluster_step c (fst (Cluster_Restart region c))"
| step_partition: "cluster_step c (Cluster_Partition a b c)"
| step_heal: "cluster_step c (Cluster_Heal a b c)"
| step_send: "cluster_step c (fst (Cluster_Send fence envelope c))"
| step_deliver: "cluster_step c (fst (Cluster_Deliver s c))"

inductive cluster_steps :: "nat \<Rightarrow> 's Cluster \<Rightarrow> 's Cluster \<Rightarrow> bool" where
  steps_refl: "cluster_steps 0 c c"
| steps_next: "cluster_steps k c d \<Longrightarrow> cluster_step d e \<Longrightarrow> cluster_steps (Suc k) c e"

inductive_cases cluster_stepE: "cluster_step c d"

section \<open>Lemmas\<close>

lemma addNodes_Inr:
  "addNodes rs m = Inr m' \<Longrightarrow>
   distinct rs \<and> [] \<notin> set rs \<and> (\<forall>r \<in> set rs. dget m r = None)
   \<and> (\<forall>r. dget m' r = (if r \<in> set rs then Some \<lparr>rn_epoch = 1, rn_running = True, rn_handler = None\<rparr> else dget m r))"
proof (induction rs m rule: addNodes.induct)
  case (2 r rs m)
  let ?m = "dset r \<lparr>rn_epoch = 1, rn_running = True, rn_handler = None\<rparr> m"
  have "addNodes rs ?m = Inr m'" "r \<noteq> []" "dget m r = None" using "2.prems" by (auto split: if_splits)
  with "2.IH" have IH: "distinct rs \<and> [] \<notin> set rs \<and> (\<forall>q \<in> set rs. dget ?m q = None)
      \<and> (\<forall>q. dget m' q = (if q \<in> set rs then Some \<lparr>rn_epoch = 1, rn_running = True, rn_handler = None\<rparr> else dget ?m q))"
    by blast
  then have "r \<notin> set rs" by (auto simp: DAList.lookup_update)
  with IH \<open>r \<noteq> []\<close> \<open>dget m r = None\<close> show ?case by (auto simp: DAList.lookup_update split: if_splits)
qed simp

text \<open>A step keeps the epoch of every region, or increments it.\<close>

lemma cluster_step_epoch:
  assumes "cluster_step c d" and "dget (c_nodes c) r = Some node"
  shows "\<exists>node'. dget (c_nodes d) r = Some node'
    \<and> (rn_epoch node' = rn_epoch node \<and> (rn_running node' \<longrightarrow> rn_running node) \<or> rn_epoch node' = rn_epoch node + 1)"
  using assms
  by (cases rule: cluster_stepE)
     (auto simp: Cluster_Register_def Cluster_Crash_def Cluster_Restart_def Cluster_Partition_def
       Cluster_Heal_def Cluster_Send_def Cluster_Deliver_def DAList.lookup_update Let_def
       split: option.splits prod.splits if_splits)

lemma unat_epoch_step:
  fixes e e' e0 :: uint64
  assumes "a \<le> unat (e - e0)" "unat (e - e0) \<le> k" "e' = e \<or> e' = e + 1" "Suc k < 2 ^ 64"
  shows "a \<le> unat (e' - e0) \<and> unat (e' - e0) \<le> Suc k"
proof -
  have "unat (e - e0 + 1) = Suc (unat (e - e0))"
    using assms by (intro unat_succ) simp
  then have "unat (e + 1 - e0) = Suc (unat (e - e0))" by (simp add: algebra_simps)
  with assms(1-3) show ?thesis by auto
qed

text \<open>
  The distance of a region's epoch to a reference epoch never shrinks, and grows by at most one in a step, as long as the steps
  are too few for the counter to come round.
\<close>

lemma cluster_steps_epoch:
  assumes "cluster_steps k c d" and "dget (c_nodes c) r = Some node"
    and "unat (rn_epoch node - e0) \<le> b" "b + k < 2 ^ 64"
  shows "\<exists>node'. dget (c_nodes d) r = Some node'
    \<and> unat (rn_epoch node - e0) \<le> unat (rn_epoch node' - e0) \<and> unat (rn_epoch node' - e0) \<le> b + k"
  using assms
proof (induction rule: cluster_steps.induct)
  case (steps_next k c d e)
  obtain n1 where n1: "dget (c_nodes d) r = Some n1" "unat (rn_epoch node - e0) \<le> unat (rn_epoch n1 - e0)"
      "unat (rn_epoch n1 - e0) \<le> b + k"
    using steps_next by auto
  obtain n2 where "dget (c_nodes e) r = Some n2" "rn_epoch n2 = rn_epoch n1 \<or> rn_epoch n2 = rn_epoch n1 + 1"
    using cluster_step_epoch [OF steps_next.hyps(2) n1(1)] by blast
  with unat_epoch_step [OF n1(2,3) this(2)] steps_next.prems show ?case by simp
qed simp

lemma Cluster_Restart_epoch:
  assumes "Cluster_Restart r c = (d, None)" "dget (c_nodes c) r = Some node"
  shows "dget (c_nodes d) r = Some (node\<lparr>rn_epoch := rn_epoch node + 1, rn_running := True\<rparr>)"
  using assms by (auto simp: Cluster_Restart_def DAList.lookup_update)

section \<open>Properties\<close>

text \<open>
  C22: Fencing is permanent. Take a fence issued for a region, any operations of the cluster after that (a crash of the region
  among them, or none), a restart of the region, and again any operations: the fence is invalid, and every \<^verbatim>\<open>Send\<close> under it is
  refused with \<^verbatim>\<open>ErrStaleFence\<close> and leaves the cluster alone. The bound on the number of operations keeps the 64-bit epoch
  from coming round. A fence is also invalid as soon as its region has crashed.
\<close>
theorem stale_fence_never_valid:
  assumes "Cluster_Fence r c = Inr fence" and "cluster_steps j c c1"
    and "Cluster_Restart r c1 = (d, None)" and "cluster_steps k d e" and "j + k < 2 ^ 64 - 1"
  shows "\<not> Cluster_Valid fence e \<and> Cluster_Send fence envelope e = (e, Some ErrStaleFence) \<and>
    \<not> Cluster_Valid fence (fst (Cluster_Crash r c1))"
proof -
  obtain node where node: "dget (c_nodes c) r = Some node"
      "fence = \<lparr>f_Region = r, f_Epoch = rn_epoch node\<rparr>"
    using assms(1) by (auto simp: Cluster_Fence_def split: option.splits if_splits)
  obtain n1 where n1: "dget (c_nodes c1) r = Some n1" "unat (rn_epoch n1 - rn_epoch node) \<le> j"
    using cluster_steps_epoch [OF assms(2) node(1), of "rn_epoch node" 0] assms(5) by auto
  let ?n2 = "n1\<lparr>rn_epoch := rn_epoch n1 + 1, rn_running := True\<rparr>"
  have "unat (rn_epoch n1 - rn_epoch node + 1) = Suc (unat (rn_epoch n1 - rn_epoch node))"
    using n1(2) assms(5) by (intro unat_succ) simp
  then have n2: "unat (rn_epoch ?n2 - rn_epoch node) = Suc (unat (rn_epoch n1 - rn_epoch node))"
    by (simp add: algebra_simps)
  obtain node' where "dget (c_nodes e) r = Some node'" "0 < unat (rn_epoch node' - rn_epoch node)"
    using cluster_steps_epoch [OF assms(4) Cluster_Restart_epoch [OF assms(3) n1(1)], of "rn_epoch node" "Suc j"]
      n1(2) n2 assms(5) by auto
  then have "\<not> Cluster_Valid fence e" by (auto simp: Cluster_Valid_def node(2))
  moreover have "\<not> Cluster_Valid fence (fst (Cluster_Crash r c1))"
    using n1(1) by (simp add: Cluster_Valid_def Cluster_Crash_def node(2) DAList.lookup_update)
  ultimately show ?thesis by (simp add: Cluster_Send_def)
qed

definition example_cluster :: "unit Cluster" where
  "example_cluster = (case NewCluster (Some (NewNetwork 7)) [''A'', ''B''] of Inr c \<Rightarrow> c | Inl e \<Rightarrow>
     \<lparr>c_network = NewNetwork 7, c_nodes = dempty\<rparr>)"

definition example_crashed :: "unit Cluster" where
  "example_crashed = fst (Cluster_Crash ''A'' example_cluster)"

text \<open>The region crashes after the fence was issued, comes back and is up again: its old fence is stale, a new one is not.\<close>

theorem stale_fence_never_valid_witness:
  "Cluster_Fence ''A'' example_cluster = Inr \<lparr>f_Region = ''A'', f_Epoch = 1\<rparr>
   \<and> \<not> Cluster_Valid \<lparr>f_Region = ''A'', f_Epoch = 1\<rparr> (fst (Cluster_Restart ''A'' example_crashed))
   \<and> Cluster_Valid \<lparr>f_Region = ''A'', f_Epoch = 2\<rparr> (fst (Cluster_Restart ''A'' example_crashed))"
proof -
  have f: "Cluster_Fence ''A'' example_cluster = Inr \<lparr>f_Region = ''A'', f_Epoch = 1\<rparr>" by code_simp
  have s: "cluster_steps (Suc 0) example_cluster example_crashed"
    unfolding example_crashed_def by (intro steps_next [OF steps_refl] step_crash)
  have r: "Cluster_Restart ''A'' example_crashed = (fst (Cluster_Restart ''A'' example_crashed), None)"
    by (simp add: prod_eq_iff) code_simp
  have "Cluster_Valid \<lparr>f_Region = ''A'', f_Epoch = 2\<rparr> (fst (Cluster_Restart ''A'' example_crashed))" by code_simp
  with stale_fence_never_valid [OF f s r steps_refl] f show ?thesis by simp
qed

end
