(* ===== verification/Ledger_Amount.thy ===== *)
theory Ledger_Amount
  imports Prelude
begin

text \<open>
  The monetary type of \<^verbatim>\<open>internal/ledger/types.go\<close>: exact integers of at most 38 decimal digits, their
  checked arithmetic, their text form and the parser of that form.

  \<^verbatim>\<open>Amount\<close> wraps a \<^verbatim>\<open>*big.Int\<close> that no method mutates, so an amount is an \<open>int\<close>; the nil pointer of the
  zero value reads as 0, as \<^verbatim>\<open>value()\<close> makes it. Every constructor of the package checks
  \<open>fitsDecimal38\<close> or starts from a 64-bit integer.
\<close>

type_synonym amount = int

datatype ledger_error =
    ErrInvalidPosting string
  | ErrUnbalanced string
  | ErrAmountOverflow
  | ErrLedgerEffectConflict
  | ErrTransactionNotFound
  | ErrAccountNotFound
  | ErrLedgerInsufficientFunds
  | ErrCrossBook
  | ErrAssetMismatch
  | ErrLedgerOther string

section \<open>Definitions\<close>

definition MaxAtomicDigits :: nat where
  "MaxAtomicDigits = 38"

definition fitsDecimal38 :: "amount \<Rightarrow> bool" where
  "fitsDecimal38 v \<longleftrightarrow> length (show_int \<bar>v\<bar>) \<le> MaxAtomicDigits"

definition NewAmountInt64 :: "64 word \<Rightarrow> amount" where
  "NewAmountInt64 v = sint v"

text \<open>
  \<^verbatim>\<open>strings.TrimSpace\<close> leaves its argument alone exactly when it neither starts nor ends with the UTF-8
  encoding of a Unicode white space character.
\<close>

definition space_runes :: "bytes list" where
  "space_runes =
     [[CHR 0x09], [CHR 0x0A], [CHR 0x0B], [CHR 0x0C], [CHR 0x0D], [CHR 0x20],
      [CHR 0xC2, CHR 0x85], [CHR 0xC2, CHR 0xA0], [CHR 0xE1, CHR 0x9A, CHR 0x80],
      [CHR 0xE2, CHR 0x80, CHR 0x80], [CHR 0xE2, CHR 0x80, CHR 0x81], [CHR 0xE2, CHR 0x80, CHR 0x82],
      [CHR 0xE2, CHR 0x80, CHR 0x83], [CHR 0xE2, CHR 0x80, CHR 0x84], [CHR 0xE2, CHR 0x80, CHR 0x85],
      [CHR 0xE2, CHR 0x80, CHR 0x86], [CHR 0xE2, CHR 0x80, CHR 0x87], [CHR 0xE2, CHR 0x80, CHR 0x88],
      [CHR 0xE2, CHR 0x80, CHR 0x89], [CHR 0xE2, CHR 0x80, CHR 0x8A], [CHR 0xE2, CHR 0x80, CHR 0xA8],
      [CHR 0xE2, CHR 0x80, CHR 0xA9], [CHR 0xE2, CHR 0x80, CHR 0xAF], [CHR 0xE2, CHR 0x81, CHR 0x9F],
      [CHR 0xE3, CHR 0x80, CHR 0x80]]"

definition trimmed :: "string \<Rightarrow> bool" where
  "trimmed s \<longleftrightarrow>
     (\<forall>r \<in> set space_runes. take (length r) s \<noteq> r \<and> take (length r) (rev s) \<noteq> rev r)"

definition is_digit :: "char \<Rightarrow> bool" where
  "is_digit c \<longleftrightarrow> 48 \<le> (of_char c :: nat) \<and> (of_char c :: nat) \<le> 57"

text \<open>\<^verbatim>\<open>big.Int.SetString(value, 10)\<close>: an optional sign and at least one digit.\<close>

definition set_string10 :: "string \<Rightarrow> int option" where
  "set_string10 s =
     (let neg = (s \<noteq> [] \<and> hd s = CHR ''-'');
          body = (if s \<noteq> [] \<and> (hd s = CHR ''-'' \<or> hd s = CHR ''+'') then tl s else s)
      in if body = [] \<or> \<not> list_all is_digit body then None
         else Some ((if neg then -1 else 1) * int (dec_value body 0)))"

definition ParseAmount :: "string \<Rightarrow> ledger_error + amount" where
  "ParseAmount v =
     (if v = [] \<or> \<not> trimmed v \<or> (\<exists>c \<in> set v. c \<in> set ''.eE+'')
      then Inl (ErrInvalidPosting ''amount must be a base-10 integer'')
      else case set_string10 v of
        None \<Rightarrow> Inl ErrAmountOverflow
      | Some parsed \<Rightarrow> if fitsDecimal38 parsed then Inr parsed else Inl ErrAmountOverflow)"

text \<open>\<^verbatim>\<open>MustAmount\<close> panics on an error; the panic is \<open>None\<close>.\<close>

definition MustAmount :: "string \<Rightarrow> amount option" where
  "MustAmount v = (case ParseAmount v of Inl e \<Rightarrow> None | Inr a \<Rightarrow> Some a)"

definition Amount_String :: "amount \<Rightarrow> string" where
  "Amount_String a = show_int a"

definition Amount_Sign :: "amount \<Rightarrow> int" where
  "Amount_Sign a = (if a < 0 then -1 else if a = 0 then 0 else 1)"

definition Amount_IsZero :: "amount \<Rightarrow> bool" where
  "Amount_IsZero a \<longleftrightarrow> Amount_Sign a = 0"

definition Amount_Cmp :: "amount \<Rightarrow> amount \<Rightarrow> int" where
  "Amount_Cmp a b = (if a < b then -1 else if a = b then 0 else 1)"

definition Amount_Add :: "amount \<Rightarrow> amount \<Rightarrow> ledger_error + amount" where
  "Amount_Add a b = (if \<not> fitsDecimal38 (a + b) then Inl ErrAmountOverflow else Inr (a + b))"

definition Amount_Sub :: "amount \<Rightarrow> amount \<Rightarrow> ledger_error + amount" where
  "Amount_Sub a b = (if \<not> fitsDecimal38 (a - b) then Inl ErrAmountOverflow else Inr (a - b))"

definition Amount_Negate :: "amount \<Rightarrow> amount" where
  "Amount_Negate a = - a"

section \<open>Lemmas\<close>

lemma fitsDecimal38_iff: "fitsDecimal38 v \<longleftrightarrow> \<bar>v\<bar> < 10 ^ 38"
proof -
  have "length (show_int \<bar>v\<bar>) \<le> 38 \<longleftrightarrow> nat \<bar>v\<bar> < 10 ^ 38"
    by (simp add: show_int_def length_dec_digits del: power_numeral)
  also have "\<dots> \<longleftrightarrow> \<bar>v\<bar> < 10 ^ 38"
    by (simp add: nat_less_iff)
  finally show ?thesis by (simp add: fitsDecimal38_def MaxAtomicDigits_def)
qed

lemma fits_0 [simp]: "fitsDecimal38 0"
  by (simp add: fitsDecimal38_iff)

lemma fits_mono: "fitsDecimal38 b \<Longrightarrow> \<bar>a\<bar> \<le> \<bar>b\<bar> \<Longrightarrow> fitsDecimal38 a"
  by (simp add: fitsDecimal38_iff)

lemma Amount_Sign_simps [simp]:
  "Amount_Sign a \<le> 0 \<longleftrightarrow> a \<le> 0"
  "Amount_Sign a < 0 \<longleftrightarrow> a < 0"
  "0 < Amount_Sign a \<longleftrightarrow> 0 < a"
  "Amount_Sign a = 0 \<longleftrightarrow> a = 0"
  by (auto simp: Amount_Sign_def)

lemma Amount_IsZero_iff [simp]: "Amount_IsZero a \<longleftrightarrow> a = 0"
  by (simp add: Amount_IsZero_def)

lemma Amount_Cmp_simps [simp]:
  "Amount_Cmp a b < 0 \<longleftrightarrow> a < b"
  "0 < Amount_Cmp a b \<longleftrightarrow> b < a"
  "Amount_Cmp a b = 0 \<longleftrightarrow> a = b"
  by (auto simp: Amount_Cmp_def)

lemma Amount_Add_Inr: "Amount_Add a b = Inr c \<longleftrightarrow> c = a + b \<and> fitsDecimal38 c"
  by (auto simp: Amount_Add_def)

lemma Amount_Sub_Inr: "Amount_Sub a b = Inr c \<longleftrightarrow> c = a - b \<and> fitsDecimal38 c"
  by (auto simp: Amount_Sub_def)

lemma Amount_Add_fits [simp]: "fitsDecimal38 (a + b) \<Longrightarrow> Amount_Add a b = Inr (a + b)"
  by (simp add: Amount_Add_def)

lemma Amount_Sub_fits [simp]: "fitsDecimal38 (a - b) \<Longrightarrow> Amount_Sub a b = Inr (a - b)"
  by (simp add: Amount_Sub_def)

lemma digits_are_digits: "list_all is_digit (dec_digits n)"
proof -
  have "is_digit c" if c: "c \<in> set (dec_digits n)" for c
  proof -
    obtain d :: nat where "d < 10" "c = char_of (48 + d)"
      using dec_digits_set [OF c] by blast
    then show ?thesis by (simp add: is_digit_def)
  qed
  then show ?thesis by (simp add: list_all_iff)
qed

lemma digits_hd: "is_digit (hd (dec_digits n))"
  using digits_are_digits [of n] by (metis dec_digits_nonempty hd_in_set list_all_iff)

lemma digit_not_special:
  "is_digit c \<Longrightarrow> c \<noteq> CHR ''-'' \<and> c \<noteq> CHR ''+'' \<and> c \<noteq> CHR ''.'' \<and> c \<noteq> CHR ''e'' \<and> c \<noteq> CHR ''E''"
  by (auto simp: is_digit_def)

lemma trimmed_if_ends:
  assumes "s \<noteq> []"
    and "is_digit (hd s) \<or> hd s = CHR ''-''" and "is_digit (last s)"
  shows "trimmed s"
proof -
  obtain a t where s: "s = a # t" using assms(1) by (cases s) auto
  obtain b u where r: "rev s = b # u" using assms(1) by (cases "rev s") auto
  then have b: "b = last s" by (metis hd_rev list.sel(1))
  have A: "45 \<le> (of_char a :: nat) \<and> (of_char a :: nat) \<le> 57"
    using assms(2) s by (auto simp: is_digit_def)
  have B: "48 \<le> (of_char b :: nat) \<and> (of_char b :: nat) \<le> 57"
    using assms(3) b by (auto simp: is_digit_def)
  show ?thesis
    unfolding trimmed_def
  proof
    fix q assume q: "q \<in> set space_runes"
    then have ends: "q \<noteq> []" "a \<noteq> hd q" "b \<noteq> last q"
      using A B unfolding space_runes_def by auto
    have "hd (take (length q) s) = a"
      using \<open>q \<noteq> []\<close> by (simp add: s)
    moreover have "hd (take (length q) (rev s)) = b"
      using \<open>q \<noteq> []\<close> by (simp only: r) simp
    ultimately show "take (length q) s \<noteq> q \<and> take (length q) (rev s) \<noteq> rev q"
      using ends by (metis hd_rev)
  qed
qed

lemma set_string10_show: "set_string10 (show_int a) = Some a"
proof (cases "a < 0")
  case True
  then show ?thesis
    by (simp add: set_string10_def show_int_def digits_are_digits)
next
  case False
  have "hd (dec_digits (nat a)) \<noteq> CHR ''-''" "hd (dec_digits (nat a)) \<noteq> CHR ''+''"
    using digits_hd [of "nat a"] digit_not_special by blast+
  with False show ?thesis
    by (simp add: set_string10_def show_int_def digits_are_digits Let_def)
qed

lemma show_int_nonempty [simp]: "show_int a \<noteq> []"
  by (simp add: show_int_def)

lemma trimmed_show_int: "trimmed (show_int a)"
proof (rule trimmed_if_ends)
  show "show_int a \<noteq> []" by simp
  show "is_digit (hd (show_int a)) \<or> hd (show_int a) = CHR ''-''"
    by (simp add: show_int_def digits_hd)
  have "is_digit (last (dec_digits n))" for n
    using digits_are_digits [of n] by (metis dec_digits_nonempty last_in_set list_all_iff)
  then show "is_digit (last (show_int a))"
    by (simp add: show_int_def)
qed

lemma show_int_no_special: "c \<in> set (show_int a) \<Longrightarrow> c \<notin> set ''.eE+''"
  using digits_are_digits digit_not_special
  by (fastforce simp: show_int_def list_all_iff split: if_splits)

lemma length_Amount_String: "fitsDecimal38 a \<Longrightarrow> length (Amount_String a) \<le> 39"
  by (auto simp: Amount_String_def show_int_def fitsDecimal38_iff length_dec_digits nat_less_iff abs_if
      split: if_splits intro!: le_SucI)

lemma ParseAmount_String: "fitsDecimal38 a \<Longrightarrow> ParseAmount (Amount_String a) = Inr a"
  using show_int_no_special [of _ a]
  by (auto simp: ParseAmount_def Amount_String_def trimmed_show_int set_string10_show)

lemma ParseAmount_fits: "ParseAmount s = Inr a \<Longrightarrow> fitsDecimal38 a"
  by (auto simp: ParseAmount_def split: if_splits option.splits)

section \<open>Properties\<close>

text \<open>
  C25: An amount of at most 38 digits survives printing and parsing: \<^verbatim>\<open>ParseAmount(a.String())\<close>
  returns \<open>a\<close>.
\<close>
theorem amount_text_roundtrip:
  assumes "fitsDecimal38 a"
  shows "ParseAmount (Amount_String a) = Inr a"
  using assms by (rule ParseAmount_String)

theorem amount_text_roundtrip_witness:
  "fitsDecimal38 (- 1205) \<and> Amount_String (- 1205) = ''-1205'' \<and> ParseAmount ''-1205'' = Inr (- 1205)"
proof -
  have f: "fitsDecimal38 (- 1205)" by (simp add: fitsDecimal38_iff)
  moreover have "Amount_String (- 1205) = ''-1205''" by code_simp
  ultimately show ?thesis using amount_text_roundtrip [OF f] by simp
qed

text \<open>
  C26: Checked addition is exact or refused: \<^verbatim>\<open>Add\<close> returns the true sum when it has at most 38 digits
  and \<^verbatim>\<open>ErrAmountOverflow\<close> otherwise, and \<^verbatim>\<open>Sub\<close> undoes an addition that succeeded.
\<close>
theorem amount_checked_arithmetic:
  "Amount_Add a b = (if \<bar>a + b\<bar> < 10 ^ 38 then Inr (a + b) else Inl ErrAmountOverflow)
   \<and> (\<bar>a\<bar> < 10 ^ 38 \<longrightarrow> (case Amount_Add a b of Inl e \<Rightarrow> e = ErrAmountOverflow | Inr c \<Rightarrow> Amount_Sub c b = Inr a))"
  by (auto simp: Amount_Add_def Amount_Sub_def fitsDecimal38_iff)

theorem amount_checked_arithmetic_witness:
  "Amount_Add (10 ^ 38 - 1) 1 = Inl ErrAmountOverflow \<and> Amount_Add 40 2 = Inr 42 \<and> Amount_Sub 42 2 = Inr 40"
  using amount_checked_arithmetic [of "10 ^ 38 - 1" 1] amount_checked_arithmetic [of 40 2] by auto

end
