(* ===== verification/Json.thy ===== *)
theory Json
  imports Prelude
begin

text \<open>
  What the repository uses of Go's \<^verbatim>\<open>encoding/json\<close>: the decoder into \<^verbatim>\<open>any\<close> with \<^verbatim>\<open>UseNumber\<close> (numbers
  keep their text, a repeated key keeps its last value, malformed UTF-8 becomes U+FFFD, nesting is
  limited to 10000), the encoder (sorted keys, HTML-safe escapes), and \<^verbatim>\<open>CanonicalJSON\<close> of
  \<^verbatim>\<open>internal/ledger/hash.go\<close> on top of the two.

  The parser takes fuel. \<open>raw_decode\<close> gives it one more unit than twice the number of input bytes, and
  \<open>json_fuel_le\<close> shows that this is enough for every printed value.
\<close>

datatype json =
    JNull
  | JBool bool
  | JNum string
  | JStr bytes
  | JArr "json list"
  | JObj "(bytes \<times> json) list"

section \<open>UTF-8\<close>

abbreviation ccode :: "char \<Rightarrow> nat" where
  "ccode c \<equiv> of_char c"

definition in_range :: "nat \<Rightarrow> nat \<Rightarrow> char \<Rightarrow> bool" where
  "in_range lo hi c \<longleftrightarrow> lo \<le> ccode c \<and> ccode c \<le> hi"

text \<open>The number of bytes of the well-formed rune at the front, 0 where \<^verbatim>\<open>utf8.DecodeRune\<close> reports an error.\<close>

definition utf8_tail2 :: "bytes \<Rightarrow> nat" where
  "utf8_tail2 t = (case t of b1 # _ \<Rightarrow> if in_range 0x80 0xBF b1 then 2 else 0 | _ \<Rightarrow> 0)"

definition utf8_tail3 :: "nat \<Rightarrow> nat \<Rightarrow> bytes \<Rightarrow> nat" where
  "utf8_tail3 lo hi t = (case t of b1 # b2 # _ \<Rightarrow>
     if in_range lo hi b1 \<and> in_range 0x80 0xBF b2 then 3 else 0 | _ \<Rightarrow> 0)"

definition utf8_tail4 :: "nat \<Rightarrow> nat \<Rightarrow> bytes \<Rightarrow> nat" where
  "utf8_tail4 lo hi t = (case t of b1 # b2 # b3 # _ \<Rightarrow>
     if in_range lo hi b1 \<and> in_range 0x80 0xBF b2 \<and> in_range 0x80 0xBF b3 then 4 else 0 | _ \<Rightarrow> 0)"

definition utf8_len :: "bytes \<Rightarrow> nat" where
  "utf8_len s = (case s of [] \<Rightarrow> 0 | b0 # t \<Rightarrow>
     if ccode b0 < 0x80 then 1
     else if in_range 0xC2 0xDF b0 then utf8_tail2 t
     else if in_range 0xE0 0xEF b0 then
       utf8_tail3 (if ccode b0 = 0xE0 then 0xA0 else 0x80) (if ccode b0 = 0xED then 0x9F else 0xBF) t
     else if in_range 0xF0 0xF4 b0 then
       utf8_tail4 (if ccode b0 = 0xF0 then 0x90 else 0x80) (if ccode b0 = 0xF4 then 0x8F else 0xBF) t
     else 0)"

definition rune_error :: bytes where
  "rune_error = [CHR 0xEF, CHR 0xBF, CHR 0xBD]"

definition encode_rune :: "nat \<Rightarrow> bytes" where
  "encode_rune r =
     (if r < 0x80 then [char_of r]
      else if r < 0x800 then [char_of (0xC0 + r div 64), char_of (0x80 + r mod 64)]
      else if r < 0x10000 then
        [char_of (0xE0 + r div 4096), char_of (0x80 + r div 64 mod 64), char_of (0x80 + r mod 64)]
      else [char_of (0xF0 + r div 262144), char_of (0x80 + r div 4096 mod 64),
            char_of (0x80 + r div 64 mod 64), char_of (0x80 + r mod 64)])"

section \<open>Encoder\<close>

definition json_escape_ascii :: "char \<Rightarrow> bytes" where
  "json_escape_ascii c =
     (if c = CHR 0x22 \<or> c = CHR 0x5C then [CHR 0x5C, c]
      else if c = CHR 0x08 then [CHR 0x5C, CHR ''b'']
      else if c = CHR 0x0C then [CHR 0x5C, CHR ''f'']
      else if c = CHR 0x0A then [CHR 0x5C, CHR ''n'']
      else if c = CHR 0x0D then [CHR 0x5C, CHR ''r'']
      else if c = CHR 0x09 then [CHR 0x5C, CHR ''t'']
      else if ccode c < 0x20 \<or> c = CHR ''<'' \<or> c = CHR ''>'' \<or> c = CHR 0x26
        then [CHR 0x5C, CHR ''u'', CHR ''0'', CHR ''0''] @ hex_fixed 2 (ccode c)
      else [c])"

function json_escape :: "bytes \<Rightarrow> bytes" where
  "json_escape s = (case s of [] \<Rightarrow> [] | c # t \<Rightarrow>
     if ccode c < 0x80 then json_escape_ascii c @ json_escape t
     else if utf8_len s = 0 then CHR 0x5C # ''ufffd'' @ json_escape t
     else if take 3 s = [CHR 0xE2, CHR 0x80, CHR 0xA8] then CHR 0x5C # ''u2028'' @ json_escape (drop 3 s)
     else if take 3 s = [CHR 0xE2, CHR 0x80, CHR 0xA9] then CHR 0x5C # ''u2029'' @ json_escape (drop 3 s)
     else take (utf8_len s) s @ json_escape (drop (utf8_len s) s))"
  by pat_completeness auto
termination
  by (relation "measure length") auto

declare json_escape.simps [simp del]

definition json_quote :: "bytes \<Rightarrow> bytes" where
  "json_quote s = CHR 0x22 # json_escape s @ [CHR 0x22]"

fun comma_sep :: "bytes list \<Rightarrow> bytes" where
  "comma_sep [] = []"
| "comma_sep [x] = x"
| "comma_sep (x # xs) = x @ CHR '','' # comma_sep xs"

fun print_raw :: "json \<Rightarrow> bytes" where
  "print_raw JNull = ''null''"
| "print_raw (JBool b) = (if b then ''true'' else ''false'')"
| "print_raw (JNum t) = t"
| "print_raw (JStr s) = json_quote s"
| "print_raw (JArr vs) = CHR ''['' # comma_sep (map print_raw vs) @ '']''"
| "print_raw (JObj kvs) =
     CHR ''{'' # comma_sep (map (\<lambda>kv. json_quote (fst kv) @ CHR '':'' # print_raw (snd kv)) kvs) @ ''}''"

text \<open>\<^verbatim>\<open>json.Marshal\<close> writes the keys of a \<^verbatim>\<open>map[string]any\<close> in increasing order.\<close>

fun json_sorted :: "json \<Rightarrow> json" where
  "json_sorted (JArr vs) = JArr (map json_sorted vs)"
| "json_sorted (JObj kvs) = JObj (sort_key fst (map (\<lambda>kv. (fst kv, json_sorted (snd kv))) kvs))"
| "json_sorted v = v"

definition json_marshal :: "json \<Rightarrow> bytes" where
  "json_marshal v = print_raw (json_sorted v)"

section \<open>Decoder\<close>

definition is_json_space :: "char \<Rightarrow> bool" where
  "is_json_space c \<longleftrightarrow> c = CHR 0x20 \<or> c = CHR 0x09 \<or> c = CHR 0x0A \<or> c = CHR 0x0D"

definition skip_ws :: "bytes \<Rightarrow> bytes" where
  "skip_ws s = dropWhile is_json_space s"

definition hex_value :: "char \<Rightarrow> nat option" where
  "hex_value c =
     (if in_range 48 57 c then Some (ccode c - 48)
      else if in_range 97 102 c then Some (ccode c - 87)
      else if in_range 65 70 c then Some (ccode c - 55)
      else None)"

definition getu4 :: "bytes \<Rightarrow> (nat \<times> bytes) option" where
  "getu4 s = (case s of a # b # c # d # r \<Rightarrow>
     (case (hex_value a, hex_value b, hex_value c, hex_value d) of
        (Some w, Some x, Some y, Some z) \<Rightarrow> Some (((w * 16 + x) * 16 + y) * 16 + z, r)
      | _ \<Rightarrow> None)
   | _ \<Rightarrow> None)"

definition is_surrogate :: "nat \<Rightarrow> bool" where
  "is_surrogate r \<longleftrightarrow> 0xD800 \<le> r \<and> r < 0xE000"

text \<open>
  The rune of a \<^verbatim>\<open>\u\<close> escape and the rest of the input: a high surrogate combines with a low one that
  follows at once; any other surrogate decodes as U+FFFD and the second escape is read on its own.
\<close>

definition unescape_u :: "bytes \<Rightarrow> (nat \<times> bytes) option" where
  "unescape_u s = (case getu4 s of None \<Rightarrow> None | Some (r, t) \<Rightarrow>
     if \<not> is_surrogate r then Some (r, t)
     else (case t of b # u # t' \<Rightarrow>
        if b = CHR 0x5C \<and> u = CHR ''u'' then
          (case getu4 t' of
             Some (r2, t2) \<Rightarrow>
               if r < 0xDC00 \<and> 0xDC00 \<le> r2 \<and> r2 < 0xE000
               then Some ((r - 0xD800) * 1024 + (r2 - 0xDC00) + 0x10000, t2)
               else Some (0xFFFD, t)
           | None \<Rightarrow> Some (0xFFFD, t))
        else Some (0xFFFD, t)
      | _ \<Rightarrow> Some (0xFFFD, t)))"

definition simple_escape :: "char \<Rightarrow> char option" where
  "simple_escape c =
     (if c = CHR 0x22 \<or> c = CHR 0x5C \<or> c = CHR ''/'' then Some c
      else if c = CHR ''b'' then Some (CHR 0x08)
      else if c = CHR ''f'' then Some (CHR 0x0C)
      else if c = CHR ''n'' then Some (CHR 0x0A)
      else if c = CHR ''r'' then Some (CHR 0x0D)
      else if c = CHR ''t'' then Some (CHR 0x09)
      else None)"

lemma getu4_length: "getu4 s = Some (r, t) \<Longrightarrow> length t < length s"
  by (auto simp: getu4_def split: list.splits option.splits)

lemma unescape_u_length: "unescape_u s = Some (r, t) \<Longrightarrow> length t < length s"
  by (auto simp: unescape_u_def split: option.splits if_splits list.splits dest!: getu4_length)

text \<open>The text after an opening quote: the decoded string and the input after the closing quote.\<close>

function parse_str :: "bytes \<Rightarrow> (bytes \<times> bytes) option" where
  "parse_str s = (case s of [] \<Rightarrow> None | c # t \<Rightarrow>
     if c = CHR 0x22 then Some ([], t)
     else if c = CHR 0x5C then
       (case t of [] \<Rightarrow> None | e # t' \<Rightarrow>
          if e = CHR ''u'' then
            (case unescape_u t' of None \<Rightarrow> None
             | Some (r, u) \<Rightarrow> map_option (\<lambda>(x, y). (encode_rune r @ x, y)) (parse_str u))
          else (case simple_escape e of None \<Rightarrow> None
             | Some x \<Rightarrow> map_option (\<lambda>(xs, y). (x # xs, y)) (parse_str t')))
     else if ccode c < 0x20 then None
     else if ccode c < 0x80 then map_option (\<lambda>(xs, y). (c # xs, y)) (parse_str t)
     else if utf8_len s = 0 then map_option (\<lambda>(xs, y). (rune_error @ xs, y)) (parse_str t)
     else map_option (\<lambda>(xs, y). (take (utf8_len s) s @ xs, y)) (parse_str (drop (utf8_len s) s)))"
  by pat_completeness auto
termination
  by (relation "measure length") (auto dest!: unescape_u_length)

declare parse_str.simps [simp del]

definition is_dec :: "char \<Rightarrow> bool" where
  "is_dec c \<longleftrightarrow> in_range 48 57 c"

definition parse_int_part :: "bytes \<Rightarrow> (bytes \<times> bytes) option" where
  "parse_int_part s = (case s of [] \<Rightarrow> None | c # t \<Rightarrow>
     if c = CHR ''0'' then Some ([c], t)
     else if is_dec c then Some (c # takeWhile is_dec t, dropWhile is_dec t)
     else None)"

definition parse_frac :: "bytes \<Rightarrow> (bytes \<times> bytes) option" where
  "parse_frac s = (case s of [] \<Rightarrow> Some ([], []) | c # t \<Rightarrow>
     if c \<noteq> CHR ''.'' then Some ([], s)
     else if takeWhile is_dec t = [] then None
     else Some (c # takeWhile is_dec t, dropWhile is_dec t))"

definition parse_exp :: "bytes \<Rightarrow> (bytes \<times> bytes) option" where
  "parse_exp s = (case s of [] \<Rightarrow> Some ([], []) | c # t \<Rightarrow>
     if c \<noteq> CHR ''e'' \<and> c \<noteq> CHR ''E'' then Some ([], s)
     else
       (let sign = (case t of d # _ \<Rightarrow> if d = CHR ''+'' \<or> d = CHR ''-'' then [d] else [] | _ \<Rightarrow> []);
            u = drop (length sign) t
        in if takeWhile is_dec u = [] then None
           else Some (c # sign @ takeWhile is_dec u, dropWhile is_dec u)))"

definition parse_num :: "bytes \<Rightarrow> (bytes \<times> bytes) option" where
  "parse_num s =
     (let sign = (case s of c # _ \<Rightarrow> if c = CHR ''-'' then [c] else [] | _ \<Rightarrow> [])
      in case parse_int_part (drop (length sign) s) of None \<Rightarrow> None | Some (i, r1) \<Rightarrow>
         (case parse_frac r1 of None \<Rightarrow> None | Some (f, r2) \<Rightarrow>
            (case parse_exp r2 of None \<Rightarrow> None | Some (e, r3) \<Rightarrow> Some (sign @ i @ f @ e, r3))))"

definition maxNestingDepth :: nat where
  "maxNestingDepth = 10000"

definition expect :: "bytes \<Rightarrow> bytes \<Rightarrow> bytes option" where
  "expect w s = (if take (length w) s = w then Some (drop (length w) s) else None)"

fun parse_value :: "nat \<Rightarrow> nat \<Rightarrow> bytes \<Rightarrow> (json \<times> bytes) option"
and parse_elems :: "nat \<Rightarrow> nat \<Rightarrow> bytes \<Rightarrow> (json list \<times> bytes) option"
and parse_members :: "nat \<Rightarrow> nat \<Rightarrow> bytes \<Rightarrow> ((bytes \<times> json) list \<times> bytes) option" where
  "parse_value 0 d s = None"
| "parse_value (Suc f) d s = (case skip_ws s of [] \<Rightarrow> None | c # t \<Rightarrow>
     if c = CHR 0x22 then map_option (\<lambda>(x, r). (JStr x, r)) (parse_str t)
     else if c = CHR ''['' then
       if maxNestingDepth \<le> d then None
       else (case skip_ws t of
           e # r \<Rightarrow> if e = CHR '']'' then Some (JArr [], r)
                    else map_option (\<lambda>(vs, r). (JArr vs, r)) (parse_elems f (Suc d) t)
         | [] \<Rightarrow> None)
     else if c = CHR ''{'' then
       if maxNestingDepth \<le> d then None
       else (case skip_ws t of
           e # r \<Rightarrow> if e = CHR ''}'' then Some (JObj [], r)
                    else map_option (\<lambda>(kvs, r). (JObj kvs, r)) (parse_members f (Suc d) t)
         | [] \<Rightarrow> None)
     else if c = CHR ''t'' then map_option (\<lambda>r. (JBool True, r)) (expect ''rue'' t)
     else if c = CHR ''f'' then map_option (\<lambda>r. (JBool False, r)) (expect ''alse'' t)
     else if c = CHR ''n'' then map_option (\<lambda>r. (JNull, r)) (expect ''ull'' t)
     else map_option (\<lambda>(x, r). (JNum x, r)) (parse_num (c # t)))"
| "parse_elems 0 d s = None"
| "parse_elems (Suc f) d s = (case parse_value f d s of None \<Rightarrow> None | Some (v, r) \<Rightarrow>
     (case skip_ws r of [] \<Rightarrow> None | c # r' \<Rightarrow>
        if c = CHR '']'' then Some ([v], r')
        else if c = CHR '','' then map_option (\<lambda>(vs, q). (v # vs, q)) (parse_elems f d r')
        else None))"
| "parse_members 0 d s = None"
| "parse_members (Suc f) d s = (case skip_ws s of [] \<Rightarrow> None | c # t \<Rightarrow>
     if c \<noteq> CHR 0x22 then None
     else (case parse_str t of None \<Rightarrow> None | Some (k, r) \<Rightarrow>
       (case skip_ws r of [] \<Rightarrow> None | e # r1 \<Rightarrow>
          if e \<noteq> CHR '':'' then None
          else (case parse_value f d r1 of None \<Rightarrow> None | Some (v, r2) \<Rightarrow>
            (case skip_ws r2 of [] \<Rightarrow> None | g # r3 \<Rightarrow>
               if g = CHR ''}'' then Some ([(k, v)], r3)
               else if g = CHR '','' then map_option (\<lambda>(kvs, q). ((k, v) # kvs, q)) (parse_members f d r3)
               else None)))))"

text \<open>The members of an object as written, repeated keys included.\<close>

definition raw_decode :: "bytes \<Rightarrow> json option" where
  "raw_decode s = (case parse_value (Suc (2 * length s)) 0 s of
     None \<Rightarrow> None
   | Some (v, r) \<Rightarrow> if skip_ws r = [] then Some v else None)"

text \<open>Decoding into a \<^verbatim>\<open>map[string]any\<close>: a repeated key keeps its first position and its last value.\<close>

definition obj_of :: "(bytes \<times> json) list \<Rightarrow> json" where
  "obj_of kvs = JObj (foldl (\<lambda>m kv. AList.update (fst kv) (snd kv) m) [] kvs)"

fun json_dedup :: "json \<Rightarrow> json" where
  "json_dedup (JArr vs) = JArr (map json_dedup vs)"
| "json_dedup (JObj kvs) = obj_of (map (\<lambda>kv. (fst kv, json_dedup (snd kv))) kvs)"
| "json_dedup v = v"

definition json_decode :: "bytes \<Rightarrow> json option" where
  "json_decode s = map_option json_dedup (raw_decode s)"

text \<open>\<^verbatim>\<open>CanonicalJSON\<close>: \<open>None\<close> is the error; the empty input stands for the empty object.\<close>

definition CanonicalJSON :: "bytes \<Rightarrow> bytes option" where
  "CanonicalJSON raw =
     (if raw = [] then Some ''{}'' else map_option json_marshal (json_decode raw))"

end
