(* ===== verification/Json_Facts.thy ===== *)
theory Json_Facts
  imports Json
begin

text \<open>
  The decoder and the encoder of \<open>Json\<close> are inverse to each other: a well-formed value of bounded depth is
  read back from its text (\<open>json_decode_print\<close>), the decoder returns well-formed values only
  (\<open>json_decode_wf\<close>), and so \<open>CanonicalJSON\<close> is idempotent. The fuel \<open>json_decode\<close> gives to the parser is
  enough for every printed value (\<open>json_fuel_le\<close>).
\<close>

section \<open>Well-formed strings, numbers and values\<close>

function valid_utf8 :: "bytes \<Rightarrow> bool" where
  "valid_utf8 s =
     (if s = [] then True else if utf8_len s = 0 then False else valid_utf8 (drop (utf8_len s) s))"
  by pat_completeness auto
termination
  by (relation "measure length") auto

declare valid_utf8.simps [simp del]

definition is_number :: "bytes \<Rightarrow> bool" where
  "is_number t \<longleftrightarrow> parse_num t = Some (t, [])"

definition ends_number :: "bytes \<Rightarrow> bool" where
  "ends_number r \<longleftrightarrow> (case r of [] \<Rightarrow> True
     | c # _ \<Rightarrow> \<not> is_dec c \<and> c \<noteq> CHR ''.'' \<and> c \<noteq> CHR ''e'' \<and> c \<noteq> CHR ''E'')"

fun json_wf :: "json \<Rightarrow> bool" where
  "json_wf (JNum t) = is_number t"
| "json_wf (JStr s) = valid_utf8 s"
| "json_wf (JArr vs) = (\<forall>v \<in> set vs. json_wf v)"
| "json_wf (JObj kvs) = (\<forall>kv \<in> set kvs. valid_utf8 (fst kv) \<and> json_wf (snd kv))"
| "json_wf _ = True"

fun json_nodup :: "json \<Rightarrow> bool" where
  "json_nodup (JArr vs) = (\<forall>v \<in> set vs. json_nodup v)"
| "json_nodup (JObj kvs) = (distinct (map fst kvs) \<and> (\<forall>kv \<in> set kvs. json_nodup (snd kv)))"
| "json_nodup _ = True"

fun json_depth :: "json \<Rightarrow> nat" where
  "json_depth (JArr vs) = Suc (Max (insert 0 (set (map json_depth vs))))"
| "json_depth (JObj kvs) = Suc (Max (insert 0 (set (map (\<lambda>kv. json_depth (snd kv)) kvs))))"
| "json_depth _ = 0"

fun json_fuel :: "json \<Rightarrow> nat" where
  "json_fuel (JArr vs) = Suc (sum_list (map (\<lambda>v. Suc (json_fuel v)) vs))"
| "json_fuel (JObj kvs) = Suc (sum_list (map (\<lambda>kv. Suc (json_fuel (snd kv))) kvs))"
| "json_fuel _ = 1"

text \<open>A value whose text, in front of any delimiter, is read back and leaves the rest of the input.\<close>

definition parses :: "json \<Rightarrow> bool" where
  "parses v \<longleftrightarrow> (\<forall>f d r. json_wf v \<longrightarrow> json_depth v + d \<le> maxNestingDepth \<longrightarrow> json_fuel v \<le> f \<longrightarrow>
     ends_number r \<longrightarrow> parse_value f d (print_raw v @ r) = Some (v, r))"

section \<open>Strings\<close>

lemma utf8_tail_nonzero:
  "utf8_tail2 t \<noteq> 0 \<Longrightarrow> \<exists>b1 u. t = b1 # u \<and> (\<forall>u. utf8_tail2 (b1 # u) = 2)"
  "utf8_tail3 lo hi t \<noteq> 0 \<Longrightarrow> \<exists>b1 b2 u. t = b1 # b2 # u \<and> (\<forall>u. utf8_tail3 lo hi (b1 # b2 # u) = 3)"
  "utf8_tail4 lo hi t \<noteq> 0 \<Longrightarrow>
     \<exists>b1 b2 b3 u. t = b1 # b2 # b3 # u \<and> (\<forall>u. utf8_tail4 lo hi (b1 # b2 # b3 # u) = 4)"
  by (auto simp: utf8_tail2_def utf8_tail3_def utf8_tail4_def split: list.splits if_splits)

lemma utf8_len_cases:
  assumes "utf8_len s \<noteq> 0"
  obtains
    (one) b0 t where "s = b0 # t" "\<And>t. utf8_len (b0 # t) = 1"
  | (two) b0 b1 t where "s = b0 # b1 # t" "\<And>t. utf8_len (b0 # b1 # t) = 2"
  | (three) b0 b1 b2 t where "s = b0 # b1 # b2 # t" "\<And>t. utf8_len (b0 # b1 # b2 # t) = 3"
  | (four) b0 b1 b2 b3 t where "s = b0 # b1 # b2 # b3 # t" "\<And>t. utf8_len (b0 # b1 # b2 # b3 # t) = 4"
proof -
  obtain b0 t where s: "s = b0 # t" using assms by (cases s) (auto simp: utf8_len_def)
  consider (A) "ccode b0 < 0x80"
    | (B) "\<not> ccode b0 < 0x80" "in_range 0xC2 0xDF b0"
    | (C) "\<not> ccode b0 < 0x80" "\<not> in_range 0xC2 0xDF b0" "in_range 0xE0 0xEF b0"
    | (D) "\<not> ccode b0 < 0x80" "\<not> in_range 0xC2 0xDF b0" "\<not> in_range 0xE0 0xEF b0" "in_range 0xF0 0xF4 b0"
    using assms by (simp add: utf8_len_def s split: if_split_asm)
  then show thesis
  proof cases
    case A
    then show thesis by (intro one [OF s]) (simp add: utf8_len_def)
  next
    case B
    then have "utf8_len (b0 # t) = utf8_tail2 t" for t by (simp add: utf8_len_def)
    with assms s two show thesis by (metis utf8_tail_nonzero(1))
  next
    case C
    then obtain lo hi where "utf8_len (b0 # t) = utf8_tail3 lo hi t" for t by (auto simp: utf8_len_def)
    with assms s three show thesis by (metis utf8_tail_nonzero(2))
  next
    case D
    then obtain lo hi where "utf8_len (b0 # t) = utf8_tail4 lo hi t" for t by (auto simp: utf8_len_def)
    with assms s four show thesis by (metis utf8_tail_nonzero(3))
  qed
qed

lemma utf8_len_le: "utf8_len s \<le> length s"
proof (cases "utf8_len s = 0")
  case False
  then show ?thesis by (cases rule: utf8_len_cases) simp_all
qed simp

lemma utf8_len_ascii: "ccode c < 128 \<Longrightarrow> utf8_len (c # t) = 1"
  by (simp add: utf8_len_def)

lemma utf8_len_take:
  assumes "utf8_len s \<noteq> 0"
  shows "utf8_len (take (utf8_len s) s @ t) = utf8_len s"
  using assms by (cases rule: utf8_len_cases) (simp_all add: eval_nat_numeral)

lemma utf8_len_pos_nonempty: "utf8_len s \<noteq> 0 \<Longrightarrow> s \<noteq> []"
  by (auto simp: utf8_len_def)

lemma hex_value_digit: "d < 16 \<Longrightarrow> hex_value (hex_digit d) = Some d"
  by (auto simp: hex_value_def hex_digit_def in_range_def)

lemma getu4_hex:
  "n < 256 \<Longrightarrow> getu4 (CHR ''0'' # CHR ''0'' # hex_fixed 2 n @ t) = Some (n, t)"
proof -
  assume n: "n < 256"
  have "hex_value (CHR ''0'') = Some 0" by (simp add: hex_value_def in_range_def)
  moreover have "hex_value (hex_digit (n div 16)) = Some (n div 16)"
    using n by (intro hex_value_digit) auto
  moreover have "hex_value (hex_digit (n mod 16)) = Some (n mod 16)"
    by (intro hex_value_digit) auto
  ultimately show ?thesis using n
    by (simp add: getu4_def numeral_2_eq_2)
qed

lemma parse_str_u_ascii:
  assumes "ccode c < 128"
  shows "parse_str (CHR 0x5C # CHR ''u'' # CHR ''0'' # CHR ''0'' # hex_fixed 2 (ccode c) @ t)
    = map_option (\<lambda>(xs, y). (c # xs, y)) (parse_str t)"
proof -
  have u: "unescape_u (CHR ''0'' # CHR ''0'' # hex_fixed 2 (ccode c) @ t) = Some (ccode c, t)"
    using assms by (simp add: unescape_u_def getu4_hex is_surrogate_def)
  show ?thesis
    using assms by (subst parse_str.simps) (simp add: u encode_rune_def)
qed

lemma parse_str_escape_ascii:
  assumes "ccode c < 128"
  shows "parse_str (json_escape_ascii c @ t) = map_option (\<lambda>(xs, y). (c # xs, y)) (parse_str t)"
proof -
  let ?simple = "{CHR 0x22, CHR 0x5C, CHR 0x08, CHR 0x0C, CHR 0x0A, CHR 0x0D, CHR 0x09}"
  let ?html = "ccode c < 0x20 \<or> c = CHR ''<'' \<or> c = CHR ''>'' \<or> c = CHR 0x26"
  show ?thesis
  proof (cases "c \<in> ?simple")
    case True
    then show ?thesis
      by (auto simp: json_escape_ascii_def simple_escape_def parse_str.simps [of "_ # _ # t"])
  next
    case simple: False
    show ?thesis
    proof (cases ?html)
      case True
      with simple have "json_escape_ascii c = CHR 0x5C # CHR ''u'' # CHR ''0'' # CHR ''0'' # hex_fixed 2 (ccode c)"
        by (simp add: json_escape_ascii_def)
      then show ?thesis using parse_str_u_ascii [OF assms, of t] by simp
    next
      case False
      with simple have "json_escape_ascii c = [c]"
        by (simp add: json_escape_ascii_def)
      then show ?thesis using assms simple False by (simp add: parse_str.simps [of "c # t"])
    qed
  qed
qed

lemma char_of_sep: "char_of (226::nat) = CHR 0xE2" "char_of (128::nat) = CHR 0x80"
  "char_of (168::nat) = CHR 0xA8" "char_of (169::nat) = CHR 0xA9"
  by code_simp+

lemma parse_str_u2028:
  "parse_str (CHR 0x5C # ''u2028'' @ t) = map_option (\<lambda>(xs, y). ([CHR 0xE2, CHR 0x80, CHR 0xA8] @ xs, y)) (parse_str t)"
  "parse_str (CHR 0x5C # ''u2029'' @ t) = map_option (\<lambda>(xs, y). ([CHR 0xE2, CHR 0x80, CHR 0xA9] @ xs, y)) (parse_str t)"
  by (simp_all add: parse_str.simps [of "_ # _ # _ # _ # _ # _ # t"] unescape_u_def getu4_def hex_value_def in_range_def
        is_surrogate_def encode_rune_def char_of_sep)

lemma parse_str_rune:
  assumes "s = c # t" "\<not> ccode c < 128" "utf8_len s \<noteq> 0"
  shows "parse_str (take (utf8_len s) s @ u) =
    map_option (\<lambda>(xs, y). (take (utf8_len s) s @ xs, y)) (parse_str u)"
proof -
  have len: "utf8_len (take (utf8_len s) s @ u) = utf8_len s"
    using assms(3) by (rule utf8_len_take)
  obtain n where n: "utf8_len s = Suc n" using assms(3) not0_implies_Suc by blast
  have le: "utf8_len s \<le> length s" by (rule utf8_len_le)
  let ?p = "take (utf8_len s) s"
  have eq: "?p @ u = c # (take n t @ u)"
    by (simp add: assms(1) [symmetric] n) (simp add: assms(1))
  have "c \<noteq> CHR 0x22" "c \<noteq> CHR 0x5C" "\<not> ccode c < 32"
    using assms(2) by auto
  then have "parse_str (?p @ u) =
      map_option (\<lambda>(xs, y). (take (utf8_len (?p @ u)) (?p @ u) @ xs, y))
        (parse_str (drop (utf8_len (?p @ u)) (?p @ u)))"
    using parse_str.simps [of "?p @ u"] len assms(2,3) unfolding eq by simp
  also have "take (utf8_len (?p @ u)) (?p @ u) = ?p"
    unfolding len using le by simp
  also have "drop (utf8_len (?p @ u)) (?p @ u) = u"
    unfolding len using le by simp
  finally show ?thesis .
qed

lemma json_escape_multibyte:
  assumes "s = c # t" "\<not> ccode c < 128" "utf8_len s \<noteq> 0"
  shows "json_escape s =
    (if take 3 s = [CHR 0xE2, CHR 0x80, CHR 0xA8] then CHR 0x5C # ''u2028'' @ json_escape (drop 3 s)
     else if take 3 s = [CHR 0xE2, CHR 0x80, CHR 0xA9] then CHR 0x5C # ''u2029'' @ json_escape (drop 3 s)
     else take (utf8_len s) s @ json_escape (drop (utf8_len s) s))"
  using assms(2,3) unfolding json_escape.simps [of s] by (simp only: assms(1) list.case if_False)

lemma parse_str_escape:
  assumes "valid_utf8 s"
  shows "parse_str (json_escape s @ CHR 0x22 # r) = Some (s, r)"
  using assms
proof (induction s rule: json_escape.induct)
  case (1 s)
  show ?case
  proof (cases s)
    case Nil
    then show ?thesis by (simp add: json_escape.simps parse_str.simps)
  next
    case (Cons c t)
    have v: "utf8_len s \<noteq> 0" "valid_utf8 (drop (utf8_len s) s)"
      using "1.prems" Cons valid_utf8.simps [of s] by (metis list.distinct(1))+
    show ?thesis
    proof (cases "ccode c < 128")
      case True
      then have "valid_utf8 t" using v by (simp add: Cons utf8_len_ascii)
      then have "parse_str (json_escape t @ CHR 0x22 # r) = Some (t, r)"
        using "1.IH"(1) [OF Cons True] by simp
      moreover have "json_escape s = json_escape_ascii c @ json_escape t"
        using True by (subst json_escape.simps) (simp add: Cons)
      ultimately show ?thesis
        using parse_str_escape_ascii [OF True] by (simp add: Cons)
    next
      case False
      show ?thesis
      proof (cases "take 3 s \<in> {[CHR 0xE2, CHR 0x80, CHR 0xA8], [CHR 0xE2, CHR 0x80, CHR 0xA9]}")
        case sep: True
        then obtain x where x: "take 3 s = [CHR 0xE2, CHR 0x80, x]" "x = CHR 0xA8 \<or> x = CHR 0xA9"
          by blast
        then have s: "s = CHR 0xE2 # CHR 0x80 # x # drop 3 s"
          by (metis append_Cons append_Nil append_take_drop_id)
        have "utf8_len (CHR 0xE2 # CHR 0x80 # x # u) = 3" for u
          using x(2) by (auto simp: utf8_len_def utf8_tail3_def in_range_def)
        with s have len: "utf8_len s = 3" by metis
        then have v3: "valid_utf8 (drop 3 s)" using v by simp
        from x(2) show ?thesis
        proof
          assume x8: "x = CHR 0xA8"
          have esc: "json_escape s = CHR 0x5C # ''u2028'' @ json_escape (drop 3 s)"
            using json_escape_multibyte [OF Cons False v(1)] by (simp only: x(1) x8) simp
          have "parse_str (json_escape (drop 3 s) @ CHR 0x22 # r) = Some (drop 3 s, r)"
            using "1.IH"(3) [OF Cons False] v(1) v3 x(1) x8 by simp
          then have "parse_str (json_escape s @ CHR 0x22 # r) = Some ([CHR 0xE2, CHR 0x80, x] @ drop 3 s, r)"
            using parse_str_u2028(1) [of "json_escape (drop 3 s) @ CHR 0x22 # r"] x8
            by (simp add: esc)
          with s show ?thesis by simp
        next
          assume x9: "x = CHR 0xA9"
          have esc: "json_escape s = CHR 0x5C # ''u2029'' @ json_escape (drop 3 s)"
            using json_escape_multibyte [OF Cons False v(1)] by (simp only: x(1) x9) simp
          have "parse_str (json_escape (drop 3 s) @ CHR 0x22 # r) = Some (drop 3 s, r)"
            using "1.IH"(4) [OF Cons False] v(1) v3 x(1) x9 by simp
          then have "parse_str (json_escape s @ CHR 0x22 # r) = Some ([CHR 0xE2, CHR 0x80, x] @ drop 3 s, r)"
            using parse_str_u2028(2) [of "json_escape (drop 3 s) @ CHR 0x22 # r"] x9
            by (simp add: esc)
          with s show ?thesis by simp
        qed
      next
        case no: False
        then have "json_escape s = take (utf8_len s) s @ json_escape (drop (utf8_len s) s)"
          using json_escape_multibyte [OF Cons False v(1)] by simp
        then show ?thesis
          using "1.IH"(5) [OF Cons False v(1)] no v(2) parse_str_rune [OF Cons False v(1)]
          by simp
      qed
    qed
  qed
qed

section \<open>Values\<close>

lemma span_append:
  assumes "r = [] \<or> \<not> P (hd r)"
  shows "takeWhile P (t @ r) = takeWhile P t" "dropWhile P (t @ r) = dropWhile P t @ r"
  using assms by (induction t) (cases r; auto)+

lemma span_dec:
  assumes "ends_number r"
  shows "takeWhile is_dec (t @ r) = takeWhile is_dec t" "dropWhile is_dec (t @ r) = dropWhile is_dec t @ r"
  using assms by (intro span_append; auto simp: ends_number_def split: list.splits)+

lemma parse_int_part_append:
  assumes "parse_int_part s = Some (a, b)" "ends_number r"
  shows "parse_int_part (s @ r) = Some (a, b @ r)"
  using assms span_dec [OF assms(2)]
  by (auto simp: parse_int_part_def split: list.splits if_splits)

lemma parse_frac_append:
  assumes "parse_frac s = Some (a, b)" "ends_number r"
  shows "parse_frac (s @ r) = Some (a, b @ r)"
  using assms span_dec [OF assms(2)]
  by (auto simp: parse_frac_def ends_number_def split: list.splits if_splits)

lemma parse_exp_append:
  assumes "parse_exp s = Some (a, b)" "ends_number r"
  shows "parse_exp (s @ r) = Some (a, b @ r)"
proof (cases s)
  case Nil
  with assms show ?thesis by (auto simp: parse_exp_def ends_number_def split: list.splits)
next
  case (Cons c t)
  show ?thesis
  proof (cases "c = CHR ''e'' \<or> c = CHR ''E''")
    case False
    with assms(1) Cons show ?thesis by (auto simp: parse_exp_def)
  next
    case True
    then obtain d u where t: "t = d # u" using assms(1) Cons
      by (cases t) (auto simp: parse_exp_def)
    show ?thesis
      using assms(1) True Cons t span_dec [OF assms(2), of u] span_dec [OF assms(2), of "d # u"]
      by (auto simp: parse_exp_def Let_def split: if_splits)
  qed
qed

lemma parse_num_append:
  assumes "is_number t" "ends_number r"
  shows "parse_num (t @ r) = Some (t, r)"
proof -
  define sign where "sign = (case t of c # _ \<Rightarrow> if c = CHR ''-'' then [c] else [] | _ \<Rightarrow> [])"
  have ne: "t \<noteq> []" using assms(1) by (auto simp: is_number_def parse_num_def parse_int_part_def)
  have sign': "sign = (case t @ r of c # _ \<Rightarrow> if c = CHR ''-'' then [c] else [] | _ \<Rightarrow> [])"
    using ne by (cases t) (auto simp: sign_def)
  have le: "length sign \<le> length t"
    using ne by (cases t) (auto simp: sign_def)
  obtain i r1 f r2 e where p: "parse_int_part (drop (length sign) t) = Some (i, r1)"
    "parse_frac r1 = Some (f, r2)" "parse_exp r2 = Some (e, [])" "t = sign @ i @ f @ e"
    using assms(1) unfolding is_number_def parse_num_def sign_def [symmetric] Let_def
    by (auto split: option.splits)
  show ?thesis
    unfolding parse_num_def sign' [symmetric] Let_def
    using p le parse_int_part_append [OF p(1) assms(2)] parse_frac_append [OF p(2) assms(2)]
      parse_exp_append [OF p(3) assms(2)]
    by simp
qed

lemma parse_num_first:
  assumes "is_number t"
  shows "\<exists>c u. t = c # u \<and> (c = CHR ''-'' \<or> is_dec c)"
  using assms
  by (auto simp: is_number_def parse_num_def parse_int_part_def is_dec_def in_range_def Let_def
        split: list.splits if_splits option.splits)

lemma number_char_not_special:
  "c = CHR ''-'' \<or> is_dec c \<Longrightarrow> \<not> is_json_space c \<and> c \<noteq> CHR 0x22 \<and> c \<noteq> CHR ''['' \<and> c \<noteq> CHR ''{''
    \<and> c \<noteq> CHR ''t'' \<and> c \<noteq> CHR ''f'' \<and> c \<noteq> CHR ''n''"
  by (auto simp: is_dec_def in_range_def is_json_space_def)

lemma skip_ws_Cons [simp]: "\<not> is_json_space c \<Longrightarrow> skip_ws (c # t) = c # t"
  by (simp add: skip_ws_def)

lemma not_space [simp]:
  "\<not> is_json_space (CHR 0x22)" "\<not> is_json_space (CHR ''['')" "\<not> is_json_space (CHR ''{'')"
  "\<not> is_json_space (CHR '']'')" "\<not> is_json_space (CHR ''}'')" "\<not> is_json_space (CHR '','')"
  "\<not> is_json_space (CHR '':'')" "\<not> is_json_space (CHR ''t'')" "\<not> is_json_space (CHR ''f'')"
  "\<not> is_json_space (CHR ''n'')"
  by (simp_all add: is_json_space_def)

lemma ends_number_delims [simp]:
  "ends_number []" "ends_number (CHR '','' # r)" "ends_number (CHR '']'' # r)" "ends_number (CHR ''}'' # r)"
  by (simp_all add: ends_number_def is_dec_def in_range_def)

lemma print_raw_first:
  assumes "json_wf v"
  shows "\<exists>c u. print_raw v = c # u \<and> \<not> is_json_space c \<and> c \<noteq> CHR '']''"
proof (cases v)
  case (JNum t)
  with assms obtain c u where "t = c # u" "c = CHR ''-'' \<or> is_dec c"
    using parse_num_first by (metis json_wf.simps(1))
  moreover have "c \<noteq> CHR '']''" using calculation(2) by (auto simp: is_dec_def in_range_def)
  ultimately show ?thesis using number_char_not_special JNum by simp
qed (auto simp: json_quote_def)

lemma parse_elems_print:
  assumes "vs \<noteq> []" "\<forall>v \<in> set vs. parses v \<and> json_wf v \<and> json_depth v + d \<le> maxNestingDepth"
    and "sum_list (map (\<lambda>v. Suc (json_fuel v)) vs) \<le> f"
  shows "parse_elems f d (comma_sep (map print_raw vs) @ CHR '']'' # r) = Some (vs, r)"
  using assms
proof (induction vs arbitrary: f)
  case (Cons v vs)
  then obtain g where f: "f = Suc g" by (cases f) auto
  show ?case
  proof (cases vs)
    case Nil
    have "parse_value g d (print_raw v @ CHR '']'' # r) = Some (v, CHR '']'' # r)"
      using Cons.prems f Nil by (simp add: parses_def)
    then show ?thesis by (simp add: f Nil)
  next
    case (Cons w ws)
    let ?rest = "comma_sep (map print_raw vs) @ CHR '']'' # r"
    have "parse_value g d (print_raw v @ CHR '','' # ?rest) = Some (v, CHR '','' # ?rest)"
      using Cons.prems f by (simp add: parses_def)
    moreover have "parse_elems g d ?rest = Some (vs, r)"
      by (rule Cons.IH) (use Cons.prems f local.Cons in auto)
    ultimately show ?thesis by (simp add: f local.Cons)
  qed
qed simp

lemma parse_members_print:
  assumes "kvs \<noteq> []"
    and "\<forall>kv \<in> set kvs. valid_utf8 (fst kv) \<and> parses (snd kv) \<and> json_wf (snd kv)
           \<and> json_depth (snd kv) + d \<le> maxNestingDepth"
    and "sum_list (map (\<lambda>kv. Suc (json_fuel (snd kv))) kvs) \<le> f"
  shows "parse_members f d
    (comma_sep (map (\<lambda>kv. json_quote (fst kv) @ CHR '':'' # print_raw (snd kv)) kvs) @ CHR ''}'' # r) = Some (kvs, r)"
  using assms
proof (induction kvs arbitrary: f)
  case (Cons kv kvs)
  then obtain g where f: "f = Suc g" by (cases f) auto
  obtain k v where kv: "kv = (k, v)" by (cases kv)
  have key: "parse_str (json_escape k @ CHR 0x22 # q) = Some (k, q)" for q
    using Cons.prems by (intro parse_str_escape) (simp add: kv)
  show ?case
  proof (cases kvs)
    case Nil
    have "parse_value g d (print_raw v @ CHR ''}'' # r) = Some (v, CHR ''}'' # r)"
      using Cons.prems f Nil by (simp add: parses_def kv)
    then show ?thesis by (simp add: f Nil kv json_quote_def key)
  next
    case (Cons w ws)
    let ?rest = "comma_sep (map (\<lambda>kv. json_quote (fst kv) @ CHR '':'' # print_raw (snd kv)) kvs) @ CHR ''}'' # r"
    have "parse_value g d (print_raw v @ CHR '','' # ?rest) = Some (v, CHR '','' # ?rest)"
      using Cons.prems f by (simp add: parses_def kv)
    moreover have "parse_members g d ?rest = Some (kvs, r)"
      by (rule Cons.IH) (use Cons.prems f local.Cons in auto)
    ultimately show ?thesis by (simp add: f local.Cons kv json_quote_def key)
  qed
qed simp

lemma max_le: "finite A \<Longrightarrow> x \<in> A \<Longrightarrow> Max (insert 0 A) + d \<le> n \<Longrightarrow> x + d \<le> (n::nat)"
  by (metis Max_ge add_le_cancel_right finite_insert insertCI order_trans)

lemma parses_all: "parses v"
proof (induction v)
  case (JNum t)
  show ?case unfolding parses_def
  proof (intro allI impI)
    fix f d r assume wf: "json_wf (JNum t)" and f: "json_fuel (JNum t) \<le> f" and r: "ends_number r"
    obtain g where g: "f = Suc g" using f by (cases f) auto
    from wf obtain c u where t: "t = c # u" "c = CHR ''-'' \<or> is_dec c"
      using parse_num_first by (metis json_wf.simps(1))
    have "parse_num (t @ r) = Some (t, r)" using wf r by (simp add: parse_num_append)
    then show "parse_value f d (print_raw (JNum t) @ r) = Some (JNum t, r)"
      using number_char_not_special [OF t(2)] by (simp add: g t(1))
  qed
next
  case (JStr s)
  show ?case unfolding parses_def
  proof (intro allI impI)
    fix f d r assume wf: "json_wf (JStr s)" and f: "json_fuel (JStr s) \<le> f"
    obtain g where g: "f = Suc g" using f by (cases f) auto
    show "parse_value f d (print_raw (JStr s) @ r) = Some (JStr s, r)"
      using wf by (simp add: g json_quote_def parse_str_escape)
  qed
next
  case (JArr vs)
  show ?case unfolding parses_def
  proof (intro allI impI)
    fix f d r assume wf: "json_wf (JArr vs)" and f: "json_fuel (JArr vs) \<le> f"
      and d: "json_depth (JArr vs) + d \<le> maxNestingDepth"
    obtain g where g: "f = Suc g" using f by (cases f) auto
    show "parse_value f d (print_raw (JArr vs) @ r) = Some (JArr vs, r)"
    proof (cases vs)
      case Nil
      with d show ?thesis by (simp add: g)
    next
      case (Cons v ws)
      obtain c u where c: "print_raw v = c # u" "\<not> is_json_space c" "c \<noteq> CHR '']''"
        using print_raw_first [of v] wf Cons by auto
      then obtain q where q: "comma_sep (map print_raw vs) @ CHR '']'' # r = c # q"
        by (cases ws) (auto simp: Cons)
      have "parse_elems g (Suc d) (comma_sep (map print_raw vs) @ CHR '']'' # r) = Some (vs, r)"
      proof (rule parse_elems_print)
        show "\<forall>v \<in> set vs. parses v \<and> json_wf v \<and> json_depth v + Suc d \<le> maxNestingDepth"
          using JArr wf d max_le [of "json_depth ` set vs" _ "Suc d" maxNestingDepth] by auto
      qed (use Cons f g in auto)
      with c q d show ?thesis by (simp add: g)
    qed
  qed
next
  case (JObj kvs)
  show ?case unfolding parses_def
  proof (intro allI impI)
    fix f d r assume wf: "json_wf (JObj kvs)" and f: "json_fuel (JObj kvs) \<le> f"
      and d: "json_depth (JObj kvs) + d \<le> maxNestingDepth"
    obtain g where g: "f = Suc g" using f by (cases f) auto
    let ?body = "comma_sep (map (\<lambda>kv. json_quote (fst kv) @ CHR '':'' # print_raw (snd kv)) kvs)"
    show "parse_value f d (print_raw (JObj kvs) @ r) = Some (JObj kvs, r)"
    proof (cases kvs)
      case Nil
      with d show ?thesis by (simp add: g)
    next
      case (Cons kv ws)
      obtain q where q: "?body @ CHR ''}'' # r = CHR 0x22 # q"
        by (cases ws) (auto simp: Cons json_quote_def)
      have "parse_members g (Suc d) (?body @ CHR ''}'' # r) = Some (kvs, r)"
      proof (rule parse_members_print)
        show "\<forall>kv \<in> set kvs. valid_utf8 (fst kv) \<and> parses (snd kv) \<and> json_wf (snd kv)
           \<and> json_depth (snd kv) + Suc d \<le> maxNestingDepth"
          using JObj wf d max_le [of "(\<lambda>kv. json_depth (snd kv)) ` set kvs" _ "Suc d" maxNestingDepth]
          by (auto simp: snds.simps)
      qed (use Cons f g in auto)
      with q d wf show ?thesis by (simp add: g)
    qed
  qed
qed (auto simp: parses_def expect_def Suc_le_eq gr0_conv_Suc)

lemma is_number_nonempty: "is_number t \<Longrightarrow> Suc 0 \<le> length t"
  using parse_num_first [of t] by auto

lemma length_comma_sep: "length (comma_sep xs) = sum_list (map length xs) + (length xs - 1)"
  by (induction xs rule: comma_sep.induct) auto

lemma json_fuel_le: "json_wf v \<Longrightarrow> json_fuel v \<le> 2 * length (print_raw v)"
proof (induction v)
  case (JArr vs)
  have "sum_list (map (\<lambda>v. Suc (json_fuel v)) vs) \<le> sum_list (map (\<lambda>v. Suc (2 * length (print_raw v))) vs)"
    using JArr by (intro sum_list_mono) auto
  also have "\<dots> = 2 * sum_list (map length (map print_raw vs)) + length vs"
    by (induction vs) auto
  finally show ?case by (auto simp: length_comma_sep)
next
  case (JObj kvs)
  let ?p = "\<lambda>kv. json_quote (fst kv) @ CHR '':'' # print_raw (snd kv)"
  have "sum_list (map (\<lambda>kv. Suc (json_fuel (snd kv))) kvs) \<le> sum_list (map (\<lambda>kv. Suc (2 * length (?p kv))) kvs)"
    using JObj by (intro sum_list_mono) (fastforce simp: snds.simps)
  also have "\<dots> = 2 * sum_list (map length (map ?p kvs)) + length kvs"
    by (induction kvs) auto
  finally show ?case by (auto simp: length_comma_sep)
qed (auto simp: json_quote_def dest: is_number_nonempty)

lemma raw_decode_print:
  assumes "json_wf v" "json_depth v \<le> maxNestingDepth"
  shows "raw_decode (print_raw v) = Some v"
proof -
  have "json_fuel v \<le> Suc (2 * length (print_raw v))"
    using json_fuel_le [OF assms(1)] by simp
  then have "parse_value (Suc (2 * length (print_raw v))) 0 (print_raw v @ []) = Some (v, [])"
    using parses_all [of v] assms unfolding parses_def by (metis add.right_neutral ends_number_delims(1))
  then show ?thesis by (simp add: raw_decode_def skip_ws_def)
qed

section \<open>The decoder yields well-formed values\<close>

lemma span_all: "takeWhile P (takeWhile P t) = takeWhile P t" "dropWhile P (takeWhile P t) = []"
  by (induction t) auto

lemma parse_int_part_self:
  "parse_int_part s = Some (a, b) \<Longrightarrow> s = a @ b \<and> parse_int_part a = Some (a, []) \<and> a \<noteq> []"
  by (auto simp: parse_int_part_def span_all split: list.splits if_splits dest: set_takeWhileD)

lemma parse_frac_self:
  "parse_frac s = Some (a, b) \<Longrightarrow> s = a @ b \<and> parse_frac a = Some (a, [])
     \<and> (a = [] \<or> hd a = CHR ''.'')"
  by (auto simp: parse_frac_def span_all split: list.splits if_splits dest: set_takeWhileD)

lemma parse_exp_self:
  assumes "parse_exp s = Some (a, b)"
  shows "s = a @ b \<and> parse_exp a = Some (a, []) \<and> (a = [] \<or> hd a = CHR ''e'' \<or> hd a = CHR ''E'')"
proof (cases s)
  case Nil
  with assms show ?thesis by (auto simp: parse_exp_def)
next
  case (Cons c t)
  show ?thesis
  proof (cases t)
    case Nil
    with assms Cons show ?thesis by (auto simp: parse_exp_def split: if_splits)
  next
    case t: (Cons d u)
    show ?thesis
    proof (cases "d = CHR ''+'' \<or> d = CHR ''-''")
      case True
      with assms Cons t show ?thesis
        by (auto simp: parse_exp_def span_all split: if_splits dest: set_takeWhileD)
    next
      case False
      with assms Cons t show ?thesis
        by (auto simp: parse_exp_def span_all split: if_splits dest: set_takeWhileD)
    qed
  qed
qed

lemma parse_int_part_dec_end:
  assumes "parse_int_part a = Some (a, [])" "r = [] \<or> \<not> is_dec (hd r)"
  shows "parse_int_part (a @ r) = Some (a, r)"
  using assms span_append [of r is_dec]
  by (auto simp: parse_int_part_def split: list.splits if_splits)

lemma parse_frac_dec_end:
  assumes "parse_frac a = Some (a, [])" "r = [] \<or> (\<not> is_dec (hd r) \<and> hd r \<noteq> CHR ''.'')"
  shows "parse_frac (a @ r) = Some (a, r)"
  using assms span_append [of r is_dec]
  by (cases r) (auto simp: parse_frac_def split: list.splits if_splits)

lemma parse_num_self:
  assumes "parse_num s = Some (x, r)"
  shows "is_number x"
proof -
  define sign where "sign = (case s of c # _ \<Rightarrow> if c = CHR ''-'' then [c] else [] | _ \<Rightarrow> [])"
  obtain i r1 f r2 e where p: "parse_int_part (drop (length sign) s) = Some (i, r1)"
    "parse_frac r1 = Some (f, r2)" "parse_exp r2 = Some (e, r)" "x = sign @ i @ f @ e"
    using assms unfolding parse_num_def sign_def [symmetric] Let_def
    by (auto split: option.splits)
  have i: "parse_int_part i = Some (i, [])" "i \<noteq> []" using parse_int_part_self [OF p(1)] by auto
  have f: "parse_frac f = Some (f, [])" "f = [] \<or> hd f = CHR ''.''" using parse_frac_self [OF p(2)] by auto
  have e: "parse_exp e = Some (e, [])" "e = [] \<or> hd e = CHR ''e'' \<or> hd e = CHR ''E''"
    using parse_exp_self [OF p(3)] by auto
  have nd: "\<not> is_dec (CHR ''e'')" "\<not> is_dec (CHR ''E'')" "\<not> is_dec (CHR ''.'')"
    by (simp_all add: is_dec_def in_range_def)
  have "parse_int_part (i @ f @ e) = Some (i, f @ e)"
    using i(1) f(2) e(2) nd by (intro parse_int_part_dec_end) (cases f; auto)+
  moreover have "parse_frac (f @ e) = Some (f, e)"
    using f(1) e(2) nd by (intro parse_frac_dec_end) auto
  moreover have "hd i \<noteq> CHR ''-''"
    using i by (auto simp: parse_int_part_def is_dec_def in_range_def split: list.splits if_splits)
  then have "sign = (case x of c # _ \<Rightarrow> if c = CHR ''-'' then [c] else [] | _ \<Rightarrow> [])"
    using i(2) by (cases i) (auto simp: p(4) sign_def split: list.splits if_splits)
  ultimately show ?thesis
    unfolding is_number_def parse_num_def Let_def using e(1) p(4) by simp
qed

lemma valid_utf8_rune:
  assumes "utf8_len (p @ x) = length p" "p \<noteq> []" "valid_utf8 x"
  shows "valid_utf8 (p @ x)"
  using assms by (subst valid_utf8.simps) simp

lemma valid_utf8_Nil [simp]: "valid_utf8 []"
  by (simp add: valid_utf8.simps)

lemma valid_utf8_ascii: "ccode c < 128 \<Longrightarrow> valid_utf8 x \<Longrightarrow> valid_utf8 (c # x)"
  using valid_utf8_rune [of "[c]" x] by (simp add: utf8_len_ascii)

lemma utf8_len_encode_rune:
  assumes "r < 0x110000" "\<not> is_surrogate r"
  shows "utf8_len (encode_rune r @ x) = length (encode_rune r)"
proof -
  consider "r < 0x80" | "0x80 \<le> r" "r < 0x800" | "0x800 \<le> r" "r < 0x10000" | "0x10000 \<le> r"
    by linarith
  then show ?thesis
  proof cases
    case 1
    then show ?thesis by (simp add: encode_rune_def utf8_len_def)
  next
    case 2
    then have "2 \<le> r div 64" "r div 64 < 32" by auto
    with 2 show ?thesis
      by (simp add: encode_rune_def utf8_len_def utf8_tail2_def in_range_def)
  next
    case 3
    define a b c where "a = r div 4096" and "b = r div 64 mod 64" and "c = r mod 64"
    have "r = (r div 64) * 64 + c" "r div 64 = (r div 4096) * 64 + b"
      using div_mult2_eq [of r 64 64] unfolding b_def c_def by simp_all
    then have r: "r = a * 4096 + b * 64 + c" "a < 16" "b < 64" "c < 64"
      using 3 less_mult_imp_div_less [of r 16 4096] unfolding a_def b_def c_def by linarith+
    have "a = 0 \<Longrightarrow> 32 \<le> b" "a = 13 \<Longrightarrow> b < 32"
      using r 3 assms(2) by (auto simp: is_surrogate_def)
    with r 3 show ?thesis
      unfolding encode_rune_def a_def [symmetric] b_def [symmetric] c_def [symmetric]
      by (auto simp: utf8_len_def utf8_tail3_def in_range_def)
  next
    case 4
    define a b c d where "a = r div 262144" and "b = r div 4096 mod 64" and "c = r div 64 mod 64"
      and "d = r mod 64"
    have "r = (r div 64) * 64 + d" "r div 64 = (r div 4096) * 64 + c" "r div 4096 = a * 64 + b"
      using div_mult2_eq [of r 64 64] div_mult2_eq [of r 4096 64]
      unfolding a_def b_def c_def d_def by simp_all
    then have r: "r = a * 262144 + b * 4096 + c * 64 + d" "a < 5" "b < 64" "c < 64" "d < 64"
      using 4 assms(1) less_mult_imp_div_less [of r 5 262144] unfolding a_def b_def c_def d_def by linarith+
    have "a = 0 \<Longrightarrow> 16 \<le> b" "a = 4 \<Longrightarrow> b < 16"
      using r 4 assms(1) by auto
    with r 4 show ?thesis
      unfolding encode_rune_def a_def [symmetric] b_def [symmetric] c_def [symmetric] d_def [symmetric]
      by (auto simp: utf8_len_def utf8_tail4_def in_range_def)
  qed
qed

lemma hex_value_less: "hex_value c = Some n \<Longrightarrow> n < 16"
  by (auto simp: hex_value_def in_range_def split: if_splits)

lemma getu4_less: "getu4 s = Some (r, t) \<Longrightarrow> r < 65536"
  by (auto simp: getu4_def split: list.splits option.splits dest!: hex_value_less)

lemma unescape_u_rune:
  "unescape_u s = Some (r, t) \<Longrightarrow> r < 0x110000 \<and> \<not> is_surrogate r"
  by (auto simp: unescape_u_def is_surrogate_def split: option.splits if_splits list.splits
        dest!: getu4_less)

lemma parse_str_valid: "parse_str s = Some (x, r) \<Longrightarrow> valid_utf8 x"
proof (induction s arbitrary: x r rule: parse_str.induct)
  case (1 s)
  show ?case
  proof (cases s)
    case Nil
    with "1.prems" show ?thesis by (simp add: parse_str.simps)
  next
    case (Cons c t)
    have rune: "encode_rune q \<noteq> []" for q by (simp add: encode_rune_def)
    have err: "utf8_len (rune_error @ y) = length rune_error" for y
      by (simp add: rune_error_def utf8_len_def utf8_tail3_def in_range_def)
    have err_ne: "rune_error \<noteq> []" by (simp add: rune_error_def)
    have esc: "simple_escape e = Some y \<Longrightarrow> ccode y < 128" for e y
      by (auto simp: simple_escape_def split: if_splits)
    have "take (utf8_len s) s \<noteq> []" if "utf8_len s \<noteq> 0"
      using that by (simp add: Cons)
    then show ?thesis
      using "1.prems" "1.IH" Cons utf8_len_le [of s]
      by (subst (asm) parse_str.simps)
         (auto split: if_splits list.splits option.splits
           intro!: valid_utf8_rune valid_utf8_ascii utf8_len_encode_rune rune err utf8_len_take
           dest: unescape_u_rune esc simp: min_absorb2 err_ne)
  qed
qed

section \<open>Decoded values\<close>

lemma updates_mem:
  "kv \<in> set (foldl (\<lambda>m kv. AList.update (fst kv) (snd kv) m) m kvs) \<Longrightarrow> kv \<in> set m \<union> set kvs"
proof (induction kvs arbitrary: m)
  case (Cons x kvs)
  have "set (AList.update k v m) \<subseteq> insert (k, v) (set m)" for k v
    by (induction m) auto
  with Cons show ?case by fastforce
qed simp

lemma updates_distinct:
  "distinct (map fst m) \<Longrightarrow> distinct (map fst (foldl (\<lambda>m kv. AList.update (fst kv) (snd kv) m) m kvs))"
  by (induction kvs arbitrary: m) (auto simp: distinct_update)

lemma depth_max_le:
  "finite A \<Longrightarrow> (\<forall>x \<in> A. x + Suc d \<le> n) \<Longrightarrow> Suc d \<le> n \<Longrightarrow> Suc (Max (insert 0 A)) + d \<le> (n::nat)"
  by (cases "A = {}") auto

lemma parse_wf:
  "parse_value f d s = Some (v, r) \<Longrightarrow> d \<le> maxNestingDepth \<Longrightarrow>
     json_wf v \<and> json_depth v + d \<le> maxNestingDepth"
  "parse_elems f d s = Some (vs, r) \<Longrightarrow> d \<le> maxNestingDepth \<Longrightarrow>
     \<forall>v \<in> set vs. json_wf v \<and> json_depth v + d \<le> maxNestingDepth"
  "parse_members f d s = Some (kvs, r) \<Longrightarrow> d \<le> maxNestingDepth \<Longrightarrow>
     \<forall>kv \<in> set kvs. valid_utf8 (fst kv) \<and> json_wf (snd kv) \<and> json_depth (snd kv) + d \<le> maxNestingDepth"
proof (induction f d s and f d s and f d s arbitrary: v r and vs r and kvs r
    rule: parse_value_parse_elems_parse_members.induct)
  case (2 f d s)
  obtain c t where c: "skip_ws s = c # t" using "2.prems"(1) by (cases "skip_ws s") auto
  consider (str) "c = CHR 0x22" | (arr) "c = CHR ''[''" | (obj) "c = CHR ''{''"
    | (other) "c \<noteq> CHR 0x22" "c \<noteq> CHR ''[''" "c \<noteq> CHR ''{''" by blast
  then show ?case
  proof cases
    case str
    with 2 c show ?thesis by (auto dest: parse_str_valid)
  next
    case arr
    then have d: "\<not> maxNestingDepth \<le> d" using "2.prems"(1) c by (auto split: if_splits)
    with arr "2.prems"(1) c consider "v = JArr []"
      | vs r' e q where "v = JArr vs" "parse_elems f (Suc d) t = Some (vs, r')" "skip_ws t = e # q" "e \<noteq> CHR '']''"
      by (auto split: list.splits if_splits)
    then show ?thesis
    proof cases
      case 1
      with d show ?thesis by simp
    next
      case vs: 2
      have "\<forall>v \<in> set vs. json_wf v \<and> json_depth v + Suc d \<le> maxNestingDepth"
        using "2.IH"(1) [OF c _ arr d vs(3,4,2)] arr d by simp
      moreover from this have "Suc (Max (insert 0 (set (map json_depth vs)))) + d \<le> maxNestingDepth"
        using d by (intro depth_max_le) auto
      ultimately show ?thesis using vs(1) by simp
    qed
  next
    case obj
    then have d: "\<not> maxNestingDepth \<le> d" using "2.prems"(1) c by (auto split: if_splits)
    with obj "2.prems"(1) c consider "v = JObj []"
      | kvs r' e q where "v = JObj kvs" "parse_members f (Suc d) t = Some (kvs, r')" "skip_ws t = e # q" "e \<noteq> CHR ''}''"
      by (auto split: list.splits if_splits)
    then show ?thesis
    proof cases
      case 1
      with d show ?thesis by simp
    next
      case kvs: 2
      have "\<forall>kv \<in> set kvs. valid_utf8 (fst kv) \<and> json_wf (snd kv) \<and> json_depth (snd kv) + Suc d \<le> maxNestingDepth"
        using "2.IH"(2) [OF c _ _ obj d kvs(3,4,2)] obj d by simp
      moreover from this have "Suc (Max (insert 0 (set (map (\<lambda>kv. json_depth (snd kv)) kvs)))) + d \<le> maxNestingDepth"
        using d by (intro depth_max_le) auto
      ultimately show ?thesis using kvs(1) by simp
    qed
  next
    case other
    with 2 c show ?thesis by (auto split: if_splits dest: parse_num_self)
  qed
next
  case (4 f d s)
  then show ?case by (fastforce split: option.splits list.splits if_splits)
next
  case (6 f d s)
  then show ?case by (fastforce split: option.splits list.splits if_splits dest: parse_str_valid)
qed simp_all

lemma raw_decode_wf:
  assumes "raw_decode s = Some v"
  shows "json_wf v \<and> json_depth v \<le> maxNestingDepth"
proof -
  obtain r where "parse_value (Suc (2 * length s)) 0 s = Some (v, r)"
    using assms by (auto simp: raw_decode_def simp del: parse_value.simps split: option.splits if_splits)
  then show ?thesis using parse_wf(1) [of _ 0] by fastforce
qed

section \<open>Repeated keys\<close>

lemma obj_of_distinct_aux:
  "distinct (map fst (m @ kvs)) \<Longrightarrow>
   foldl (\<lambda>m kv. AList.update (fst kv) (snd kv) m) m kvs = m @ kvs"
proof (induction kvs arbitrary: m)
  case (Cons kv kvs)
  have "AList.update k x m = m @ [(k, x)]" if "k \<notin> fst ` set m" for k x
    using that by (induction m) auto
  with Cons.prems have "AList.update (fst kv) (snd kv) m = m @ [kv]" by auto
  with Cons.IH [of "m @ [kv]"] Cons.prems show ?case by simp
qed simp

lemma obj_of_distinct: "distinct (map fst kvs) \<Longrightarrow> obj_of kvs = JObj kvs"
  using obj_of_distinct_aux [of "[]"] by (simp add: obj_of_def)

lemma obj_of_wf:
  assumes "\<forall>kv \<in> set kvs. valid_utf8 (fst kv) \<and> json_wf (snd kv) \<and> json_nodup (snd kv) \<and> json_depth (snd kv) \<le> n"
  shows "json_wf (obj_of kvs) \<and> json_nodup (obj_of kvs) \<and> json_depth (obj_of kvs) \<le> Suc n"
proof -
  let ?m = "foldl (\<lambda>m kv. AList.update (fst kv) (snd kv) m) [] kvs"
  have mem: "kv \<in> set kvs" if "kv \<in> set ?m" for kv using updates_mem [OF that] by simp
  have "distinct (map fst ?m)" by (rule updates_distinct) simp
  moreover have "Max (insert 0 (set (map (\<lambda>kv. json_depth (snd kv)) ?m))) \<le> n"
    using assms mem by (intro Max.boundedI) auto
  ultimately show ?thesis using assms mem by (auto simp: obj_of_def)
qed

lemma json_dedup_wf:
  "json_wf v \<Longrightarrow> json_wf (json_dedup v) \<and> json_nodup (json_dedup v) \<and> json_depth (json_dedup v) \<le> json_depth v"
proof (induction v rule: json_dedup.induct)
  case (1 vs)
  then have "json_depth (json_dedup x) \<le> Max (insert 0 (set (map json_depth vs)))" if "x \<in> set vs" for x
    using that by (intro order_trans [OF _ Max_ge [of _ "json_depth x"]]) auto
  with 1 show ?case by auto
next
  case (2 kvs)
  let ?n = "Max (insert 0 (set (map (\<lambda>kv. json_depth (snd kv)) kvs)))"
  have "json_depth (json_dedup (snd kv)) \<le> ?n" if "kv \<in> set kvs" for kv
    using that 2 by (intro order_trans [OF _ Max_ge [of _ "json_depth (snd kv)"]]) auto
  then show ?case
    using 2 obj_of_wf [of "map (\<lambda>kv. (fst kv, json_dedup (snd kv))) kvs" ?n] by auto
qed auto

lemma json_dedup_id: "json_nodup v \<Longrightarrow> json_dedup v = v"
proof (induction v rule: json_dedup.induct)
  case (1 vs)
  then show ?case by (simp add: map_idI)
next
  case (2 kvs)
  then have "map (\<lambda>kv. (fst kv, json_dedup (snd kv))) kvs = kvs" by (auto intro: map_idI)
  with 2 show ?case by (simp add: obj_of_distinct)
qed auto

lemma json_decode_print:
  "json_wf v \<Longrightarrow> json_nodup v \<Longrightarrow> json_depth v \<le> maxNestingDepth \<Longrightarrow> json_decode (print_raw v) = Some v"
  by (simp add: json_decode_def raw_decode_print json_dedup_id)

lemma json_decode_wf:
  "json_decode s = Some v \<Longrightarrow> json_wf v \<and> json_nodup v \<and> json_depth v \<le> maxNestingDepth"
  using raw_decode_wf json_dedup_wf by (fastforce simp: json_decode_def)

lemma json_depth_sorted [simp]: "json_depth (json_sorted v) = json_depth v"
proof (induction v)
  case (JArr vs)
  then have "map json_depth (map json_sorted vs) = map json_depth vs" by simp
  then show ?case by (metis json_depth.simps(1) json_sorted.simps(1))
next
  case (JObj kvs)
  let ?f = "\<lambda>kv. (fst kv, json_sorted (snd kv))"
  have "(\<lambda>kv. json_depth (snd kv)) ` set (sort_key fst (map ?f kvs)) = (\<lambda>kv. json_depth (snd kv)) ` set kvs"
    using JObj by (force simp: image_iff snds.simps)
  then show ?case by (simp add: image_set [symmetric])
qed simp_all

lemma json_wf_sorted: "json_wf v \<Longrightarrow> json_wf (json_sorted v)"
  by (induction v rule: json_sorted.induct) auto

lemma json_nodup_sorted: "json_nodup v \<Longrightarrow> json_nodup (json_sorted v)"
proof (induction v rule: json_sorted.induct)
  case (2 kvs)
  let ?f = "\<lambda>kv. (fst kv, json_sorted (snd kv))"
  have "distinct (map fst (map ?f kvs))" using "2.prems" by (simp add: comp_def)
  then have "distinct (map fst (sort_key fst (map ?f kvs)))"
    unfolding distinct_map [of fst] by (simp only: distinct_sort set_sort)
  with 2 show ?case by auto
qed auto

lemma json_sorted_idem: "json_sorted (json_sorted v) = json_sorted v"
proof (induction v)
  case (JObj kvs)
  let ?f = "\<lambda>kv. (fst kv, json_sorted (snd kv))"
  let ?s = "sort_key fst (map ?f kvs)"
  have "map ?f ?s = ?s"
    using JObj by (intro map_idI) (auto simp: snds.simps)
  moreover have "sort_key fst ?s = ?s"
    by (intro sort_key_id_if_sorted) simp
  ultimately show ?case by simp
qed simp_all

lemma CanonicalJSON_decode:
  assumes "CanonicalJSON raw = Some c"
  shows "\<exists>v. json_decode c = Some (json_sorted v) \<and> c = json_marshal v \<and> c \<noteq> []"
proof (cases "raw = []")
  case True
  then have c: "c = print_raw (JObj [])" using assms by (simp add: CanonicalJSON_def)
  have "json_decode (print_raw (JObj [])) = Some (JObj [])"
    by (rule json_decode_print) (simp_all add: maxNestingDepth_def)
  with c show ?thesis by (intro exI [of _ "JObj []"]) (simp add: json_marshal_def)
next
  case False
  then obtain v where v: "json_decode raw = Some v" "c = json_marshal v"
    using assms by (auto simp: CanonicalJSON_def)
  have wf: "json_wf (json_sorted v)" "json_nodup (json_sorted v)" "json_depth (json_sorted v) \<le> maxNestingDepth"
    using json_decode_wf [OF v(1)] by (auto simp: json_wf_sorted json_nodup_sorted)
  have "json_decode c = Some (json_sorted v)"
    unfolding v(2) json_marshal_def by (rule json_decode_print [OF wf])
  moreover have "c \<noteq> []" using print_raw_first [OF wf(1)] by (auto simp: v(2) json_marshal_def)
  ultimately show ?thesis using v(2) by blast
qed

lemma CanonicalJSON_idem:
  assumes "CanonicalJSON raw = Some c"
  shows "CanonicalJSON c = Some c"
proof -
  obtain v where v: "json_decode c = Some (json_sorted v)" "c = json_marshal v" "c \<noteq> []"
    using CanonicalJSON_decode [OF assms] by blast
  then show ?thesis by (simp add: CanonicalJSON_def json_marshal_def json_sorted_idem)
qed

section \<open>Properties\<close>

text \<open>
  C24: \<^verbatim>\<open>CanonicalJSON\<close> is a canonical form: applied to its own output it returns the output, and the
  output decodes to the value the input decodes to, with the keys of every object sorted.
\<close>
theorem canonical_json_idempotent:
  assumes "CanonicalJSON raw = Some c" and "raw \<noteq> []"
  shows "CanonicalJSON c = Some c \<and> json_decode c = map_option json_sorted (json_decode raw)"
proof -
  obtain v where v: "json_decode raw = Some v" "c = json_marshal v"
    using assms by (auto simp: CanonicalJSON_def)
  then have "json_decode c = Some (json_sorted v)"
    using json_decode_wf [OF v(1)] json_decode_print [of "json_sorted v"]
    by (simp add: json_marshal_def json_wf_sorted json_nodup_sorted)
  with v CanonicalJSON_idem [OF assms(1)] show ?thesis by simp
qed

theorem canonical_json_idempotent_witness:
  "CanonicalJSON ''{ \"b\":1, \"a\":[true] }'' = Some ''{\"a\":[true],\"b\":1}''
   \<and> CanonicalJSON ''{\"a\":[true],\"b\":1}'' = Some ''{\"a\":[true],\"b\":1}''"
proof -
  have c: "CanonicalJSON ''{ \"b\":1, \"a\":[true] }'' = Some ''{\"a\":[true],\"b\":1}''" by code_simp
  then show ?thesis using canonical_json_idempotent [OF c] by simp
qed

end
