(* ===== verification/Json_Struct.thy ===== *)
theory Json_Struct
  imports Ledger_Amount Json_Facts
begin

text \<open>
  \<^verbatim>\<open>encoding/json\<close> on structs, as far as the repository uses it: how a member name selects a field and
  how strings, unsigned integers and amounts are set from a decoded value.
\<close>

definition json_uint :: "nat \<Rightarrow> json" where
  "json_uint n = JNum (dec_digits n)"

text \<open>Case folding of a member name as far as it can meet an ASCII field name.\<close>

fun fold_name :: "bytes \<Rightarrow> bytes" where
  "fold_name [] = []"
| "fold_name (c # s) =
     (if in_range 97 122 c then char_of (ccode c - 32) # fold_name s
      else if c = CHR 0xC5 \<and> take 1 s = [CHR 0xBF] then CHR ''S'' # fold_name (drop 1 s)
      else if c = CHR 0xE2 \<and> take 2 s = [CHR 0x84, CHR 0xAA] then CHR ''K'' # fold_name (drop 2 s)
      else c # fold_name s)"

definition match_in :: "string list \<Rightarrow> bytes \<Rightarrow> string option" where
  "match_in fields k = (if k \<in> set fields then Some k
     else List.find (\<lambda>f. fold_name f = fold_name k) fields)"

definition set_string :: "json \<Rightarrow> string \<Rightarrow> string option" where
  "set_string v old = (case v of JStr s \<Rightarrow> Some s | JNull \<Rightarrow> Some old | _ \<Rightarrow> None)"

definition parse_uint :: "nat \<Rightarrow> string \<Rightarrow> nat option" where
  "parse_uint bits t =
     (if t \<noteq> [] \<and> list_all is_digit t \<and> dec_value t 0 < 2 ^ bits then Some (dec_value t 0) else None)"

definition set_uint64 :: "json \<Rightarrow> uint64 \<Rightarrow> uint64 option" where
  "set_uint64 v old = (case v of JNum t \<Rightarrow> map_option word_of_nat (parse_uint 64 t) | JNull \<Rightarrow> Some old | _ \<Rightarrow> None)"

text \<open>
  \<^verbatim>\<open>Amount.UnmarshalJSON\<close> reads a JSON string or the raw text of any other value. Only a number can
  parse: the texts of null, booleans, arrays and objects are no integers.
\<close>

definition set_amount :: "json \<Rightarrow> amount option" where
  "set_amount v = (case v of
       JStr s \<Rightarrow> (case ParseAmount s of Inl e \<Rightarrow> None | Inr a \<Rightarrow> Some a)
     | JNum t \<Rightarrow> (case ParseAmount t of Inl e \<Rightarrow> None | Inr a \<Rightarrow> Some a)
     | _ \<Rightarrow> None)"

text \<open>
  \<^verbatim>\<open>json.Unmarshal\<close> into a struct of strings and unsigned integers: the members of the object are applied in
  order, a name selects a field exactly or up to case, unknown names are skipped, null leaves a field
  alone and a value of another type makes the call fail. A struct is described by the names and kinds of
  its fields; its value is a function of the field name.
\<close>

datatype wire_kind = KString | KUint nat

datatype wire = WString string | WUint nat

definition wire_zero :: "(string \<times> wire_kind) list \<Rightarrow> string \<Rightarrow> wire" where
  "wire_zero desc f = (case map_of desc f of Some (KUint _) \<Rightarrow> WUint 0 | _ \<Rightarrow> WString [])"

definition wire_set :: "wire_kind \<Rightarrow> json \<Rightarrow> wire \<Rightarrow> wire option" where
  "wire_set kind v old =
     (case v of
        JNull \<Rightarrow> Some old
      | JStr s \<Rightarrow> (case kind of KString \<Rightarrow> Some (WString s) | KUint _ \<Rightarrow> None)
      | JNum t \<Rightarrow> (case kind of KString \<Rightarrow> None | KUint bits \<Rightarrow> map_option WUint (parse_uint bits t))
      | _ \<Rightarrow> None)"

fun wire_members ::
  "(string \<times> wire_kind) list \<Rightarrow> (bytes \<times> json) list \<Rightarrow> (string \<Rightarrow> wire) \<Rightarrow> (string \<Rightarrow> wire) option" where
  "wire_members desc [] w = Some w"
| "wire_members desc ((k, v) # kvs) w =
     (case match_in (map fst desc) k of
        None \<Rightarrow> wire_members desc kvs w
      | Some f \<Rightarrow>
        (case map_of desc f of
           None \<Rightarrow> wire_members desc kvs w
         | Some kind \<Rightarrow>
           (case wire_set kind v (w f) of None \<Rightarrow> None | Some x \<Rightarrow> wire_members desc kvs (w(f := x)))))"

definition wire_decode :: "(string \<times> wire_kind) list \<Rightarrow> bytes \<Rightarrow> (string \<Rightarrow> wire) option" where
  "wire_decode desc data =
     (case raw_decode data of
        Some (JObj kvs) \<Rightarrow> wire_members desc kvs (wire_zero desc)
      | Some JNull \<Rightarrow> Some (wire_zero desc)
      | _ \<Rightarrow> None)"

definition wire_json :: "wire \<Rightarrow> json" where
  "wire_json w = (case w of WString s \<Rightarrow> JStr s | WUint n \<Rightarrow> json_uint n)"

definition wire_encode :: "(string \<times> wire_kind) list \<Rightarrow> (string \<Rightarrow> wire) \<Rightarrow> bytes" where
  "wire_encode desc w = print_raw (JObj (map (\<lambda>(f, _). (f, wire_json (w f))) desc))"

definition wire_string :: "(string \<Rightarrow> wire) \<Rightarrow> string \<Rightarrow> string" where
  "wire_string w f = (case w f of WString s \<Rightarrow> s | WUint _ \<Rightarrow> [])"

definition wire_uint :: "(string \<Rightarrow> wire) \<Rightarrow> string \<Rightarrow> nat" where
  "wire_uint w f = (case w f of WUint n \<Rightarrow> n | WString _ \<Rightarrow> 0)"

section \<open>Lemmas\<close>

lemma valid_utf8_all_ascii: "\<forall>c \<in> set s. ccode c < 128 \<Longrightarrow> valid_utf8 s"
  by (induction s) (auto intro: valid_utf8_ascii)

lemma digits_ascii: "\<forall>c \<in> set (dec_digits n). ccode c < 128"
  using digits_are_digits [of n] by (auto simp: list_all_iff is_digit_def)

lemma valid_utf8_show_int: "valid_utf8 (show_int a)"
  using digits_ascii by (intro valid_utf8_all_ascii) (auto simp: show_int_def)

lemma is_dec_eq_is_digit: "is_dec = is_digit"
  by (auto simp: fun_eq_iff is_dec_def is_digit_def in_range_def)

lemma dec_digits_hd_zero: "hd (dec_digits n) = CHR ''0'' \<Longrightarrow> dec_digits n = ''0''"
proof (induction n rule: dec_digits.induct)
  case (1 n)
  show ?case
  proof (cases "n < 10")
    case True
    then show ?thesis using "1.prems" by (simp add: dec_digits.simps [of n])
  next
    case False
    then have d: "dec_digits n = dec_digits (n div 10) @ [char_of (48 + n mod 10)]"
      by (simp add: dec_digits.simps [of n])
    with "1.prems" have "hd (dec_digits (n div 10)) = CHR ''0''" by simp
    with "1.IH" False have "dec_digits (n div 10) = ''0''" by simp
    then have "n div 10 = 0" by (metis dec_value_digits dec_value_zeros replicate.simps One_nat_def)
    with False show ?thesis by simp
  qed
qed

lemma is_number_dec_digits: "is_number (dec_digits n)"
proof -
  obtain c t where ct: "dec_digits n = c # t" by (cases "dec_digits n") auto
  have all: "list_all is_digit (c # t)" using digits_are_digits [of n] by (simp add: ct)
  then have "c \<noteq> CHR ''-''" using digit_not_special by auto
  moreover have tw: "takeWhile is_digit t = t" "dropWhile is_digit t = []"
    using all by (auto simp: list_all_iff takeWhile_eq_all_conv dropWhile_eq_Nil_conv)
  moreover have "t = []" if "c = CHR ''0''" using dec_digits_hd_zero [of n] that by (simp add: ct)
  ultimately show ?thesis using all
    by (cases "c = CHR ''0''")
       (simp_all add: is_number_def parse_num_def parse_int_part_def parse_frac_def parse_exp_def ct tw
         is_dec_eq_is_digit del: takeWhile_eq_all_conv dropWhile_eq_Nil_conv)
qed

lemma parse_uint_digits: "n < 2 ^ bits \<Longrightarrow> parse_uint bits (dec_digits n) = Some n"
  by (simp add: parse_uint_def digits_are_digits)

lemma set_uint64_digits: "set_uint64 (json_uint (unat w)) old = Some w"
proof -
  have "unat w < 2 ^ 64" using unsigned_less [of w] by simp
  then show ?thesis by (simp add: set_uint64_def json_uint_def parse_uint_digits)
qed

definition wire_ok :: "wire_kind \<Rightarrow> wire \<Rightarrow> bool" where
  "wire_ok kind w \<longleftrightarrow>
     (case kind of
        KString \<Rightarrow> (case w of WString s \<Rightarrow> valid_utf8 s | WUint _ \<Rightarrow> False)
      | KUint bits \<Rightarrow> (case w of WUint n \<Rightarrow> n < 2 ^ bits | WString _ \<Rightarrow> False))"

lemma wire_set_json: "wire_ok kind w \<Longrightarrow> wire_set kind (wire_json w) old = Some w"
  by (auto simp: wire_ok_def wire_set_def wire_json_def json_uint_def parse_uint_digits
      split: wire_kind.splits wire.splits)

lemma wire_members_encode:
  assumes "distinct (map fst desc)" "set fs \<subseteq> set desc" "\<forall>(f, kind) \<in> set desc. wire_ok kind (w f)"
  shows "\<exists>u. wire_members desc (map (\<lambda>(f, _). (f, wire_json (w f))) fs) v = Some u
    \<and> (\<forall>f. u f = (if f \<in> fst ` set fs then w f else v f))"
  using assms(2)
proof (induction fs arbitrary: v)
  case (Cons fk fs)
  obtain f kind where fk: "fk = (f, kind)" by (cases fk)
  have m: "map_of desc f = Some kind" "f \<in> fst ` set desc"
    using Cons.prems assms(1) by (auto simp: fk intro: rev_image_eqI)
  have "wire_ok kind (w f)" using Cons.prems assms(3) by (auto simp: fk)
  with m have "wire_members desc (map (\<lambda>(f, _). (f, wire_json (w f))) (fk # fs)) v =
      wire_members desc (map (\<lambda>(f, _). (f, wire_json (w f))) fs) (v(f := w f))"
    by (simp add: fk match_in_def wire_set_json)
  moreover obtain u where "wire_members desc (map (\<lambda>(f, _). (f, wire_json (w f))) fs) (v(f := w f)) = Some u"
    "\<forall>g. u g = (if g \<in> fst ` set fs then w g else (v(f := w f)) g)"
    using Cons.IH [of "v(f := w f)"] Cons.prems by (meson list.set_intros(2) subset_code(1))
  ultimately show ?case by (auto simp: fk)
qed simp

lemma wire_roundtrip:
  assumes "distinct (map fst desc)" "\<forall>(f, kind) \<in> set desc. wire_ok kind (w f)"
    and "\<forall>(f, kind) \<in> set desc. valid_utf8 f"
  obtains u where "wire_decode desc (wire_encode desc w) = Some u" "\<And>f. f \<in> fst ` set desc \<Longrightarrow> u f = w f"
proof -
  let ?v = "JObj (map (\<lambda>(f, _). (f, wire_json (w f))) desc)"
  have "json_wf (wire_json (w f)) \<and> json_depth (wire_json (w f)) = 0" if "(f, kind) \<in> set desc" for f kind
    using assms(2) that
    by (fastforce simp: wire_json_def wire_ok_def json_uint_def is_number_dec_digits
        split: wire.splits wire_kind.splits)
  then have ok: "\<forall>fk \<in> set desc. json_wf (wire_json (w (fst fk))) \<and> json_depth (wire_json (w (fst fk))) = 0"
    by auto
  then have "json_wf ?v"
    using assms(3) by (auto simp: case_prod_beta)
  moreover have "json_depth ?v \<le> Suc 0"
    using ok by (simp add: case_prod_beta image_constant_conv)
  ultimately have "raw_decode (print_raw ?v) = Some ?v"
    by (intro raw_decode_print) (auto simp: maxNestingDepth_def)
  then show thesis
    using wire_members_encode [OF assms(1) subset_refl assms(2), of "wire_zero desc"] that
    by (auto simp: wire_decode_def wire_encode_def)
qed

end
