(* ===== verification/Sim_Certificate.thy ===== *)
theory Sim_Certificate
  imports Hashing Json_Struct
begin

text \<open>
  The transfer certificates of \<^verbatim>\<open>internal/failuresim\<close>: the canonical payload that is authenticated with
  HMAC-SHA256, the JSON form that travels in a message, and its decoder.

  \<open>unmarshalCertificate\<close> follows \<^verbatim>\<open>json.Unmarshal\<close> into the struct: members are applied in order, a member
  name matches a field exactly or up to case, unknown members are skipped, null leaves a field alone,
  and any type error makes the whole call fail.
\<close>

section \<open>Certificates\<close>

record TransferCertificate =
  tc_TransferID :: string
  tc_Asset :: string
  tc_SourceRegion :: string
  tc_DestinationRegion :: string
  tc_Amount :: amount
  tc_SourceEpoch :: uint64
  tc_CommitSequence :: uint64
  tc_CommitProof :: bytes

definition zeroCertificate :: TransferCertificate where
  "zeroCertificate = \<lparr>tc_TransferID = [], tc_Asset = [], tc_SourceRegion = [], tc_DestinationRegion = [],
     tc_Amount = 0, tc_SourceEpoch = 0, tc_CommitSequence = 0, tc_CommitProof = zero_hash\<rparr>"

definition writeLengthPrefixed :: "bytes \<Rightarrow> bytes" where
  "writeLengthPrefixed v = put_uint32 (word_of_nat (length v)) @ v"

definition canonicalCertificatePayload :: "TransferCertificate \<Rightarrow> bytes" where
  "canonicalCertificatePayload c =
     ''payment-platform/failuresim/transfer-certificate/v1'' @ [CHR 0x00]
     @ concat (map writeLengthPrefixed
         [tc_TransferID c, tc_Asset c, tc_SourceRegion c, tc_DestinationRegion c, Amount_String (tc_Amount c)])
     @ put_uint64 (tc_SourceEpoch c) @ put_uint64 (tc_CommitSequence c)"

definition certificateProof :: "bytes \<Rightarrow> TransferCertificate \<Rightarrow> bytes" where
  "certificateProof key c = hmac_sha256 key (canonicalCertificatePayload c)"

definition equalCertificate :: "TransferCertificate \<Rightarrow> TransferCertificate \<Rightarrow> bool" where
  "equalCertificate l r \<longleftrightarrow> tc_TransferID l = tc_TransferID r \<and> tc_Asset l = tc_Asset r
     \<and> tc_SourceRegion l = tc_SourceRegion r \<and> tc_DestinationRegion l = tc_DestinationRegion r
     \<and> Amount_Cmp (tc_Amount l) (tc_Amount r) = 0 \<and> tc_SourceEpoch l = tc_SourceEpoch r
     \<and> tc_CommitSequence l = tc_CommitSequence r \<and> tc_CommitProof l = tc_CommitProof r"

definition CommitProofString :: "TransferCertificate \<Rightarrow> string" where
  "CommitProofString c = hex_bytes (tc_CommitProof c)"

section \<open>JSON form\<close>

definition certificate_json :: "TransferCertificate \<Rightarrow> json" where
  "certificate_json c = JObj
     [(''transfer_id'', JStr (tc_TransferID c)),
      (''asset'', JStr (tc_Asset c)),
      (''source_region'', JStr (tc_SourceRegion c)),
      (''destination_region'', JStr (tc_DestinationRegion c)),
      (''amount'', JStr (Amount_String (tc_Amount c))),
      (''source_epoch'', json_uint (unat (tc_SourceEpoch c))),
      (''commit_sequence'', json_uint (unat (tc_CommitSequence c))),
      (''commit_proof'', JArr (map (\<lambda>b. json_uint (of_char b)) (tc_CommitProof c)))]"

definition marshalCertificate :: "TransferCertificate \<Rightarrow> bytes" where
  "marshalCertificate c = print_raw (certificate_json c)"

definition certificate_fields :: "string list" where
  "certificate_fields = [''transfer_id'', ''asset'', ''source_region'', ''destination_region'', ''amount'',
     ''source_epoch'', ''commit_sequence'', ''commit_proof'']"

definition match_field :: "bytes \<Rightarrow> string option" where
  "match_field k = match_in certificate_fields k"

definition set_byte :: "json \<Rightarrow> char \<Rightarrow> char option" where
  "set_byte v old = (case v of JNum t \<Rightarrow> map_option char_of (parse_uint 8 t) | JNull \<Rightarrow> Some old | _ \<Rightarrow> None)"

text \<open>A fixed-size array: missing elements become zero, surplus elements are skipped.\<close>

fun set_array :: "json list \<Rightarrow> bytes \<Rightarrow> bytes option" where
  "set_array vs [] = Some []"
| "set_array [] (b # bs) = Some (replicate (length (b # bs)) (CHR 0x00))"
| "set_array (v # vs) (b # bs) = (case set_byte v b of None \<Rightarrow> None | Some x \<Rightarrow> map_option ((#) x) (set_array vs bs))"

definition set_field :: "bytes \<times> json \<Rightarrow> TransferCertificate \<Rightarrow> TransferCertificate option" where
  "set_field kv c = (let v = snd kv in case match_field (fst kv) of
     None \<Rightarrow> Some c
   | Some f \<Rightarrow>
       if f = ''transfer_id'' then map_option (\<lambda>x. c\<lparr>tc_TransferID := x\<rparr>) (set_string v (tc_TransferID c))
       else if f = ''asset'' then map_option (\<lambda>x. c\<lparr>tc_Asset := x\<rparr>) (set_string v (tc_Asset c))
       else if f = ''source_region'' then map_option (\<lambda>x. c\<lparr>tc_SourceRegion := x\<rparr>) (set_string v (tc_SourceRegion c))
       else if f = ''destination_region''
         then map_option (\<lambda>x. c\<lparr>tc_DestinationRegion := x\<rparr>) (set_string v (tc_DestinationRegion c))
       else if f = ''amount'' then map_option (\<lambda>x. c\<lparr>tc_Amount := x\<rparr>) (set_amount v)
       else if f = ''source_epoch'' then map_option (\<lambda>x. c\<lparr>tc_SourceEpoch := x\<rparr>) (set_uint64 v (tc_SourceEpoch c))
       else if f = ''commit_sequence''
         then map_option (\<lambda>x. c\<lparr>tc_CommitSequence := x\<rparr>) (set_uint64 v (tc_CommitSequence c))
       else (case v of
           JArr vs \<Rightarrow> map_option (\<lambda>x. c\<lparr>tc_CommitProof := x\<rparr>) (set_array vs (tc_CommitProof c))
         | JNull \<Rightarrow> Some c
         | _ \<Rightarrow> None))"

fun set_fields :: "(bytes \<times> json) list \<Rightarrow> TransferCertificate \<Rightarrow> TransferCertificate option" where
  "set_fields [] c = Some c"
| "set_fields (kv # kvs) c = (case set_field kv c of None \<Rightarrow> None | Some c' \<Rightarrow> set_fields kvs c')"

definition unmarshalCertificate :: "bytes \<Rightarrow> TransferCertificate option" where
  "unmarshalCertificate payload = (case raw_decode payload of
     Some (JObj kvs) \<Rightarrow> set_fields kvs zeroCertificate
   | Some JNull \<Rightarrow> Some zeroCertificate
   | _ \<Rightarrow> None)"

section \<open>Lemmas\<close>

definition cert_ok :: "TransferCertificate \<Rightarrow> bool" where
  "cert_ok c \<longleftrightarrow> valid_utf8 (tc_TransferID c) \<and> valid_utf8 (tc_Asset c) \<and> valid_utf8 (tc_SourceRegion c)
     \<and> valid_utf8 (tc_DestinationRegion c) \<and> fitsDecimal38 (tc_Amount c) \<and> length (tc_CommitProof c) = 32"

lemma equalCertificate_iff [simp]: "equalCertificate l r \<longleftrightarrow> l = r"
  by (auto simp: equalCertificate_def intro: TransferCertificate.equality)

lemma set_byte_digits: "set_byte (json_uint (of_char b)) old = Some b"
  by (simp add: set_byte_def json_uint_def parse_uint_digits)

lemma set_array_digits:
  "length bs = length old \<Longrightarrow> set_array (map (\<lambda>b. json_uint (of_char b)) bs) old = Some bs"
proof (induction bs arbitrary: old)
  case (Cons b bs)
  then show ?case by (cases old) (simp_all add: set_byte_digits)
qed simp

lemma certificate_json_wf:
  "cert_ok c \<Longrightarrow> json_wf (certificate_json c)"
  using valid_utf8_show_int
  by (auto simp: certificate_json_def cert_ok_def json_uint_def is_number_dec_digits Amount_String_def
      intro!: valid_utf8_all_ascii)

lemma certificate_json_depth: "json_depth (certificate_json c) \<le> maxNestingDepth"
  by (simp add: certificate_json_def json_uint_def maxNestingDepth_def Max_le_iff)

lemma match_field_self [simp]:
  "match_field ''transfer_id'' = Some ''transfer_id''" "match_field ''asset'' = Some ''asset''"
  "match_field ''source_region'' = Some ''source_region''"
  "match_field ''destination_region'' = Some ''destination_region''"
  "match_field ''amount'' = Some ''amount''" "match_field ''source_epoch'' = Some ''source_epoch''"
  "match_field ''commit_sequence'' = Some ''commit_sequence''"
  "match_field ''commit_proof'' = Some ''commit_proof''"
  by (simp_all add: match_field_def match_in_def certificate_fields_def)

lemma set_fields_certificate:
  assumes "cert_ok c" "certificate_json c = JObj kvs"
  shows "set_fields kvs zeroCertificate = Some c"
  using assms
  by (auto simp: certificate_json_def set_field_def set_string_def set_uint64_digits set_amount_def
      ParseAmount_String set_array_digits cert_ok_def zeroCertificate_def Let_def
      intro: TransferCertificate.equality)

lemma unmarshal_marshal: "cert_ok c \<Longrightarrow> unmarshalCertificate (marshalCertificate c) = Some c"
  using raw_decode_print [OF certificate_json_wf certificate_json_depth, of c] set_fields_certificate [of c]
  by (simp add: unmarshalCertificate_def marshalCertificate_def certificate_json_def)

interpretation cert_json: codec marshalCertificate unmarshalCertificate cert_ok
  by unfold_locales (rule unmarshal_marshal)

section \<open>Properties\<close>

text \<open>
  C23: A transfer certificate survives its trip through a message: for valid UTF-8 identifiers, an
  amount of at most 38 digits and a 32-byte proof, \<^verbatim>\<open>json.Unmarshal\<close> of \<^verbatim>\<open>json.Marshal\<close> gives the certificate
  back, and two such certificates with the same message payload are equal.
\<close>
theorem certificate_json_roundtrip:
  assumes "cert_ok c" and "cert_ok d"
  shows "unmarshalCertificate (marshalCertificate c) = Some c
    \<and> (marshalCertificate c = marshalCertificate d \<longleftrightarrow> c = d)"
  using cert_json.dec_enc [OF assms(1)] cert_json.enc_inject [OF assms] by blast

definition example_certificate :: TransferCertificate where
  "example_certificate = \<lparr>tc_TransferID = ''t-1'', tc_Asset = ''USD'', tc_SourceRegion = ''A'',
     tc_DestinationRegion = ''B'', tc_Amount = 25, tc_SourceEpoch = 1, tc_CommitSequence = 2,
     tc_CommitProof = zero_hash\<rparr>"

theorem certificate_json_roundtrip_witness:
  "cert_ok example_certificate
   \<and> unmarshalCertificate (marshalCertificate example_certificate) = Some example_certificate"
proof -
  have "cert_ok example_certificate"
    by (simp add: cert_ok_def example_certificate_def fitsDecimal38_iff valid_utf8_all_ascii)
  with certificate_json_roundtrip [OF this this] show ?thesis by blast
qed

end
