(* ===== verification/Ledger_Posting.thy ===== *)
theory Ledger_Posting
  imports Ledger_Amount Hashing Json_Facts
begin

text \<open>
  The posting request of \<^verbatim>\<open>internal/ledger/types.go\<close>, its validation, and the canonical entry hash of
  \<^verbatim>\<open>internal/ledger/hash.go\<close>.

  \<open>PostRequest_Validate\<close> is shown to accept exactly the requests with a complete header and positive
  lines that balance per asset, and the bytes \<open>HashEntry\<close> feeds to SHA-256 are shown to determine every
  hashed field.
\<close>

section \<open>Data\<close>

type_synonym Side = string

definition Debit :: Side where "Debit = ''DEBIT''"

definition Credit :: Side where "Credit = ''CREDIT''"

record Line =
  line_AccountID :: string
  line_AssetID :: string
  line_Side :: Side
  line_AmountAtoms :: amount
  line_Memo :: string

record PostRequest =
  pr_TransactionID :: string
  pr_BookID :: string
  pr_OperationID :: string
  pr_EffectID :: string
  pr_Kind :: string
  pr_ReferenceTransactionID :: "string option"
  pr_PostingRuleVersion :: string
  pr_SchemaVersion :: "64 word"
  pr_RequestHash :: bytes
  pr_Metadata :: bytes
  pr_Lines :: "Line list"

record Transaction = PostRequest +
  tx_SequenceNo :: "64 word"
  tx_PrevHash :: bytes
  tx_EntryHash :: bytes
  tx_Status :: string

record Book =
  book_BookID :: string
  book_LegalEntityID :: string
  book_Jurisdiction :: string
  book_GenesisHash :: bytes

record Account =
  acc_AccountID :: string
  acc_BookID :: string
  acc_AssetID :: string
  acc_AccountType :: string
  acc_NormalSide :: Side
  acc_EnforceSpendLimit :: bool
  acc_CreditLimitAtoms :: amount

section \<open>Validation\<close>

definition validID :: "string \<Rightarrow> bool" where
  "validID v \<longleftrightarrow> v \<noteq> [] \<and> length v \<le> 512"

type_synonym totals = "int \<times> int"

definition add_totals :: "Line \<Rightarrow> totals \<Rightarrow> totals" where
  "add_totals l t =
     (if line_Side l = Debit then (fst t + line_AmountAtoms l, snd t)
      else (fst t, snd t + line_AmountAtoms l))"

fun validate_lines ::
  "nat \<Rightarrow> (string, totals) dict \<Rightarrow> Line list \<Rightarrow> ledger_error + (string, totals) dict" where
  "validate_lines i perAsset [] = Inr perAsset"
| "validate_lines i perAsset (l # ls) =
     (if \<not> validID (line_AccountID l) \<or> \<not> validID (line_AssetID l)
      then Inl (ErrInvalidPosting (''line '' @ dec_digits i @ '' has missing account or asset''))
      else if line_Side l \<noteq> Debit \<and> line_Side l \<noteq> Credit
      then Inl (ErrInvalidPosting (''line '' @ dec_digits i @ '' has invalid side''))
      else if Amount_Sign (line_AmountAtoms l) \<le> 0 \<or> \<not> fitsDecimal38 (line_AmountAtoms l)
      then Inl (ErrInvalidPosting (''line '' @ dec_digits i @ '' amount must be positive''))
      else
        let t = add_totals l (dget_or (0, 0) perAsset (line_AssetID l))
        in if \<not> fitsDecimal38 (fst t) \<or> \<not> fitsDecimal38 (snd t) then Inl ErrAmountOverflow
           else validate_lines (Suc i) (dset (line_AssetID l) t perAsset) ls)"

definition balanced_totals :: "string \<times> totals \<Rightarrow> ledger_error option" where
  "balanced_totals = (\<lambda>(asset, debit, credit).
     if debit \<noteq> credit
     then Some (ErrUnbalanced (asset @ '' debit='' @ show_int debit @ '' credit='' @ show_int credit))
     else None)"

definition PostRequest_Validate :: "('a) PostRequest_scheme \<Rightarrow> ledger_error option" where
  "PostRequest_Validate r =
     (if \<not> validID (pr_TransactionID r) \<or> \<not> validID (pr_BookID r) \<or> \<not> validID (pr_OperationID r)
         \<or> \<not> validID (pr_EffectID r) \<or> pr_Kind r = [] \<or> pr_PostingRuleVersion r = []
      then Some (ErrInvalidPosting ''required transaction header is missing'')
      else if \<not> 0 <s pr_SchemaVersion r
      then Some (ErrInvalidPosting ''schema version must be positive'')
      else if (case pr_ReferenceTransactionID r of None \<Rightarrow> False | Some ref \<Rightarrow> \<not> validID ref)
      then Some (ErrInvalidPosting ''invalid reference transaction id'')
      else if length (pr_Lines r) < 2
      then Some (ErrInvalidPosting ''at least two lines are required'')
      else if CanonicalJSON (pr_Metadata r) = None
      then Some (ErrInvalidPosting ''metadata'')
      else case validate_lines 1 dempty (pr_Lines r) of
        Inl e \<Rightarrow> Some e
      | Inr perAsset \<Rightarrow> first_error balanced_totals (entries perAsset))"

definition Book_Validate :: "Book \<Rightarrow> ledger_error option" where
  "Book_Validate b =
     (if \<not> validID (book_BookID b) \<or> \<not> validID (book_LegalEntityID b) \<or> book_Jurisdiction b = []
      then Some (ErrInvalidPosting ''invalid book'') else None)"

definition Account_Validate :: "Account \<Rightarrow> ledger_error option" where
  "Account_Validate a =
     (if \<not> validID (acc_AccountID a) \<or> \<not> validID (acc_BookID a) \<or> \<not> validID (acc_AssetID a)
         \<or> acc_AccountType a = []
      then Some (ErrInvalidPosting ''invalid account'')
      else if acc_NormalSide a \<noteq> Debit \<and> acc_NormalSide a \<noteq> Credit
      then Some (ErrInvalidPosting ''invalid account normal side'')
      else if Amount_Sign (acc_CreditLimitAtoms a) < 0 \<or> \<not> fitsDecimal38 (acc_CreditLimitAtoms a)
      then Some (ErrInvalidPosting ''negative credit limit'')
      else None)"

section \<open>The entry hash\<close>

definition writeInt64 :: "64 word \<Rightarrow> bytes" where
  "writeInt64 v = put_uint64 v"

definition writeUint32 :: "uint32 \<Rightarrow> bytes" where
  "writeUint32 v = put_uint32 v"

definition writeBytes :: "bytes \<Rightarrow> ledger_error + bytes" where
  "writeBytes v =
     (if int (length v) > 2 ^ 32 - 1 then Inl (ErrLedgerOther ''ledger: canonical field exceeds uint32'')
      else Inr (writeUint32 (word_of_nat (length v)) @ v))"

fun writeAll :: "bytes list \<Rightarrow> ledger_error + bytes" where
  "writeAll [] = Inr []"
| "writeAll (v # vs) = (case writeBytes v of Inl e \<Rightarrow> Inl e | Inr b \<Rightarrow>
     (case writeAll vs of Inl e \<Rightarrow> Inl e | Inr bs \<Rightarrow> Inr (b @ bs)))"

fun writeLines :: "nat \<Rightarrow> Line list \<Rightarrow> ledger_error + bytes" where
  "writeLines i [] = Inr []"
| "writeLines i (l # ls) =
     (case writeAll [line_AccountID l, line_AssetID l, line_Side l, line_Memo l,
                     Amount_String (line_AmountAtoms l)] of
        Inl e \<Rightarrow> Inl e
      | Inr b \<Rightarrow> (case writeLines (Suc i) ls of
          Inl e \<Rightarrow> Inl e
        | Inr bs \<Rightarrow> Inr (writeInt64 (word_of_nat i) @ b @ bs)))"

definition writeReference :: "string option \<Rightarrow> ledger_error + bytes" where
  "writeReference ref = (case ref of
     None \<Rightarrow> Inr [CHR 0x00]
   | Some t \<Rightarrow> (case writeBytes t of Inl e \<Rightarrow> Inl e | Inr b \<Rightarrow> Inr (CHR 0x01 # b)))"

definition ledgerHashDomain :: bytes where
  "ledgerHashDomain = ''payment-platform/ledger-entry/v1'' @ [CHR 0x00]"

text \<open>The contents of the buffer \<^verbatim>\<open>canonical\<close> that \<^verbatim>\<open>HashEntry\<close> fills, given the canonical metadata.\<close>

definition canonical_entry ::
  "bytes \<Rightarrow> 64 word \<Rightarrow> ('a) PostRequest_scheme \<Rightarrow> bytes \<Rightarrow> ledger_error + bytes" where
  "canonical_entry prevHash sequenceNo r metadata =
     (case writeAll [pr_TransactionID r, pr_BookID r, pr_OperationID r, pr_EffectID r, pr_Kind r,
                     pr_PostingRuleVersion r] of Inl e \<Rightarrow> Inl e | Inr header \<Rightarrow>
     (case writeReference (pr_ReferenceTransactionID r) of Inl e \<Rightarrow> Inl e | Inr ref \<Rightarrow>
     (case writeBytes metadata of Inl e \<Rightarrow> Inl e | Inr meta \<Rightarrow>
     (case writeLines 1 (pr_Lines r) of Inl e \<Rightarrow> Inl e | Inr ls \<Rightarrow>
        Inr (ledgerHashDomain @ prevHash @ writeInt64 sequenceNo @ header
             @ writeInt64 (pr_SchemaVersion r) @ ref @ pr_RequestHash r @ meta
             @ writeUint32 (word_of_nat (length (pr_Lines r))) @ ls)))))"

definition HashEntry :: "bytes \<Rightarrow> 64 word \<Rightarrow> ('a) PostRequest_scheme \<Rightarrow> ledger_error + bytes" where
  "HashEntry prevHash sequenceNo r =
     (if \<not> 0 <s sequenceNo then Inl (ErrInvalidPosting ''sequence must be positive'')
      else case PostRequest_Validate r of Some e \<Rightarrow> Inl e | None \<Rightarrow>
        (case CanonicalJSON (pr_Metadata r) of
           None \<Rightarrow> Inl (ErrLedgerOther ''metadata'')
         | Some metadata \<Rightarrow>
             (case canonical_entry prevHash sequenceNo r metadata of
                Inl e \<Rightarrow> Inl e
              | Inr canonical \<Rightarrow> Inr (sha256 canonical))))"

definition CanonicalEntryHash :: "bytes \<Rightarrow> Transaction \<Rightarrow> ledger_error + bytes" where
  "CanonicalEntryHash prevHash t =
     (if length prevHash \<noteq> 32
      then Inl (ErrLedgerOther ''ledger: previous hash must contain 32 bytes'')
      else HashEntry prevHash (tx_SequenceNo t) t)"

definition GenesisHash :: "string \<Rightarrow> bytes" where
  "GenesisHash bookID = sha256 (''payment-platform/ledger-genesis/v1'' @ [CHR 0x00] @ bookID)"

section \<open>Specification\<close>

definition side_total :: "Side \<Rightarrow> string \<Rightarrow> Line list \<Rightarrow> int" where
  "side_total side asset ls =
     sum_list (map line_AmountAtoms (filter (\<lambda>l. line_AssetID l = asset \<and> line_Side l = side) ls))"

definition line_ok :: "Line \<Rightarrow> bool" where
  "line_ok l \<longleftrightarrow> validID (line_AccountID l) \<and> validID (line_AssetID l)
     \<and> (line_Side l = Debit \<or> line_Side l = Credit)
     \<and> 0 < line_AmountAtoms l \<and> fitsDecimal38 (line_AmountAtoms l)"

definition header_ok :: "('a) PostRequest_scheme \<Rightarrow> bool" where
  "header_ok r \<longleftrightarrow> validID (pr_TransactionID r) \<and> validID (pr_BookID r) \<and> validID (pr_OperationID r)
     \<and> validID (pr_EffectID r) \<and> pr_Kind r \<noteq> [] \<and> pr_PostingRuleVersion r \<noteq> []
     \<and> 0 <s pr_SchemaVersion r \<and> pred_option validID (pr_ReferenceTransactionID r)
     \<and> 2 \<le> length (pr_Lines r) \<and> CanonicalJSON (pr_Metadata r) \<noteq> None"

text \<open>A posting the ledger may record: for every asset the debits equal the credits and fit the column.\<close>

definition posting_ok :: "('a) PostRequest_scheme \<Rightarrow> bool" where
  "posting_ok r \<longleftrightarrow> header_ok r \<and> list_all line_ok (pr_Lines r)
     \<and> (\<forall>asset. side_total Debit asset (pr_Lines r) = side_total Credit asset (pr_Lines r)
              \<and> fitsDecimal38 (side_total Debit asset (pr_Lines r)))"

text \<open>The bytes \<open>HashEntry\<close> hashes.\<close>

definition hash_input :: "bytes \<Rightarrow> 64 word \<Rightarrow> ('a) PostRequest_scheme \<Rightarrow> bytes" where
  "hash_input prevHash sequenceNo r =
     (case CanonicalJSON (pr_Metadata r) of None \<Rightarrow> [] | Some metadata \<Rightarrow>
        (case canonical_entry prevHash sequenceNo r metadata of Inl e \<Rightarrow> [] | Inr b \<Rightarrow> b))"

section \<open>Lemmas on validation\<close>

lemma Debit_Credit [simp]: "Debit \<noteq> Credit" "Credit \<noteq> Debit"
  by (simp_all add: Debit_def Credit_def)

lemma side_total_simps [simp]:
  "side_total s a [] = 0"
  "side_total s a (l # ls) =
     (if line_AssetID l = a \<and> line_Side l = s then line_AmountAtoms l else 0) + side_total s a ls"
  by (simp_all add: side_total_def)

lemma side_total_nonneg: "list_all line_ok ls \<Longrightarrow> 0 \<le> side_total s a ls"
  by (induction ls) (auto simp: line_ok_def)

definition plus_totals :: "totals \<Rightarrow> string \<Rightarrow> Line list \<Rightarrow> totals" where
  "plus_totals t a ls = (fst t + side_total Debit a ls, snd t + side_total Credit a ls)"

lemma plus_totals_Cons:
  "line_Side l = Debit \<or> line_Side l = Credit \<Longrightarrow>
   plus_totals t a (l # ls) = plus_totals (if line_AssetID l = a then add_totals l t else t) a ls"
  by (auto simp: plus_totals_def add_totals_def)

lemma validate_lines_Inr:
  "validate_lines i m ls = Inr m' \<Longrightarrow>
   list_all line_ok ls \<and> (\<forall>a. dget_or (0, 0) m' a = plus_totals (dget_or (0, 0) m a) a ls)"
proof (induction i m ls rule: validate_lines.induct)
  case (1 i m)
  then show ?case by (simp add: plus_totals_def)
next
  case (2 i m l ls)
  let ?t = "add_totals l (dget_or (0, 0) m (line_AssetID l))"
  have ok: "line_ok l" using "2.prems" by (auto simp: line_ok_def split: if_splits)
  then have side: "line_Side l = Debit \<or> line_Side l = Credit" by (simp add: line_ok_def)
  have "list_all line_ok ls \<and>
      (\<forall>a. dget_or (0, 0) m' a = plus_totals (dget_or (0, 0) (dset (line_AssetID l) ?t m) a) a ls)"
    using 2 by (simp add: Let_def split: if_splits)
  with ok side show ?case by (simp add: plus_totals_Cons)
qed

lemma validate_lines_ok:
  "line_ok l \<Longrightarrow> t = add_totals l (dget_or (0, 0) m (line_AssetID l)) \<Longrightarrow>
   fitsDecimal38 (fst t) \<Longrightarrow> fitsDecimal38 (snd t) \<Longrightarrow>
   validate_lines i m (l # ls) = validate_lines (Suc i) (dset (line_AssetID l) t m) ls"
  by (auto simp: line_ok_def)

lemma validate_lines_complete:
  assumes "list_all line_ok ls"
    and "\<And>a. 0 \<le> fst (dget_or (0, 0) m a) \<and> 0 \<le> snd (dget_or (0, 0) m a)"
    and "\<And>a. fitsDecimal38 (fst (plus_totals (dget_or (0, 0) m a) a ls))
           \<and> fitsDecimal38 (snd (plus_totals (dget_or (0, 0) m a) a ls))"
  shows "\<exists>m'. validate_lines i m ls = Inr m'"
  using assms
proof (induction ls arbitrary: i m)
  case (Cons l ls)
  define t where "t = add_totals l (dget_or (0, 0) m (line_AssetID l))"
  have ok: "line_ok l" "list_all line_ok ls" using Cons.prems(1) by simp_all
  then have side: "line_Side l = Debit \<or> line_Side l = Credit" by (simp add: line_ok_def)
  have nn: "0 \<le> fst t \<and> 0 \<le> snd t"
    using ok(1) Cons.prems(2) [of "line_AssetID l"] by (auto simp: t_def add_totals_def line_ok_def)
  have fit: "fitsDecimal38 (fst (plus_totals t (line_AssetID l) ls))"
            "fitsDecimal38 (snd (plus_totals t (line_AssetID l) ls))"
    using Cons.prems(3) [of "line_AssetID l"] side by (simp_all add: plus_totals_Cons t_def)
  have "fitsDecimal38 (fst t)"
    using fit(1) by (rule fits_mono) (use nn side_total_nonneg [OF ok(2)] in \<open>simp add: plus_totals_def\<close>)
  moreover have "fitsDecimal38 (snd t)"
    using fit(2) by (rule fits_mono) (use nn side_total_nonneg [OF ok(2)] in \<open>simp add: plus_totals_def\<close>)
  moreover have "fitsDecimal38 (fst (plus_totals (dget_or (0, 0) m a) a ls))
      \<and> fitsDecimal38 (snd (plus_totals (dget_or (0, 0) m a) a ls))" if "a \<noteq> line_AssetID l" for a
    using Cons.prems(3) [of a] that side by (simp add: plus_totals_Cons)
  then have "\<exists>m'. validate_lines (Suc i) (dset (line_AssetID l) t m) ls = Inr m'"
    using ok(2) nn Cons.prems(2) fit by (intro Cons.IH) auto
  ultimately show ?case by (simp only: validate_lines_ok [OF ok(1) t_def])
qed simp

lemma validate_lines_fits:
  "validate_lines i m ls = Inr m' \<Longrightarrow>
   fitsDecimal38 (fst (dget_or (0, 0) m a)) \<Longrightarrow> fitsDecimal38 (fst (dget_or (0, 0) m' a))"
  by (induction i m ls rule: validate_lines.induct) (auto simp: Let_def split: if_splits)

lemma balanced_totals_None:
  "first_error balanced_totals (entries m) = None \<longleftrightarrow>
   (\<forall>a. fst (dget_or (0, 0) m a) = snd (dget_or (0, 0) m a))"
  unfolding first_error_entries
  by (auto simp: balanced_totals_def dget_or_def split: option.splits)

lemma validate_lines_balanced:
  "(\<exists>m. validate_lines 1 dempty ls = Inr m \<and> first_error balanced_totals (entries m) = None) \<longleftrightarrow>
   list_all line_ok ls \<and> (\<forall>a. side_total Debit a ls = side_total Credit a ls
                               \<and> fitsDecimal38 (side_total Debit a ls))"
  (is "?L \<longleftrightarrow> ?R")
proof
  assume ?R
  then have "\<exists>m. validate_lines 1 dempty ls = Inr m"
    by (intro validate_lines_complete) (simp_all add: plus_totals_def, metis)
  then obtain m where m: "validate_lines 1 dempty ls = Inr m" by blast
  with \<open>?R\<close> validate_lines_Inr [OF m] show ?L
    by (auto simp: balanced_totals_None plus_totals_def)
next
  assume ?L
  then obtain m where m: "validate_lines 1 dempty ls = Inr m"
    and b: "first_error balanced_totals (entries m) = None" by blast
  have "fitsDecimal38 (fst (dget_or (0, 0) m a))" for a
    using validate_lines_fits [OF m, of a] by simp
  with validate_lines_Inr [OF m] b show ?R
    by (auto simp: balanced_totals_None plus_totals_def)
qed

lemma Validate_iff_posting_ok: "PostRequest_Validate r = None \<longleftrightarrow> posting_ok r"
  using validate_lines_balanced [of "pr_Lines r"]
  by (auto simp: PostRequest_Validate_def posting_ok_def header_ok_def not_less
      split: option.splits sum.splits)

section \<open>Lemmas on the entry hash\<close>

lemma put_uint64_nonempty [simp]: "put_uint64 w \<noteq> []"
  by (metis length_put_uint64 list.size(3) zero_neq_numeral)

lemma writeBytes_Inr:
  "writeBytes v = Inr b \<longleftrightarrow> int (length v) < 256 ^ 4 \<and> b = framed 4 v"
  by (auto simp: writeBytes_def framed_def writeUint32_def put_uint32_def uint_word_of_int
      unsigned_of_nat take_bit_nat_eq_self take_bit_int_eq_self of_nat_take_bit)

lemma writeAll_Inr:
  "writeAll vs = Inr b \<Longrightarrow> (\<forall>v \<in> set vs. int (length v) < 256 ^ 4) \<and> b = framed_list 4 vs"
  by (induction vs arbitrary: b) (auto simp: writeBytes_Inr split: sum.splits)

lemma writeAll_append_inject:
  "writeAll vs = Inr b \<Longrightarrow> writeAll ws = Inr c \<Longrightarrow> length vs = length ws \<Longrightarrow>
   b @ r = c @ s \<longleftrightarrow> vs = ws \<and> r = s"
proof (induction vs arbitrary: ws b c)
  case (Cons v vs)
  obtain w ws' where ws: "ws = w # ws'" using Cons.prems(3) by (cases ws) auto
  obtain b0 b1 where b: "writeBytes v = Inr b0" "writeAll vs = Inr b1" "b = b0 @ b1"
    using Cons.prems(1) by (auto split: sum.splits)
  obtain c0 c1 where c: "writeBytes w = Inr c0" "writeAll ws' = Inr c1" "c = c0 @ c1"
    using Cons.prems(2) by (auto simp: ws split: sum.splits)
  have "b @ r = c @ s \<longleftrightarrow> v = w \<and> b1 @ r = c1 @ s"
    using b c by (simp add: writeBytes_Inr framed_append_inject)
  with Cons.IH [OF b(2) c(2)] Cons.prems(3) show ?case by (simp add: ws)
qed simp

lemma writeBytes_append_inject:
  "writeBytes v = Inr b \<Longrightarrow> writeBytes w = Inr c \<Longrightarrow> b @ r = c @ s \<longleftrightarrow> v = w \<and> r = s"
  by (simp add: writeBytes_Inr framed_append_inject)

lemma writeReference_append_inject:
  "writeReference v = Inr b \<Longrightarrow> writeReference w = Inr c \<Longrightarrow> b @ r = c @ s \<longleftrightarrow> v = w \<and> r = s"
  by (auto simp: writeReference_def writeBytes_append_inject split: option.splits sum.splits)

lemma writeLines_inject:
  "writeLines i ls = Inr b \<Longrightarrow> writeLines i ls' = Inr b \<Longrightarrow> ls = ls'"
proof (induction ls arbitrary: i ls' b)
  case Nil
  then show ?case by (cases ls') (auto simp: writeInt64_def split: sum.splits)
next
  case (Cons l ls)
  let ?f = "\<lambda>l. [line_AccountID l, line_AssetID l, line_Side l, line_Memo l, Amount_String (line_AmountAtoms l)]"
  obtain b0 b1 where b: "writeAll (?f l) = Inr b0" "writeLines (Suc i) ls = Inr b1"
      "b = writeInt64 (word_of_nat i) @ b0 @ b1"
    using Cons.prems(1) unfolding writeLines.simps by (auto simp del: writeAll.simps split: sum.splits)
  show ?case
  proof (cases ls')
    case Nil
    with b Cons.prems(2) show ?thesis by (auto simp: writeInt64_def)
  next
    case l': (Cons k ks)
    obtain c0 c1 where c: "writeAll (?f k) = Inr c0" "writeLines (Suc i) ks = Inr c1"
        "b = writeInt64 (word_of_nat i) @ c0 @ c1"
      using Cons.prems(2) unfolding l' writeLines.simps
      by (auto simp del: writeAll.simps split: sum.splits)
    have "?f l = ?f k \<and> b1 = c1"
      using b c by (subst writeAll_append_inject [OF b(1) c(1), symmetric]) auto
    moreover have "l = k"
      using calculation by (auto simp: Amount_String_def inj_show_int intro: Line.equality)
    ultimately show ?thesis using Cons.IH b(2) c(2) by (simp add: l')
  qed
qed

lemma canonical_entry_Inr:
  assumes "canonical_entry p n r m = Inr b"
  obtains hd ref meta ls where
    "writeAll [pr_TransactionID r, pr_BookID r, pr_OperationID r, pr_EffectID r, pr_Kind r,
               pr_PostingRuleVersion r] = Inr hd"
    "writeReference (pr_ReferenceTransactionID r) = Inr ref" "writeBytes m = Inr meta"
    "writeLines 1 (pr_Lines r) = Inr ls"
    "b = ledgerHashDomain @ p @ writeInt64 n @ hd @ writeInt64 (pr_SchemaVersion r) @ ref
         @ pr_RequestHash r @ meta @ writeUint32 (word_of_nat (length (pr_Lines r))) @ ls"
  using assms unfolding canonical_entry_def
  by (auto simp del: writeAll.simps writeLines.simps split: sum.splits)

lemma writeInt64_append_inject: "writeInt64 a @ r = writeInt64 b @ s \<longleftrightarrow> a = b \<and> r = s"
  by (simp add: writeInt64_def)

lemma canonical_entry_inject:
  fixes r r' :: PostRequest
  assumes "canonical_entry p n r m = Inr b" and "canonical_entry p' n' r' m' = Inr b"
    and len: "length p = 32" "length p' = 32" "length (pr_RequestHash r) = 32" "length (pr_RequestHash r') = 32"
  shows "p = p' \<and> n = n' \<and> m = m' \<and> r\<lparr>pr_Metadata := []\<rparr> = r'\<lparr>pr_Metadata := []\<rparr>"
proof -
  let ?H = "\<lambda>r. [pr_TransactionID r, pr_BookID r, pr_OperationID r, pr_EffectID r, pr_Kind r,
                 pr_PostingRuleVersion r]"
  obtain hd ref meta ls where 1: "writeAll (?H r) = Inr hd" "writeReference (pr_ReferenceTransactionID r) = Inr ref"
    "writeBytes m = Inr meta" "writeLines 1 (pr_Lines r) = Inr ls"
    "b = ledgerHashDomain @ p @ writeInt64 n @ hd @ writeInt64 (pr_SchemaVersion r) @ ref
         @ pr_RequestHash r @ meta @ writeUint32 (word_of_nat (length (pr_Lines r))) @ ls"
    using canonical_entry_Inr [OF assms(1)] .
  obtain hd' ref' meta' ls' where 2: "writeAll (?H r') = Inr hd'" "writeReference (pr_ReferenceTransactionID r') = Inr ref'"
    "writeBytes m' = Inr meta'" "writeLines 1 (pr_Lines r') = Inr ls'"
    "b = ledgerHashDomain @ p' @ writeInt64 n' @ hd' @ writeInt64 (pr_SchemaVersion r') @ ref'
         @ pr_RequestHash r' @ meta' @ writeUint32 (word_of_nat (length (pr_Lines r'))) @ ls'"
    using canonical_entry_Inr [OF assms(2)] .
  have len32: "length (writeUint32 v) = 4" for v by (simp add: writeUint32_def)
  have "ledgerHashDomain @ p @ writeInt64 n @ hd @ writeInt64 (pr_SchemaVersion r) @ ref
         @ pr_RequestHash r @ meta @ writeUint32 (word_of_nat (length (pr_Lines r))) @ ls =
      ledgerHashDomain @ p' @ writeInt64 n' @ hd' @ writeInt64 (pr_SchemaVersion r') @ ref'
         @ pr_RequestHash r' @ meta' @ writeUint32 (word_of_nat (length (pr_Lines r'))) @ ls'"
    using 1(5) 2(5) by simp
  then have eq: "p = p' \<and> n = n' \<and> ?H r = ?H r' \<and> pr_SchemaVersion r = pr_SchemaVersion r'
      \<and> pr_ReferenceTransactionID r = pr_ReferenceTransactionID r' \<and> pr_RequestHash r = pr_RequestHash r'
      \<and> m = m' \<and> ls = ls'"
    using len
    by (simp add: writeInt64_append_inject writeAll_append_inject [OF 1(1) 2(1)] len32
        writeReference_append_inject [OF 1(2) 2(2)] writeBytes_append_inject [OF 1(3) 2(3)]
        del: writeAll.simps)
  with writeLines_inject [OF 1(4)] 2(4) have "pr_Lines r = pr_Lines r'" by simp
  with eq show ?thesis by (intro conjI PostRequest.equality) simp_all
qed

lemma HashEntry_Inr:
  assumes "HashEntry p n r = Inr h"
  obtains m b where "CanonicalJSON (pr_Metadata r) = Some m" "canonical_entry p n r m = Inr b"
    "h = sha256 b" "hash_input p n r = b"
  using assms by (auto simp: HashEntry_def hash_input_def split: if_splits option.splits sum.splits)

section \<open>An example\<close>

definition example_line :: "string \<Rightarrow> Side \<Rightarrow> Line" where
  "example_line account side = \<lparr>line_AccountID = account, line_AssetID = ''USD'', line_Side = side,
     line_AmountAtoms = 125, line_Memo = []\<rparr>"

definition example_posting :: PostRequest where
  "example_posting = \<lparr>pr_TransactionID = ''tx-1'', pr_BookID = ''book'', pr_OperationID = ''op-1'',
     pr_EffectID = ''effect-1'', pr_Kind = ''PAYMENT'', pr_ReferenceTransactionID = None,
     pr_PostingRuleVersion = ''v1'', pr_SchemaVersion = 1, pr_RequestHash = zero_hash,
     pr_Metadata = ''{}'', pr_Lines = [example_line ''payer'' Debit, example_line ''merchant'' Credit]\<rparr>"

lemma example_posting_simps:
  "pr_Metadata example_posting = ''{}''" "length (pr_RequestHash example_posting) = 32"
  by (simp_all add: example_posting_def)

lemma example_posting_valid:
  "PostRequest_Validate example_posting = None"
  "PostRequest_Validate (example_posting\<lparr>pr_Metadata := ''{ }''\<rparr>) = None"
  by code_simp+

lemma example_posting_bytes:
  obtains m b where "CanonicalJSON ''{}'' = Some m" "CanonicalJSON ''{ }'' = Some m"
    "canonical_entry zero_hash 1 example_posting m = Inr b"
    "canonical_entry zero_hash 1 (example_posting\<lparr>pr_Metadata := ''{ }''\<rparr>) m = Inr b"
proof -
  have m: "CanonicalJSON ''{}'' = Some ''{}''" "CanonicalJSON ''{ }'' = Some ''{}''" by code_simp+
  have "(case canonical_entry zero_hash 1 example_posting ''{}'' of Inl e \<Rightarrow> False
    | Inr b \<Rightarrow> canonical_entry zero_hash 1 (example_posting\<lparr>pr_Metadata := ''{ }''\<rparr>) ''{}'' = Inr b)"
    by code_simp
  then show thesis using that [OF m] by (auto split: sum.splits)
qed

section \<open>Properties\<close>

text \<open>
  C18: \<^verbatim>\<open>PostRequest.Validate\<close> accepts a request exactly when its header is complete, every line is
  positive and names an account, an asset and a side, and for every asset the debits equal the credits
  and fit 38 digits. The specification \<open>posting_ok\<close> does not mention the running totals of the code.
\<close>
theorem posting_validation_exact: "PostRequest_Validate r = None \<longleftrightarrow> posting_ok r"
  by (rule Validate_iff_posting_ok)

text \<open>
  C19: The entry hash commits to the whole entry: if \<^verbatim>\<open>HashEntry\<close> returns one hash for two entries and
  SHA-256 does not collide on the two canonical buffers, then the previous hash, the sequence number,
  every header field, the canonical metadata and the ordered lines agree.
\<close>
theorem entry_hash_commits:
  fixes r r' :: PostRequest
  assumes "HashEntry p n r = Inr h" "HashEntry p' n' r' = Inr h"
    and "length p = 32" "length p' = 32" "length (pr_RequestHash r) = 32" "length (pr_RequestHash r') = 32"
    and nocoll: "inj_on sha256 {hash_input p n r, hash_input p' n' r'}"
  shows "p = p' \<and> n = n' \<and> CanonicalJSON (pr_Metadata r) = CanonicalJSON (pr_Metadata r')
    \<and> r\<lparr>pr_Metadata := []\<rparr> = r'\<lparr>pr_Metadata := []\<rparr>"
proof -
  obtain m b where 1: "CanonicalJSON (pr_Metadata r) = Some m" "canonical_entry p n r m = Inr b"
      "h = sha256 b" "hash_input p n r = b"
    using assms(1) by (rule HashEntry_Inr)
  obtain m' b' where 2: "CanonicalJSON (pr_Metadata r') = Some m'" "canonical_entry p' n' r' m' = Inr b'"
      "h = sha256 b'" "hash_input p' n' r' = b'"
    using assms(2) by (rule HashEntry_Inr)
  have "b = b'" using nocoll 1(3) 2(3) unfolding 1(4) 2(4) by (auto dest: inj_onD)
  then have "canonical_entry p' n' r' m' = Inr b" using 2(2) by simp
  from canonical_entry_inject [OF 1(2) this assms(3-6)] show ?thesis by (simp only: 1(1) 2(1))
qed


theorem entry_hash_commits_witness:
  "\<exists>h. HashEntry zero_hash 1 example_posting = Inr h
     \<and> HashEntry zero_hash 1 (example_posting\<lparr>pr_Metadata := ''{ }''\<rparr>) = Inr h
     \<and> CanonicalJSON ''{}'' = CanonicalJSON ''{ }''"
proof -
  let ?r = "example_posting\<lparr>pr_Metadata := ''{ }''\<rparr>"
  obtain m b where b: "CanonicalJSON ''{}'' = Some m" "CanonicalJSON ''{ }'' = Some m"
    "canonical_entry zero_hash 1 example_posting m = Inr b"
    "canonical_entry zero_hash 1 ?r m = Inr b"
    by (rule example_posting_bytes)
  have 1: "HashEntry zero_hash 1 example_posting = Inr (sha256 b)"
    using b example_posting_valid by (simp add: HashEntry_def example_posting_simps word_sless_alt)
  have 2: "HashEntry zero_hash 1 ?r = Inr (sha256 b)"
    using b example_posting_valid by (simp add: HashEntry_def example_posting_simps word_sless_alt)
  have "inj_on sha256 {hash_input zero_hash 1 example_posting, hash_input zero_hash 1 ?r}"
    using b by (simp add: hash_input_def example_posting_simps)
  from entry_hash_commits [OF 1 2 _ _ _ _ this] 1 2 show ?thesis
    by (auto simp: example_posting_simps)
qed

end
