(* ===== verification/Sim_World.thy ===== *)
theory Sim_World
  imports Sim_Certificate Network Ledger_Posting
begin

text \<open>
  The state of the failure simulator and its journal: \<^verbatim>\<open>internal/failuresim/types.go\<close> and
  \<^verbatim>\<open>internal/failuresim/world.go\<close>.

  \<open>World\<close> has the fields of the Go struct without the mutex. A pointer stored in a map is the record it
  points to; writing through the pointer updates the entry. A method that holds the mutex from its
  first to its last access is one function of the state.
\<close>

section \<open>Data\<close>

datatype world_error =
    ErrInvalidConfiguration
  | ErrRegionDown
  | ErrNoQuorum
  | ErrStaleEpoch
  | ErrInsufficientFunds
  | ErrInsufficientRights
  | ErrIdempotencyConflict
  | ErrEffectConflict
  | ErrResponseLost
  | ErrCrashBeforeCommit
  | ErrCrashAfterCommit
  | ErrPaymentNotFound
  | ErrRefundExceeded
  | ErrTransferInvalid
  | ErrTransferConflict
  | ErrConsumerCrash
  | ErrCoordinatorDown
  | ErrCoordinatorCrash
  | ErrExternalTimeout
  | ErrCashbackExceeded
  | ErrLedger ledger_error
  | ErrTransport sim_error
  | ErrWorldOther string

abbreviation ErrInvalidPosting0 :: world_error where
  "ErrInvalidPosting0 \<equiv> ErrLedger (ErrInvalidPosting [])"

definition UserAccount :: string where "UserAccount = ''wallet:customer''"
definition MerchantAccount :: string where "MerchantAccount = ''payable:merchant''"
definition FundingAccount :: string where "FundingAccount = ''clearing:funding''"
definition CashbackExpenseAccount :: string where "CashbackExpenseAccount = ''expense:cashback''"
definition AuthorityIssuerAccount :: string where "AuthorityIssuerAccount = ''authority:issuer''"
definition AuthorityConsumedAccount :: string where "AuthorityConsumedAccount = ''authority:consumed''"
definition AuthorityTransitAccount :: string where "AuthorityTransitAccount = ''authority:in-transit''"
definition AuthorityUnallocatedAccount :: string where
  "AuthorityUnallocatedAccount = ''authority:unallocated''"

definition RegionalAuthorityAccount :: "string \<Rightarrow> string" where
  "RegionalAuthorityAccount region = ''authority:region:'' @ region"

record Config =
  cfg_Asset :: string
  cfg_InitialBalance :: amount
  cfg_CreditLimit :: amount
  cfg_Unallocated :: amount
  cfg_RegionalRights :: "(string, amount) dict"
  cfg_CertificateKey :: bytes

record WFence =
  fence_Region :: string
  fence_Epoch :: uint64

record JournalLine =
  jl_Account :: string
  jl_Asset :: string
  jl_Side :: Side
  jl_Amount :: amount

record JournalTransaction =
  jt_Sequence :: uint64
  jt_ID :: string
  jt_EffectID :: string
  jt_Kind :: string
  jt_RequestHash :: bytes
  jt_PreviousHash :: bytes
  jt_Hash :: bytes
  jt_Lines :: "JournalLine list"

record Receipt =
  rc_IdempotencyKey :: string
  rc_EffectID :: string
  rc_TransactionID :: string
  rc_CommitSequence :: uint64
  rc_Duplicate :: bool

definition zeroReceipt :: Receipt where
  "zeroReceipt = \<lparr>rc_IdempotencyKey = [], rc_EffectID = [], rc_TransactionID = [],
     rc_CommitSequence = 0, rc_Duplicate = False\<rparr>"

type_synonym PaymentState = string

definition PaymentCaptured :: PaymentState where "PaymentCaptured = ''CAPTURED''"
definition PaymentPartiallyRefunded :: PaymentState where "PaymentPartiallyRefunded = ''PARTIALLY_REFUNDED''"
definition PaymentRefunded :: PaymentState where "PaymentRefunded = ''REFUNDED''"
definition PaymentReversed :: PaymentState where "PaymentReversed = ''REVERSED''"
definition PaymentDisputed :: PaymentState where "PaymentDisputed = ''DISPUTED''"

record OutboxRecord =
  ob_MessageID :: string
  ob_Kind :: string
  ob_SourceRegion :: string
  ob_DestinationRegion :: string
  ob_ParentTransactionID :: string
  ob_Payload :: bytes
  ob_Attempts :: uint64
  ob_Acknowledged :: bool

record InboxRecord =
  ib_MessageID :: string
  ib_PayloadHash :: bytes
  ib_EffectID :: string
  ib_DuplicateDeliveries :: uint64

record SagaSnapshot =
  ss_SagaID :: string
  ss_Region :: string
  ss_OperationID :: string
  ss_Amount :: amount
  ss_NextStep :: int
  ss_Completed :: bool
  ss_PaymentReceipt :: Receipt

record FraudVerdictSnapshot =
  fv_EventID :: string
  fv_PaymentID :: string
  fv_Fraudulent :: bool
  fv_DueTick :: uint64
  fv_Processed :: bool

record regionState =
  rs_epoch :: uint64
  rs_running :: bool
  rs_rights :: amount

record effectRecord =
  ef_fingerprint :: bytes
  ef_receipt :: Receipt

record idempotencyRecord =
  id_requestHash :: bytes
  id_receipt :: Receipt

record paymentState =
  pm_operationID :: string
  pm_region :: string
  pm_authorized :: amount
  pm_captured :: amount
  pm_refunded :: amount
  pm_reversed :: amount
  pm_chargedBack :: amount
  pm_state :: PaymentState
  pm_receipt :: Receipt

record transferState =
  tr_certificate :: TransferCertificate
  tr_inTransit :: bool
  tr_consumed :: bool
  tr_sourceAcknowledged :: bool
  tr_consumeReceipt :: Receipt

record World =
  w_asset :: string
  w_authorityAsset :: string
  w_creditLimit :: amount
  w_unallocated :: amount
  w_authorityTotal :: amount
  w_certificateKey :: bytes
  w_regions :: "(string, regionState) dict"
  w_balances :: "(string, amount) dict"
  w_journal :: "JournalTransaction list"
  w_effects :: "(string, effectRecord) dict"
  w_idempotency :: "(string, idempotencyRecord) dict"
  w_payments :: "(string, paymentState) dict"
  w_refunds :: "(string, amount) dict"
  w_cashbackRules :: "(string, amount) dict"
  w_cashbackPaid :: "(string, amount) dict"
  w_transfers :: "(string, transferState) dict"
  w_outbox :: "(string, OutboxRecord) dict"
  w_inbox :: "(string, InboxRecord) dict"
  w_sequence :: uint64
  w_headHash :: bytes
  w_loseResponses :: "(string, go_int) dict"
  w_crashBeforeCommit :: "(string, go_int) dict"
  w_crashAfterCommit :: "(string, go_int) dict"
  w_consumerCrash :: "(string, go_int) dict"
  w_coordinatorRunning :: bool
  w_coordinatorCrashAfter :: "(string, go_int) dict"
  w_sagas :: "(string, SagaSnapshot) dict"
  w_logicalTick :: uint64
  w_fraudVerdicts :: "(string, FraudVerdictSnapshot) dict"
  w_dcHealthy :: "(string, bool) dict"
  w_replicas :: "string list"
  w_quorum :: nat
  w_network :: Network

section \<open>Journal\<close>

definition requestFingerprint :: "string list \<Rightarrow> bytes" where
  "requestFingerprint parts =
     sha256 (''payment-platform/failuresim/request/v1'' @ [CHR 0x00] @ concat (map writeLengthPrefixed parts))"

definition hashTransaction :: "JournalTransaction \<Rightarrow> bytes" where
  "hashTransaction t =
     sha256 (''payment-platform/failuresim/journal/v1'' @ [CHR 0x00] @ jt_PreviousHash t
       @ put_uint64 (jt_Sequence t)
       @ concat (map writeLengthPrefixed [jt_ID t, jt_EffectID t, jt_Kind t])
       @ jt_RequestHash t
       @ concat (map (\<lambda>l. concat (map writeLengthPrefixed
           [jl_Account l, jl_Asset l, jl_Side l, Amount_String (jl_Amount l)])) (jt_Lines t)))"

type_synonym asset_totals = "(string, amount \<times> amount) dict"

text \<open>The loop of \<^verbatim>\<open>postLocked\<close> over the lines: totals per asset and prospective balances per account.\<close>

fun post_lines :: "(string, amount) dict \<Rightarrow> JournalLine list \<Rightarrow> asset_totals \<Rightarrow> (string, amount) dict \<Rightarrow>
    world_error + asset_totals \<times> (string, amount) dict" where
  "post_lines balances [] perAsset prospective = Inr (perAsset, prospective)"
| "post_lines balances (l # ls) perAsset prospective =
     (if jl_Account l = [] \<or> jl_Asset l = [] \<or> Amount_Sign (jl_Amount l) \<le> 0
         \<or> (jl_Side l \<noteq> Debit \<and> jl_Side l \<noteq> Credit)
      then Inl ErrInvalidPosting0
      else
        let total = dget_or (0, 0) perAsset (jl_Asset l)
        in case (if jl_Side l = Debit
                 then map_sum id (\<lambda>d. (d, snd total)) (Amount_Add (fst total) (jl_Amount l))
                 else map_sum id (\<lambda>c. (fst total, c)) (Amount_Add (snd total) (jl_Amount l))) of
             Inl e \<Rightarrow> Inl (ErrLedger e)
           | Inr total' \<Rightarrow>
               let balance = (case dget prospective (jl_Account l) of
                                Some b \<Rightarrow> b | None \<Rightarrow> dget_or 0 balances (jl_Account l))
               in case (if jl_Side l = Credit then Amount_Add balance (jl_Amount l)
                        else Amount_Sub balance (jl_Amount l)) of
                    Inl e \<Rightarrow> Inl (ErrLedger e)
                  | Inr balance' \<Rightarrow>
                      post_lines balances ls (dset (jl_Asset l) total' perAsset)
                        (dset (jl_Account l) balance' prospective))"

definition unbalanced_asset :: "string \<times> amount \<times> amount \<Rightarrow> world_error option" where
  "unbalanced_asset = (\<lambda>(asset, debit, credit).
     if Amount_Cmp debit credit \<noteq> 0 then Some (ErrLedger (ErrUnbalanced asset)) else None)"

definition dict_merge :: "('k, 'v) dict \<Rightarrow> ('k, 'v) dict \<Rightarrow> ('k, 'v) dict" where
  "dict_merge m p = fold (\<lambda>(k, v). dset k v) (entries p) m"

definition transaction_id :: "uint64 \<Rightarrow> string" where
  "transaction_id sequence = ''tx-'' @ pad_left 20 (dec_digits (unat sequence))"

definition postLocked ::
  "string \<Rightarrow> string \<Rightarrow> bytes \<Rightarrow> JournalLine list \<Rightarrow> World \<Rightarrow> World \<times> (world_error + Receipt)" where
  "postLocked effectID kind fingerprint lines w =
     (if effectID = [] \<or> kind = [] \<or> length lines < 2 then (w, Inl ErrEffectConflict)
      else case dget (w_effects w) effectID of
        Some existing \<Rightarrow>
          if ef_fingerprint existing \<noteq> fingerprint then (w, Inl ErrEffectConflict)
          else (w, Inr ((ef_receipt existing)\<lparr>rc_Duplicate := True\<rparr>))
      | None \<Rightarrow>
          (case post_lines (w_balances w) lines dempty dempty of
             Inl e \<Rightarrow> (w, Inl e)
           | Inr (perAsset, prospective) \<Rightarrow>
               (case first_error unbalanced_asset (entries perAsset) of
                  Some e \<Rightarrow> (w, Inl e)
                | None \<Rightarrow>
                    let sequence = w_sequence w + 1;
                        transactionID = transaction_id sequence;
                        t0 = \<lparr>jt_Sequence = sequence, jt_ID = transactionID, jt_EffectID = effectID,
                              jt_Kind = kind, jt_RequestHash = fingerprint, jt_PreviousHash = w_headHash w,
                              jt_Hash = zero_hash, jt_Lines = lines\<rparr>;
                        t = t0\<lparr>jt_Hash := hashTransaction t0\<rparr>;
                        receipt = \<lparr>rc_IdempotencyKey = [], rc_EffectID = effectID,
                                   rc_TransactionID = transactionID, rc_CommitSequence = sequence,
                                   rc_Duplicate = False\<rparr>
                    in (w\<lparr>w_balances := dict_merge (w_balances w) prospective,
                          w_sequence := sequence,
                          w_headHash := jt_Hash t,
                          w_journal := w_journal w @ [t],
                          w_effects := dset effectID \<lparr>ef_fingerprint = fingerprint, ef_receipt = receipt\<rparr>
                                         (w_effects w)\<rparr>,
                        Inr receipt))))"

section \<open>Fencing and faults\<close>

definition hasQuorumLocked :: "World \<Rightarrow> bool" where
  "hasQuorumLocked w \<longleftrightarrow>
     w_quorum w \<le> length (filter (\<lambda>dc. dget_or False (w_dcHealthy w) dc) (w_replicas w))"

definition requireWriterLocked :: "WFence \<Rightarrow> World \<Rightarrow> world_error + regionState" where
  "requireWriterLocked fence w =
     (case dget (w_regions w) (fence_Region fence) of
        None \<Rightarrow> Inl ErrRegionDown
      | Some region \<Rightarrow>
          if \<not> rs_running region then Inl ErrRegionDown
          else if rs_epoch region \<noteq> fence_Epoch fence then Inl ErrStaleEpoch
          else if \<not> hasQuorumLocked w then Inl ErrNoQuorum
          else Inr region)"

definition World_Fence :: "string \<Rightarrow> World \<Rightarrow> world_error + WFence" where
  "World_Fence region w =
     (case dget (w_regions w) region of
        None \<Rightarrow> Inl ErrRegionDown
      | Some state \<Rightarrow> if \<not> rs_running state then Inl ErrRegionDown
                      else Inr \<lparr>fence_Region = region, fence_Epoch = rs_epoch state\<rparr>)"

definition setRunning :: "string \<Rightarrow> bool \<Rightarrow> World \<Rightarrow> World" where
  "setRunning region b w = w\<lparr>w_regions := dmodify region (\<lambda>r. r\<lparr>rs_running := b\<rparr>) (w_regions w)\<rparr>"

definition setRights :: "string \<Rightarrow> amount \<Rightarrow> World \<Rightarrow> World" where
  "setRights region a w = w\<lparr>w_regions := dmodify region (\<lambda>r. r\<lparr>rs_rights := a\<rparr>) (w_regions w)\<rparr>"

definition onNetwork :: "(Network \<Rightarrow> Network) \<Rightarrow> World \<Rightarrow> World" where
  "onNetwork f w = w\<lparr>w_network := f (w_network w)\<rparr>"

definition CrashRegion :: "string \<Rightarrow> World \<Rightarrow> World \<times> world_error option" where
  "CrashRegion region w =
     (if dget (w_regions w) region = None then (w, Some ErrRegionDown)
      else (onNetwork (Network_Crash region) (setRunning region False w), None))"

definition RestartRegion :: "string \<Rightarrow> World \<Rightarrow> World \<times> world_error option" where
  "RestartRegion region w =
     (if dget (w_regions w) region = None then (w, Some ErrRegionDown)
      else (onNetwork (Network_Restart region)
              (w\<lparr>w_regions := dmodify region (\<lambda>r. r\<lparr>rs_epoch := rs_epoch r + 1, rs_running := True\<rparr>)
                  (w_regions w)\<rparr>), None))"

definition CrashDC :: "string \<Rightarrow> World \<Rightarrow> World \<times> world_error option" where
  "CrashDC dc w = (if dget (w_dcHealthy w) dc = None then (w, Some ErrInvalidConfiguration)
     else (w\<lparr>w_dcHealthy := dset dc False (w_dcHealthy w)\<rparr>, None))"

definition RestartDC :: "string \<Rightarrow> World \<Rightarrow> World \<times> world_error option" where
  "RestartDC dc w = (if dget (w_dcHealthy w) dc = None then (w, Some ErrInvalidConfiguration)
     else (w\<lparr>w_dcHealthy := dset dc True (w_dcHealthy w)\<rparr>, None))"

definition bump :: "string \<Rightarrow> (string, go_int) dict \<Rightarrow> (string, go_int) dict" where
  "bump key m = dset key (dget_or 0 m key + 1) m"

definition World_LoseResponse :: "string \<Rightarrow> World \<Rightarrow> World" where
  "World_LoseResponse key w = w\<lparr>w_loseResponses := bump key (w_loseResponses w)\<rparr>"

definition CrashBeforeCommit :: "string \<Rightarrow> World \<Rightarrow> World" where
  "CrashBeforeCommit key w = w\<lparr>w_crashBeforeCommit := bump key (w_crashBeforeCommit w)\<rparr>"

definition CrashAfterCommit :: "string \<Rightarrow> World \<Rightarrow> World" where
  "CrashAfterCommit key w = w\<lparr>w_crashAfterCommit := bump key (w_crashAfterCommit w)\<rparr>"

section \<open>Observers\<close>

record RegionSnapshot =
  rsn_Region :: string
  rsn_Epoch :: uint64
  rsn_Running :: bool
  rsn_Rights :: amount

definition World_Region :: "string \<Rightarrow> World \<Rightarrow> RegionSnapshot option" where
  "World_Region region w = map_option (\<lambda>s. \<lparr>rsn_Region = region, rsn_Epoch = rs_epoch s,
     rsn_Running = rs_running s, rsn_Rights = rs_rights s\<rparr>) (dget (w_regions w) region)"

definition World_Balance :: "string \<Rightarrow> World \<Rightarrow> amount" where
  "World_Balance account w = dget_or 0 (w_balances w) account"

definition World_Rights :: "string \<Rightarrow> World \<Rightarrow> amount" where
  "World_Rights region w = (case dget (w_regions w) region of None \<Rightarrow> 0 | Some s \<Rightarrow> rs_rights s)"

definition World_Journal :: "World \<Rightarrow> JournalTransaction list" where
  "World_Journal w = w_journal w"

definition EffectCount :: "string \<Rightarrow> World \<Rightarrow> nat" where
  "EffectCount effectID w = length (filter (\<lambda>t. jt_EffectID t = effectID) (w_journal w))"

definition World_Payment :: "string \<Rightarrow> World \<Rightarrow> paymentState option" where
  "World_Payment operationID w = dget (w_payments w) operationID"

text \<open>
  \<^verbatim>\<open>total, _ = total.Add(...)\<close>: on overflow the error is dropped and the total becomes the zero amount that
  \<^verbatim>\<open>Add\<close> returns beside the error.
\<close>

definition add_or_zero :: "amount \<Rightarrow> amount \<Rightarrow> amount" where
  "add_or_zero a b = (case Amount_Add a b of Inl e \<Rightarrow> 0 | Inr c \<Rightarrow> c)"

definition GrossCaptured :: "World \<Rightarrow> amount" where
  "GrossCaptured w = foldl (\<lambda>total p. add_or_zero total (pm_captured (snd p))) 0 (entries (w_payments w))"

definition verifyCertificateLocked :: "TransferCertificate \<Rightarrow> World \<Rightarrow> bool" where
  "verifyCertificateLocked c w =
     (if tc_TransferID c = [] \<or> tc_Asset c \<noteq> w_asset w \<or> tc_SourceRegion c = []
         \<or> tc_DestinationRegion c = [] \<or> tc_SourceRegion c = tc_DestinationRegion c
         \<or> Amount_Sign (tc_Amount c) \<le> 0 \<or> tc_SourceEpoch c = 0 \<or> tc_CommitSequence c = 0
      then False
      else certificateProof (w_certificateKey w) c = tc_CommitProof c)"

fun amountSum_from :: "amount \<Rightarrow> amount list \<Rightarrow> ledger_error + amount" where
  "amountSum_from acc [] = Inr acc"
| "amountSum_from acc (v # vs) =
     (case Amount_Add acc v of Inl e \<Rightarrow> Inl e | Inr t \<Rightarrow> amountSum_from t vs)"

definition amountSum :: "amount list \<Rightarrow> ledger_error + amount" where
  "amountSum vs = amountSum_from 0 vs"

definition isExpectedOperationalError :: "world_error \<Rightarrow> bool" where
  "isExpectedOperationalError e \<longleftrightarrow> e = ErrInsufficientFunds \<or> e = ErrInsufficientRights
     \<or> e = ErrRegionDown \<or> e = ErrNoQuorum \<or> e = ErrStaleEpoch"

section \<open>Initial state\<close>

definition authorityAssetPrefix :: string where
  "authorityAssetPrefix = ''AUTHORITY/''"

text \<open>The loop over \<^verbatim>\<open>config.RegionalRights\<close>.\<close>

fun init_regions :: "(string \<times> amount) list \<Rightarrow> amount \<Rightarrow> (string, regionState) dict \<Rightarrow>
    world_error + amount \<times> (string, regionState) dict" where
  "init_regions [] acc regions = Inr (acc, regions)"
| "init_regions ((name, a) # rest) acc regions =
     (if name = [] \<or> Amount_Sign a < 0 then Inl ErrInvalidConfiguration
      else case Amount_Add acc a of
        Inl e \<Rightarrow> Inl (ErrLedger e)
      | Inr acc' \<Rightarrow> init_regions rest acc'
          (dset name \<lparr>rs_epoch = 1, rs_running = True, rs_rights = a\<rparr> regions))"

definition default_regions :: "(string, regionState) dict" where
  "default_regions = fold (\<lambda>name. dset name \<lparr>rs_epoch = 1, rs_running = True, rs_rights = 0\<rparr>)
     [''A'', ''B'', ''C''] dempty"

definition sortedRegionNames :: "(string, regionState) dict \<Rightarrow> string list" where
  "sortedRegionNames regions = sort (map fst (entries regions))"

definition dc_name :: "nat \<Rightarrow> string" where
  "dc_name i = ''dc'' @ pad_left 2 (dec_digits i)"

definition default_key :: bytes where
  "default_key = sha256 ''payment-platform/failuresim/deterministic-certificate-key/v1''"

definition mk_line :: "string \<Rightarrow> string \<Rightarrow> Side \<Rightarrow> amount \<Rightarrow> JournalLine" where
  "mk_line account asset side a = \<lparr>jl_Account = account, jl_Asset = asset, jl_Side = side, jl_Amount = a\<rparr>"

definition genesis_lines ::
  "string \<Rightarrow> amount \<Rightarrow> amount \<Rightarrow> amount \<Rightarrow> (string, regionState) dict \<Rightarrow> JournalLine list" where
  "genesis_lines asset initial authority unallocated regions =
     (let authorityAsset = authorityAssetPrefix @ asset in
      (if 0 < Amount_Sign initial
       then [mk_line FundingAccount asset Debit initial, mk_line UserAccount asset Credit initial]
       else [])
      @ (if 0 < Amount_Sign authority
         then [mk_line AuthorityIssuerAccount authorityAsset Debit authority]
           @ (if 0 < Amount_Sign unallocated
              then [mk_line AuthorityUnallocatedAccount authorityAsset Credit unallocated] else [])
           @ concat (map (\<lambda>name. case dget regions name of
                 None \<Rightarrow> []
               | Some r \<Rightarrow> if 0 < Amount_Sign (rs_rights r)
                           then [mk_line (RegionalAuthorityAccount name) authorityAsset Credit (rs_rights r)]
                           else [])
               (sortedRegionNames regions))
         else []))"

definition empty_world :: "Config \<Rightarrow> uint64 \<Rightarrow> amount \<Rightarrow> (string, regionState) dict \<Rightarrow> World" where
  "empty_world config seed authority regions = \<lparr>
     w_asset = cfg_Asset config, w_authorityAsset = authorityAssetPrefix @ cfg_Asset config,
     w_creditLimit = cfg_CreditLimit config, w_unallocated = cfg_Unallocated config,
     w_authorityTotal = authority,
     w_certificateKey = (if cfg_CertificateKey config = [] then default_key else cfg_CertificateKey config),
     w_regions = regions, w_balances = dempty, w_journal = [], w_effects = dempty, w_idempotency = dempty,
     w_payments = dempty, w_refunds = dempty, w_cashbackRules = dempty, w_cashbackPaid = dempty,
     w_transfers = dempty, w_outbox = dempty, w_inbox = dempty, w_sequence = 0, w_headHash = zero_hash,
     w_loseResponses = dempty, w_crashBeforeCommit = dempty, w_crashAfterCommit = dempty,
     w_consumerCrash = dempty, w_coordinatorRunning = True, w_coordinatorCrashAfter = dempty,
     w_sagas = dempty, w_logicalTick = 0, w_fraudVerdicts = dempty,
     w_dcHealthy = fold (\<lambda>i. dset (dc_name i) True) [1..<13] dempty,
     w_replicas = map dc_name [1..<8], w_quorum = 4, w_network = NewNetwork seed\<rparr>"

definition NewWorld :: "Config \<Rightarrow> uint64 \<Rightarrow> world_error + World" where
  "NewWorld config seed =
     (if cfg_Asset config = [] \<or> Amount_Sign (cfg_InitialBalance config) < 0
         \<or> Amount_Sign (cfg_CreditLimit config) < 0 \<or> Amount_Sign (cfg_Unallocated config) < 0
      then Inl ErrInvalidConfiguration
      else case Amount_Add (cfg_InitialBalance config) (cfg_CreditLimit config) of
        Inl e \<Rightarrow> Inl (ErrLedger e)
      | Inr authority \<Rightarrow>
          (case init_regions (entries (cfg_RegionalRights config)) (cfg_Unallocated config) default_regions of
             Inl e \<Rightarrow> Inl e
           | Inr (rightsTotal, regions) \<Rightarrow>
               if Amount_Cmp rightsTotal authority \<noteq> 0 then Inl ErrInvalidConfiguration
               else
                 let world = empty_world config seed authority regions;
                     lines = genesis_lines (cfg_Asset config) (cfg_InitialBalance config) authority
                               (cfg_Unallocated config) regions
                 in if lines = [] then Inr world
                    else
                      let fingerprint = requestFingerprint [''GENESIS'', cfg_Asset config,
                            Amount_String (cfg_InitialBalance config), Amount_String (cfg_CreditLimit config)]
                      in (case postLocked ''genesis'' ''GENESIS'' fingerprint lines world of
                            (_, Inl e) \<Rightarrow> Inl e
                          | (w, Inr _) \<Rightarrow> Inr w)))"

end
