(* ===== verification/Sim_Operations.thy ===== *)
theory Sim_Operations
  imports Sim_World
begin

text \<open>
  The money operations of \<^verbatim>\<open>internal/failuresim/operations.go\<close>: payments, deposits, refunds, reversals,
  chargebacks and cashback. An operation that first asks for a fence and then takes the lock again is
  split at that point, so that \<open>Deposit_locked\<close>, \<open>releaseCapture_locked\<close> and \<open>GrantCashback_locked\<close> can be run
  under a fence that has become stale in between.
\<close>

section \<open>Shared steps\<close>

type_synonym op_result = "World \<times> Receipt \<times> world_error option"

definition consumeCounter :: "(string, go_int) dict \<Rightarrow> string \<Rightarrow> bool \<times> (string, go_int) dict" where
  "consumeCounter values key =
     (if dget_or 0 values key \<le>s 0 then (False, values)
      else (True, dset key (dget_or 0 values key - 1) values))"

definition zeroOutbox :: OutboxRecord where
  "zeroOutbox = \<lparr>ob_MessageID = [], ob_Kind = [], ob_SourceRegion = [], ob_DestinationRegion = [],
     ob_ParentTransactionID = [], ob_Payload = [], ob_Attempts = 0, ob_Acknowledged = False\<rparr>"

definition event_id :: "Receipt \<Rightarrow> string \<Rightarrow> string" where
  "event_id receipt kind = ''event:'' @ rc_TransactionID receipt @ '':'' @ kind"

definition outbox_record :: "Receipt \<Rightarrow> string \<Rightarrow> string \<Rightarrow> string \<Rightarrow> bytes \<Rightarrow> OutboxRecord" where
  "outbox_record receipt kind source destination payload =
     zeroOutbox\<lparr>ob_MessageID := event_id receipt kind, ob_Kind := kind, ob_SourceRegion := source,
       ob_DestinationRegion := destination, ob_ParentTransactionID := rc_TransactionID receipt,
       ob_Payload := payload\<rparr>"

definition addOutboxLocked :: "Receipt \<Rightarrow> string \<Rightarrow> string \<Rightarrow> string \<Rightarrow> bytes \<Rightarrow> World \<Rightarrow> World" where
  "addOutboxLocked receipt kind source destination payload w =
     w\<lparr>w_outbox := dset (event_id receipt kind) (outbox_record receipt kind source destination payload)
         (w_outbox w)\<rparr>"

definition recordIdempotency :: "string \<Rightarrow> bytes \<Rightarrow> Receipt \<Rightarrow> World \<Rightarrow> World" where
  "recordIdempotency key fingerprint receipt w =
     w\<lparr>w_idempotency := dset key \<lparr>id_requestHash = fingerprint, id_receipt = receipt\<rparr> (w_idempotency w)\<rparr>"

text \<open>\<open>None\<close> is the result \<^verbatim>\<open>found = false\<close>.\<close>

definition replayEffectLocked ::
  "string \<Rightarrow> bytes \<Rightarrow> string \<Rightarrow> World \<Rightarrow> op_result option" where
  "replayEffectLocked effectID fingerprint key w =
     (case dget (w_effects w) effectID of
        None \<Rightarrow> None
      | Some effect \<Rightarrow>
          if ef_fingerprint effect \<noteq> fingerprint then Some (w, zeroReceipt, Some ErrEffectConflict)
          else
            let receipt = (ef_receipt effect)\<lparr>rc_IdempotencyKey := key, rc_Duplicate := True\<rparr>
            in Some (recordIdempotency key fingerprint receipt w, receipt, None))"

definition fail :: "World \<Rightarrow> world_error \<Rightarrow> op_result" where
  "fail w e = (w, zeroReceipt, Some e)"

section \<open>Payments\<close>

definition payment_lines :: "string \<Rightarrow> amount \<Rightarrow> World \<Rightarrow> JournalLine list" where
  "payment_lines region a w =
     [mk_line UserAccount (w_asset w) Debit a,
      mk_line MerchantAccount (w_asset w) Credit a,
      mk_line (RegionalAuthorityAccount region) (w_authorityAsset w) Debit a,
      mk_line AuthorityConsumedAccount (w_authorityAsset w) Credit a]"

definition newPayment :: "string \<Rightarrow> string \<Rightarrow> amount \<Rightarrow> Receipt \<Rightarrow> paymentState" where
  "newPayment operationID region a receipt =
     \<lparr>pm_operationID = operationID, pm_region = region, pm_authorized = a, pm_captured = a,
      pm_refunded = 0, pm_reversed = 0, pm_chargedBack = 0, pm_state = PaymentCaptured, pm_receipt = receipt\<rparr>"

text \<open>What \<^verbatim>\<open>PayWithFence\<close> does once the journal entry is posted, up to the release of the lock and after it.\<close>

definition finishPayment ::
  "WFence \<Rightarrow> string \<Rightarrow> string \<Rightarrow> amount \<Rightarrow> amount \<Rightarrow> amount \<Rightarrow> bytes \<Rightarrow> Receipt \<Rightarrow> World \<Rightarrow> op_result" where
  "finishPayment fence key operationID a newRights newAuthority fingerprint receipt w =
     (let region = fence_Region fence;
          w1 = (if rc_Duplicate receipt then w
                else addOutboxLocked receipt ''PAYMENT_CAPTURED'' region region (''payment:'' @ operationID)
                       ((setRights region newRights w)\<lparr>w_authorityTotal := newAuthority,
                          w_payments := dset operationID (newPayment operationID region a receipt)
                                          (w_payments w)\<rparr>));
          receipt' = receipt\<lparr>rc_IdempotencyKey := key\<rparr>;
          w2 = recordIdempotency key fingerprint receipt' w1;
          (crashAfter, afterCommit) = consumeCounter (w_crashAfterCommit w2) key;
          (lost, loseResponses) = consumeCounter (w_loseResponses w2) key;
          w3 = w2\<lparr>w_crashAfterCommit := afterCommit, w_loseResponses := loseResponses\<rparr>
      in if crashAfter
         then (onNetwork (Network_Crash region) (setRunning region False w3), receipt', Some ErrCrashAfterCommit)
         else if lost then (w3, receipt', Some ErrResponseLost)
         else (w3, receipt', None))"

definition commitPayment ::
  "WFence \<Rightarrow> string \<Rightarrow> string \<Rightarrow> amount \<Rightarrow> regionState \<Rightarrow> bytes \<Rightarrow> World \<Rightarrow> op_result" where
  "commitPayment fence key operationID a region fingerprint w =
     (case Amount_Add (dget_or 0 (w_balances w) UserAccount) (w_creditLimit w) of
        Inl e \<Rightarrow> fail w (ErrLedger e)
      | Inr available \<Rightarrow>
          if Amount_Cmp available a < 0 then fail w ErrInsufficientFunds
          else if Amount_Cmp (rs_rights region) a < 0 then fail w ErrInsufficientRights
          else (case Amount_Sub (rs_rights region) a of
              Inl e \<Rightarrow> fail w (ErrLedger e)
            | Inr newRights \<Rightarrow>
                (case Amount_Sub (w_authorityTotal w) a of
                   Inl e \<Rightarrow> fail w ErrInsufficientRights
                 | Inr newAuthority \<Rightarrow>
                     if Amount_Sign newAuthority < 0 then fail w ErrInsufficientRights
                     else (case postLocked (''payment:'' @ operationID) ''PAYMENT_CAPTURE'' fingerprint
                                  (payment_lines (fence_Region fence) a w) w of
                         (w1, Inl e) \<Rightarrow> fail w1 e
                       | (w1, Inr receipt) \<Rightarrow>
                           finishPayment fence key operationID a newRights newAuthority fingerprint receipt w1))))"

definition PayWithFence :: "WFence \<Rightarrow> string \<Rightarrow> string \<Rightarrow> amount \<Rightarrow> World \<Rightarrow> op_result" where
  "PayWithFence fence key operationID a w =
     (let fingerprint = requestFingerprint [''PAYMENT'', operationID, Amount_String a];
          effectID = ''payment:'' @ operationID
      in case requireWriterLocked fence w of
        Inl e \<Rightarrow> fail w e
      | Inr region \<Rightarrow>
          if key = [] \<or> operationID = [] \<or> Amount_Sign a \<le> 0 then fail w ErrInvalidPosting0
          else (case dget (w_idempotency w) key of
              Some existing \<Rightarrow>
                if id_requestHash existing \<noteq> fingerprint then fail w ErrIdempotencyConflict
                else
                  let receipt = (id_receipt existing)\<lparr>rc_Duplicate := True\<rparr>;
                      (lost, loseResponses) = consumeCounter (w_loseResponses w) key
                  in (w\<lparr>w_loseResponses := loseResponses\<rparr>, receipt, if lost then Some ErrResponseLost else None)
            | None \<Rightarrow>
                (case replayEffectLocked effectID fingerprint key w of
                   Some r \<Rightarrow> r
                 | None \<Rightarrow>
                     let (crashBefore, counters) = consumeCounter (w_crashBeforeCommit w) key;
                         w1 = w\<lparr>w_crashBeforeCommit := counters\<rparr>
                     in if crashBefore
                        then (onNetwork (Network_Crash (fence_Region fence))
                                (setRunning (fence_Region fence) False w1),
                              zeroReceipt, Some ErrCrashBeforeCommit)
                        else commitPayment fence key operationID a region fingerprint w1)))"

definition Pay :: "string \<Rightarrow> string \<Rightarrow> string \<Rightarrow> amount \<Rightarrow> World \<Rightarrow> op_result" where
  "Pay region key operationID a w =
     (case World_Fence region w of
        Inl e \<Rightarrow> fail w e
      | Inr fence \<Rightarrow> PayWithFence fence key operationID a w)"

section \<open>Deposits\<close>

text \<open>
  The prologue that deposits, releases and cashback share: the writer check, the argument check, the
  idempotency record and the replay of a committed effect. \<open>Inl\<close> is a return, \<open>Inr\<close> continues.
\<close>

definition enterWrite ::
  "WFence \<Rightarrow> string \<Rightarrow> bool \<Rightarrow> string \<Rightarrow> bytes \<Rightarrow> World \<Rightarrow> op_result + regionState" where
  "enterWrite fence key valid effectID fingerprint w =
     (case requireWriterLocked fence w of
        Inl e \<Rightarrow> Inl (fail w e)
      | Inr region \<Rightarrow>
          if \<not> valid then Inl (fail w ErrInvalidPosting0)
          else (case dget (w_idempotency w) key of
              Some existing \<Rightarrow>
                if id_requestHash existing \<noteq> fingerprint then Inl (fail w ErrIdempotencyConflict)
                else Inl (w, (id_receipt existing)\<lparr>rc_Duplicate := True\<rparr>, None)
            | None \<Rightarrow>
                (case replayEffectLocked effectID fingerprint key w of
                   Some r \<Rightarrow> Inl r
                 | None \<Rightarrow> Inr region)))"

text \<open>The epilogue they share: store the receipt under the key and return it.\<close>

definition leaveWrite :: "string \<Rightarrow> bytes \<Rightarrow> Receipt \<Rightarrow> World \<Rightarrow> op_result" where
  "leaveWrite key fingerprint receipt w =
     (let receipt' = receipt\<lparr>rc_IdempotencyKey := key\<rparr>
      in (recordIdempotency key fingerprint receipt' w, receipt', None))"

definition deposit_lines :: "string \<Rightarrow> amount \<Rightarrow> World \<Rightarrow> JournalLine list" where
  "deposit_lines region a w =
     [mk_line FundingAccount (w_asset w) Debit a,
      mk_line UserAccount (w_asset w) Credit a,
      mk_line AuthorityIssuerAccount (w_authorityAsset w) Debit a,
      mk_line (RegionalAuthorityAccount region) (w_authorityAsset w) Credit a]"

definition Deposit_locked :: "WFence \<Rightarrow> string \<Rightarrow> string \<Rightarrow> amount \<Rightarrow> World \<Rightarrow> op_result" where
  "Deposit_locked fence key operationID a w =
     (let fingerprint = requestFingerprint [''DEPOSIT'', operationID, Amount_String a];
          effectID = ''deposit:'' @ operationID;
          region = fence_Region fence
      in case enterWrite fence key (key \<noteq> [] \<and> operationID \<noteq> [] \<and> 0 < Amount_Sign a) effectID fingerprint w of
        Inl r \<Rightarrow> r
      | Inr state \<Rightarrow>
          (case Amount_Add (rs_rights state) a of
             Inl e \<Rightarrow> fail w (ErrLedger e)
           | Inr newRights \<Rightarrow>
               (case Amount_Add (w_authorityTotal w) a of
                  Inl e \<Rightarrow> fail w (ErrLedger e)
                | Inr newAuthority \<Rightarrow>
                    (case postLocked effectID ''DEPOSIT'' fingerprint (deposit_lines region a w) w of
                       (w1, Inl e) \<Rightarrow> fail w1 e
                     | (w1, Inr receipt) \<Rightarrow>
                         leaveWrite key fingerprint receipt
                           (if rc_Duplicate receipt then w1
                            else addOutboxLocked receipt ''DEPOSIT_CONFIRMED'' region region effectID
                                   ((setRights region newRights w1)\<lparr>w_authorityTotal := newAuthority\<rparr>))))))"

definition Deposit :: "string \<Rightarrow> string \<Rightarrow> string \<Rightarrow> amount \<Rightarrow> World \<Rightarrow> op_result" where
  "Deposit region key operationID a w =
     (case World_Fence region w of
        Inl e \<Rightarrow> fail w e
      | Inr fence \<Rightarrow> Deposit_locked fence key operationID a w)"

section \<open>Refunds, reversals and chargebacks\<close>

definition updateState :: "paymentState \<Rightarrow> paymentState" where
  "updateState p =
     (let released = (case amountSum [pm_refunded p, pm_reversed p, pm_chargedBack p] of Inl e \<Rightarrow> 0 | Inr r \<Rightarrow> r)
      in p\<lparr>pm_state :=
        (if 0 < Amount_Sign (pm_chargedBack p) then PaymentDisputed
         else if 0 < Amount_Sign (pm_reversed p) \<and> Amount_Cmp released (pm_captured p) = 0 then PaymentReversed
         else if Amount_Cmp (pm_refunded p) (pm_captured p) = 0 then PaymentRefunded
         else if 0 < Amount_Sign released then PaymentPartiallyRefunded
         else PaymentCaptured)\<rparr>)"

definition release_lines :: "string \<Rightarrow> amount \<Rightarrow> World \<Rightarrow> JournalLine list" where
  "release_lines region a w =
     [mk_line MerchantAccount (w_asset w) Debit a,
      mk_line UserAccount (w_asset w) Credit a,
      mk_line AuthorityConsumedAccount (w_authorityAsset w) Debit a,
      mk_line (RegionalAuthorityAccount region) (w_authorityAsset w) Credit a]"

definition addRelease :: "string \<Rightarrow> amount \<Rightarrow> paymentState \<Rightarrow> paymentState" where
  "addRelease kind a p = updateState
     (if kind = ''REFUND'' then p\<lparr>pm_refunded := add_or_zero (pm_refunded p) a\<rparr>
      else if kind = ''REVERSAL'' then p\<lparr>pm_reversed := add_or_zero (pm_reversed p) a\<rparr>
      else if kind = ''CHARGEBACK'' then p\<lparr>pm_chargedBack := add_or_zero (pm_chargedBack p) a\<rparr>
      else p)"

definition applyRelease ::
  "string \<Rightarrow> string \<Rightarrow> string \<Rightarrow> string \<Rightarrow> amount \<Rightarrow> amount \<Rightarrow> amount \<Rightarrow> Receipt \<Rightarrow> World \<Rightarrow> World" where
  "applyRelease region kind releaseID paymentID a newRights newAuthority receipt w =
     (let w1 = (setRights region newRights w)\<lparr>w_authorityTotal := newAuthority,
                 w_payments := dmodify paymentID (addRelease kind a) (w_payments w),
                 w_refunds := (if kind = ''REFUND'' then dset releaseID a (w_refunds w) else w_refunds w)\<rparr>
      in addOutboxLocked receipt (kind @ ''_CONFIRMED'') region region (kind @ '':'' @ releaseID) w1)"

definition releaseCapture_locked ::
  "WFence \<Rightarrow> string \<Rightarrow> string \<Rightarrow> string \<Rightarrow> amount \<Rightarrow> string \<Rightarrow> World \<Rightarrow> op_result" where
  "releaseCapture_locked fence key releaseID paymentID a kind w =
     (let fingerprint = requestFingerprint [kind, releaseID, paymentID, Amount_String a];
          effectID = kind @ '':'' @ releaseID;
          region = fence_Region fence
      in case enterWrite fence key (key \<noteq> [] \<and> releaseID \<noteq> [] \<and> paymentID \<noteq> [] \<and> 0 < Amount_Sign a)
                effectID fingerprint w of
        Inl r \<Rightarrow> r
      | Inr state \<Rightarrow>
          (case dget (w_payments w) paymentID of
             None \<Rightarrow> fail w ErrPaymentNotFound
           | Some payment \<Rightarrow>
               (case amountSum [pm_refunded payment, pm_reversed payment, pm_chargedBack payment, a] of
                  Inl e \<Rightarrow> fail w ErrRefundExceeded
                | Inr released \<Rightarrow>
                    if 0 < Amount_Cmp released (pm_captured payment) then fail w ErrRefundExceeded
                    else (case Amount_Add (rs_rights state) a of
                        Inl e \<Rightarrow> fail w (ErrLedger e)
                      | Inr newRights \<Rightarrow>
                          (case Amount_Add (w_authorityTotal w) a of
                             Inl e \<Rightarrow> fail w (ErrLedger e)
                           | Inr newAuthority \<Rightarrow>
                               (case postLocked effectID kind fingerprint (release_lines region a w) w of
                                  (w1, Inl e) \<Rightarrow> fail w1 e
                                | (w1, Inr receipt) \<Rightarrow>
                                    leaveWrite key fingerprint receipt
                                      (if rc_Duplicate receipt then w1
                                       else applyRelease region kind releaseID paymentID a newRights
                                              newAuthority receipt w1)))))))"

definition releaseCapture ::
  "string \<Rightarrow> string \<Rightarrow> string \<Rightarrow> string \<Rightarrow> amount \<Rightarrow> string \<Rightarrow> World \<Rightarrow> op_result" where
  "releaseCapture region key releaseID paymentID a kind w =
     (case World_Fence region w of
        Inl e \<Rightarrow> fail w e
      | Inr fence \<Rightarrow> releaseCapture_locked fence key releaseID paymentID a kind w)"

definition Refund :: "string \<Rightarrow> string \<Rightarrow> string \<Rightarrow> string \<Rightarrow> amount \<Rightarrow> World \<Rightarrow> op_result" where
  "Refund region key refundID paymentID a w = releaseCapture region key refundID paymentID a ''REFUND'' w"

definition Reverse :: "string \<Rightarrow> string \<Rightarrow> string \<Rightarrow> string \<Rightarrow> amount \<Rightarrow> World \<Rightarrow> op_result" where
  "Reverse region key reversalID paymentID a w = releaseCapture region key reversalID paymentID a ''REVERSAL'' w"

definition Chargeback :: "string \<Rightarrow> string \<Rightarrow> string \<Rightarrow> string \<Rightarrow> amount \<Rightarrow> World \<Rightarrow> op_result" where
  "Chargeback region key chargebackID paymentID a w =
     releaseCapture region key chargebackID paymentID a ''CHARGEBACK'' w"

section \<open>Cashback\<close>

definition cashback_lines :: "string \<Rightarrow> amount \<Rightarrow> World \<Rightarrow> JournalLine list" where
  "cashback_lines region a w =
     [mk_line CashbackExpenseAccount (w_asset w) Debit a,
      mk_line UserAccount (w_asset w) Credit a,
      mk_line AuthorityIssuerAccount (w_authorityAsset w) Debit a,
      mk_line (RegionalAuthorityAccount region) (w_authorityAsset w) Credit a]"

definition GrantCashback_locked ::
  "WFence \<Rightarrow> string \<Rightarrow> string \<Rightarrow> string \<Rightarrow> amount \<Rightarrow> amount \<Rightarrow> World \<Rightarrow> op_result" where
  "GrantCashback_locked fence key effectID operationID a ruleMaximum w =
     (let fingerprint = requestFingerprint
            [''CASHBACK'', effectID, operationID, Amount_String a, Amount_String ruleMaximum];
          region = fence_Region fence
      in case enterWrite fence key
                (key \<noteq> [] \<and> effectID \<noteq> [] \<and> operationID \<noteq> [] \<and> 0 < Amount_Sign a \<and> \<not> Amount_Sign ruleMaximum < 0)
                (''cashback:'' @ effectID) fingerprint w of
        Inl r \<Rightarrow> r
      | Inr state \<Rightarrow>
          if (case dget (w_cashbackRules w) operationID of None \<Rightarrow> False
              | Some rule \<Rightarrow> Amount_Cmp rule ruleMaximum \<noteq> 0)
          then fail w ErrEffectConflict
          else (case Amount_Add (dget_or 0 (w_cashbackPaid w) operationID) a of
              Inl e \<Rightarrow> fail w ErrCashbackExceeded
            | Inr paid \<Rightarrow>
                if 0 < Amount_Cmp paid ruleMaximum then fail w ErrCashbackExceeded
                else (case Amount_Add (rs_rights state) a of
                    Inl e \<Rightarrow> fail w (ErrLedger e)
                  | Inr newRights \<Rightarrow>
                      (case Amount_Add (w_authorityTotal w) a of
                         Inl e \<Rightarrow> fail w (ErrLedger e)
                       | Inr newAuthority \<Rightarrow>
                           (case postLocked (''cashback:'' @ effectID) ''CASHBACK'' fingerprint
                                   (cashback_lines region a w) w of
                              (w1, Inl e) \<Rightarrow> fail w1 e
                            | (w1, Inr receipt) \<Rightarrow>
                                leaveWrite key fingerprint receipt
                                  (if rc_Duplicate receipt then w1
                                   else addOutboxLocked receipt ''CASHBACK_GRANTED'' region region effectID
                                          ((setRights region newRights w1)\<lparr>w_authorityTotal := newAuthority,
                                             w_cashbackRules := dset operationID ruleMaximum (w_cashbackRules w1),
                                             w_cashbackPaid := dset operationID paid (w_cashbackPaid w1)\<rparr>)))))))"

definition GrantCashback ::
  "string \<Rightarrow> string \<Rightarrow> string \<Rightarrow> string \<Rightarrow> amount \<Rightarrow> amount \<Rightarrow> World \<Rightarrow> op_result" where
  "GrantCashback region key effectID operationID a ruleMaximum w =
     (case World_Fence region w of
        Inl e \<Rightarrow> fail w e
      | Inr fence \<Rightarrow> GrantCashback_locked fence key effectID operationID a ruleMaximum w)"

section \<open>Observers\<close>

definition RefundTotal :: "string \<Rightarrow> World \<Rightarrow> amount" where
  "RefundTotal paymentID w = (case dget (w_payments w) paymentID of None \<Rightarrow> 0 | Some p \<Rightarrow> pm_refunded p)"

definition IdempotencyReceipt :: "string \<Rightarrow> World \<Rightarrow> Receipt option" where
  "IdempotencyReceipt key w = map_option id_receipt (dget (w_idempotency w) key)"

definition OutboxRecords :: "World \<Rightarrow> OutboxRecord list" where
  "OutboxRecords w = map snd (entries (w_outbox w))"

definition World_InboxRecord :: "string \<Rightarrow> World \<Rightarrow> InboxRecord option" where
  "World_InboxRecord messageID w = dget (w_inbox w) messageID"

definition committedDespiteResponseError :: "world_error \<Rightarrow> bool" where
  "committedDespiteResponseError e \<longleftrightarrow> e = ErrResponseLost \<or> e = ErrCrashAfterCommit"

end
