(* ===== verification/Sim_Transfer.thy ===== *)
theory Sim_Transfer
  imports Sim_Operations
begin

text \<open>
  The transfer of spending rights between regions, \<^verbatim>\<open>internal/failuresim/transfer.go\<close>: a certificate is
  committed at the source together with an outbox record, carried by the network at least once,
  consumed at the destination together with an inbox record, and acknowledged.

  \<open>DispatchOutbox\<close>, \<open>DeliverMessages\<close> and \<open>PumpUntilSettled\<close> run to their end without other operations in between, although the code
  holds the lock for one envelope at a time; what it does under the lock is \<open>collectPending\<close>, \<open>consumeTransfer\<close> and
  \<open>acceptTransferACK\<close>.
\<close>

definition transferMessageKind :: string where
  "transferMessageKind = ''RIGHTS_TRANSFER''"

definition payloadHash :: "bytes \<Rightarrow> bytes" where
  "payloadHash payload = sha256 payload"

section \<open>Source side\<close>

definition transfer_out_lines :: "string \<Rightarrow> amount \<Rightarrow> World \<Rightarrow> JournalLine list" where
  "transfer_out_lines region a w =
     [mk_line (RegionalAuthorityAccount region) (w_authorityAsset w) Debit a,
      mk_line AuthorityTransitAccount (w_authorityAsset w) Credit a]"

definition newCertificate :: "WFence \<Rightarrow> string \<Rightarrow> string \<Rightarrow> amount \<Rightarrow> Receipt \<Rightarrow> World \<Rightarrow> TransferCertificate" where
  "newCertificate fence transferID destination a receipt w =
     (let c = \<lparr>tc_TransferID = transferID, tc_Asset = w_asset w, tc_SourceRegion = fence_Region fence,
               tc_DestinationRegion = destination, tc_Amount = a, tc_SourceEpoch = fence_Epoch fence,
               tc_CommitSequence = rc_CommitSequence receipt, tc_CommitProof = zero_hash\<rparr>
      in c\<lparr>tc_CommitProof := certificateProof (w_certificateKey w) c\<rparr>)"

text \<open>
  The outbox record is created under its event id, renamed, and moved to the key
  \<^verbatim>\<open>"transfer:" + transferID\<close>.
\<close>

definition recordTransfer ::
  "string \<Rightarrow> string \<Rightarrow> string \<Rightarrow> amount \<Rightarrow> Receipt \<Rightarrow> TransferCertificate \<Rightarrow> World \<Rightarrow> World" where
  "recordTransfer region transferID destination newRights receipt certificate w =
     (let w1 = (setRights region newRights w)\<lparr>w_transfers := dset transferID
                 \<lparr>tr_certificate = certificate, tr_inTransit = True, tr_consumed = False,
                  tr_sourceAcknowledged = False, tr_consumeReceipt = zeroReceipt\<rparr> (w_transfers w)\<rparr>;
          record = outbox_record receipt transferMessageKind region destination (marshalCertificate certificate);
          w2 = addOutboxLocked receipt transferMessageKind region destination (marshalCertificate certificate) w1;
          messageID = ''transfer:'' @ transferID
      in w2\<lparr>w_outbox := dset messageID (record\<lparr>ob_MessageID := messageID\<rparr>)
                (ddel (event_id receipt transferMessageKind) (w_outbox w2))\<rparr>)"

definition InitiateTransfer :: "WFence \<Rightarrow> string \<Rightarrow> string \<Rightarrow> amount \<Rightarrow> World \<Rightarrow>
    World \<times> TransferCertificate \<times> bool \<times> world_error option" where
  "InitiateTransfer fence transferID destination a w =
     (let fingerprint = requestFingerprint
            [''RIGHTS_TRANSFER_OUT'', transferID, fence_Region fence, destination, Amount_String a];
          failed = (\<lambda>w e. (w, zeroCertificate, False, Some e))
      in case requireWriterLocked fence w of
        Inl e \<Rightarrow> failed w e
      | Inr source \<Rightarrow>
          if transferID = [] \<or> destination = [] \<or> fence_Region fence = destination \<or> Amount_Sign a \<le> 0
          then failed w ErrTransferInvalid
          else if dget (w_regions w) destination = None then failed w ErrTransferInvalid
          else (case dget (w_transfers w) transferID of
              Some existing \<Rightarrow>
                let candidate = tr_certificate existing
                in if tc_SourceRegion candidate \<noteq> fence_Region fence
                      \<or> tc_DestinationRegion candidate \<noteq> destination \<or> Amount_Cmp (tc_Amount candidate) a \<noteq> 0
                   then failed w ErrTransferConflict
                   else (w, candidate, True, None)
            | None \<Rightarrow>
                if Amount_Cmp (rs_rights source) a < 0 then failed w ErrInsufficientRights
                else (case Amount_Sub (rs_rights source) a of
                    Inl e \<Rightarrow> failed w (ErrLedger e)
                  | Inr newRights \<Rightarrow>
                      (case postLocked (''rights-transfer-out:'' @ transferID) ''RIGHTS_TRANSFER_OUT''
                              fingerprint (transfer_out_lines (fence_Region fence) a w) w of
                         (w1, Inl e) \<Rightarrow> failed w1 e
                       | (w1, Inr receipt) \<Rightarrow>
                           let certificate = newCertificate fence transferID destination a receipt w1
                           in (recordTransfer (fence_Region fence) transferID destination newRights receipt
                                 certificate w1, certificate, False, None)))))"

section \<open>Destination side\<close>

definition transfer_in_lines :: "string \<Rightarrow> amount \<Rightarrow> World \<Rightarrow> JournalLine list" where
  "transfer_in_lines region a w =
     [mk_line AuthorityTransitAccount (w_authorityAsset w) Debit a,
      mk_line (RegionalAuthorityAccount region) (w_authorityAsset w) Credit a]"

type_synonym consume_result = "World \<times> Receipt \<times> bool \<times> world_error option"

text \<open>The last step of both branches of \<^verbatim>\<open>consumeTransfer\<close>: an injected crash of the consumer.\<close>

definition finishConsume :: "string \<Rightarrow> string \<Rightarrow> Receipt \<Rightarrow> bool \<Rightarrow> World \<Rightarrow> consume_result" where
  "finishConsume messageID destination receipt duplicate w =
     (let (crash, counters) = consumeCounter (w_consumerCrash w) messageID;
          w1 = w\<lparr>w_consumerCrash := counters\<rparr>
      in if crash
         then (onNetwork (Network_Crash destination) (setRunning destination False w1), receipt, duplicate,
               Some ErrConsumerCrash)
         else (w1, receipt, duplicate, None))"

definition applyConsume ::
  "string \<Rightarrow> TransferCertificate \<Rightarrow> bytes \<Rightarrow> amount \<Rightarrow> Receipt \<Rightarrow> World \<Rightarrow> World" where
  "applyConsume messageID certificate hash newRights receipt w =
     (setRights (tc_DestinationRegion certificate) newRights w)
       \<lparr>w_transfers := dmodify (tc_TransferID certificate)
            (\<lambda>t. t\<lparr>tr_inTransit := False, tr_consumed := True, tr_consumeReceipt := receipt\<rparr>) (w_transfers w),
        w_inbox := dset messageID \<lparr>ib_MessageID = messageID, ib_PayloadHash = hash,
                     ib_EffectID = rc_EffectID receipt, ib_DuplicateDeliveries = 0\<rparr> (w_inbox w)\<rparr>"

definition consumeTransfer :: "string \<Rightarrow> TransferCertificate \<Rightarrow> World \<Rightarrow> consume_result" where
  "consumeTransfer messageID c w =
     (let failed = (\<lambda>w e. (w, zeroReceipt, False, Some e))
      in case dget (w_regions w) (tc_DestinationRegion c) of
        None \<Rightarrow> failed w ErrRegionDown
      | Some destination \<Rightarrow>
          if \<not> rs_running destination then failed w ErrRegionDown
          else if \<not> hasQuorumLocked w then failed w ErrNoQuorum
          else if \<not> verifyCertificateLocked c w then failed w ErrTransferInvalid
          else (case dget (w_transfers w) (tc_TransferID c) of
              None \<Rightarrow> failed w ErrTransferConflict
            | Some transfer \<Rightarrow>
                if \<not> equalCertificate (tr_certificate transfer) c then failed w ErrTransferConflict
                else
                  let hash = payloadHash (marshalCertificate c)
                  in case dget (w_inbox w) messageID of
                    Some existing \<Rightarrow>
                      if ib_PayloadHash existing \<noteq> hash then failed w ErrTransferConflict
                      else finishConsume messageID (tc_DestinationRegion c)
                             ((tr_consumeReceipt transfer)\<lparr>rc_Duplicate := True\<rparr>) True
                             (w\<lparr>w_inbox := dset messageID (existing\<lparr>ib_DuplicateDeliveries :=
                                  ib_DuplicateDeliveries existing + 1\<rparr>) (w_inbox w)\<rparr>)
                  | None \<Rightarrow>
                      if tr_consumed transfer \<or> \<not> tr_inTransit transfer then failed w ErrTransferConflict
                      else (case Amount_Add (rs_rights destination) (tc_Amount c) of
                          Inl e \<Rightarrow> failed w (ErrLedger e)
                        | Inr newRights \<Rightarrow>
                            (case postLocked (''rights-transfer-in:'' @ tc_TransferID c) ''RIGHTS_TRANSFER_IN''
                                    (requestFingerprint
                                       [''RIGHTS_TRANSFER_IN'', tc_TransferID c, CommitProofString c])
                                    (transfer_in_lines (tc_DestinationRegion c) (tc_Amount c) w) w of
                               (w1, Inl e) \<Rightarrow> failed w1 e
                             | (w1, Inr receipt) \<Rightarrow>
                                 finishConsume messageID (tc_DestinationRegion c) receipt False
                                   (applyConsume messageID c hash newRights receipt w1)))))"

definition ConsumeTransfer :: "TransferCertificate \<Rightarrow> World \<Rightarrow> consume_result" where
  "ConsumeTransfer c w = consumeTransfer (''transfer:'' @ tc_TransferID c) c w"

definition CrashConsumerAfterApply :: "string \<Rightarrow> World \<Rightarrow> World" where
  "CrashConsumerAfterApply messageID w = w\<lparr>w_consumerCrash := bump messageID (w_consumerCrash w)\<rparr>"

definition World_Transfer :: "string \<Rightarrow> World \<Rightarrow> transferState option" where
  "World_Transfer transferID w = dget (w_transfers w) transferID"

section \<open>Messages\<close>

record pendingEnvelope =
  pe_messageID :: string
  pe_source :: string
  pe_destination :: string
  pe_payload :: bytes

definition pending :: "OutboxRecord \<Rightarrow> bool" where
  "pending r \<longleftrightarrow> \<not> (ob_Kind r \<noteq> transferMessageKind \<or> ob_Acknowledged r)"

definition dict_map :: "('v \<Rightarrow> 'v) \<Rightarrow> ('k, 'v) dict \<Rightarrow> ('k, 'v) dict" where
  "dict_map f m = fold (\<lambda>(k, v). dset k (f v)) (entries m) m"

definition collectPending :: "World \<Rightarrow> World \<times> pendingEnvelope list" where
  "collectPending w =
     (w\<lparr>w_outbox := dict_map (\<lambda>r. if pending r then r\<lparr>ob_Attempts := ob_Attempts r + 1\<rparr> else r) (w_outbox w)\<rparr>,
      map (\<lambda>r. \<lparr>pe_messageID = ob_MessageID r, pe_source = ob_SourceRegion r,
                pe_destination = ob_DestinationRegion r, pe_payload = ob_Payload r\<rparr>)
        (filter pending (map snd (entries (w_outbox w)))))"

definition command_envelope :: "pendingEnvelope \<Rightarrow> Envelope" where
  "command_envelope p = \<lparr>env_MessageID = pe_messageID p, env_From = pe_source p, env_To = pe_destination p,
     env_Kind = Command, env_CorrelationID = pe_messageID p, env_Payload = pe_payload p,
     env_Sequence = 0, env_Delivery = 0\<rparr>"

fun sendAll :: "Envelope list \<Rightarrow> Network \<Rightarrow> Network \<times> world_error list" where
  "sendAll [] n = (n, [])"
| "sendAll (e # es) n =
     (let (n1, err) = Network_Send e n; (n2, errs) = sendAll es n1
      in (n2, case err of None \<Rightarrow> errs | Some x \<Rightarrow> ErrTransport x # errs))"

definition DispatchOutbox :: "World \<Rightarrow> World \<times> world_error list" where
  "DispatchOutbox w =
     (let (w1, records) = collectPending w;
          (n, failures) = sendAll (map command_envelope (sort_key pe_messageID records)) (w_network w1)
      in (w1\<lparr>w_network := n\<rparr>, failures))"

definition acceptTransferACK :: "Envelope \<Rightarrow> World \<Rightarrow> World \<times> world_error option" where
  "acceptTransferACK e w =
     (case dget (w_outbox w) (env_CorrelationID e) of
        None \<Rightarrow> (w, Some ErrTransferInvalid)
      | Some record \<Rightarrow>
          if ob_Kind record \<noteq> transferMessageKind \<or> take 9 (env_CorrelationID e) \<noteq> ''transfer:''
          then (w, Some ErrTransferInvalid)
          else
            let transferID = drop 9 (env_CorrelationID e)
            in case dget (w_transfers w) transferID of
                 None \<Rightarrow> (w, Some ErrTransferInvalid)
               | Some transfer \<Rightarrow>
                   if \<not> tr_consumed transfer \<or> env_Payload e \<noteq> tc_CommitProof (tr_certificate transfer)
                   then (w, Some ErrTransferInvalid)
                   else (w\<lparr>w_outbox := dset (env_CorrelationID e) (record\<lparr>ob_Acknowledged := True\<rparr>) (w_outbox w),
                            w_transfers := dset transferID (transfer\<lparr>tr_sourceAcknowledged := True\<rparr>)
                                             (w_transfers w)\<rparr>, None))"

definition ack_envelope :: "string \<Rightarrow> TransferCertificate \<Rightarrow> Envelope" where
  "ack_envelope messageID c = \<lparr>env_MessageID = ''ack:'' @ tc_TransferID c, env_From = tc_DestinationRegion c,
     env_To = tc_SourceRegion c, env_Kind = Ack, env_CorrelationID = messageID,
     env_Payload = tc_CommitProof c, env_Sequence = 0, env_Delivery = 0\<rparr>"

definition deliverOne :: "Envelope \<Rightarrow> World \<Rightarrow> World \<times> world_error list" where
  "deliverOne e w =
     (if env_Kind e = Command then
        (case unmarshalCertificate (env_Payload e) of
           None \<Rightarrow> (w, [ErrWorldOther (''decode '' @ env_MessageID e)])
         | Some certificate \<Rightarrow>
             (case consumeTransfer (env_MessageID e) certificate w of
                (w1, _, _, Some err) \<Rightarrow> (w1, [err])
              | (w1, _, _, None) \<Rightarrow>
                  (case Network_Send (ack_envelope (env_MessageID e) certificate) (w_network w1) of
                     (n, None) \<Rightarrow> (w1\<lparr>w_network := n\<rparr>, [])
                   | (n, Some err) \<Rightarrow> (w1\<lparr>w_network := n\<rparr>, [ErrTransport err]))))
      else if env_Kind e = Ack then
        (case acceptTransferACK e w of (w1, None) \<Rightarrow> (w1, []) | (w1, Some err) \<Rightarrow> (w1, [err]))
      else (w, [ErrWorldOther (''unexpected message kind '' @ env_Kind e)]))"

fun deliverEach :: "Envelope list \<Rightarrow> World \<Rightarrow> World \<times> world_error list" where
  "deliverEach [] w = (w, [])"
| "deliverEach (e # es) w =
     (let (w1, errs) = deliverOne e w; (w2, rest) = deliverEach es w1 in (w2, errs @ rest))"

definition DeliverMessages :: "World \<Rightarrow> World \<times> world_error list" where
  "DeliverMessages w =
     (let (n, envelopes) = Network_Drain (w_network w) in deliverEach envelopes (w\<lparr>w_network := n\<rparr>))"

definition allTransfersAcknowledged :: "World \<Rightarrow> bool" where
  "allTransfersAcknowledged w = list_all (\<lambda>(_, t). tr_sourceAcknowledged t) (entries (w_transfers w))"

fun PumpUntilSettled :: "nat \<Rightarrow> World \<Rightarrow> World \<times> world_error option" where
  "PumpUntilSettled 0 w = (w, Some (ErrWorldOther ''failuresim: transfer backlog did not settle''))"
| "PumpUntilSettled (Suc rounds) w =
     (let w3 = fst (DeliverMessages (fst (DeliverMessages (fst (DispatchOutbox w)))))
      in if allTransfersAcknowledged w3 then (w3, None) else PumpUntilSettled rounds w3)"

end
