(* ===== verification/Sim_Saga.thy ===== *)
theory Sim_Saga
  imports Sim_Transfer
begin

text \<open>
  Sagas, delayed fraud verdicts and the external processor of
  \<^verbatim>\<open>internal/failuresim/saga_fraud_external.go\<close>.

  A nil pointer dereference panics in Go; \<open>None\<close> stands for the panic in \<open>AdvanceSaga\<close> and
  \<open>AdvanceLogicalTicks\<close>, and the invariant of the simulator excludes it. \<open>AdvanceSaga\<close> is executed without
  other operations between its critical sections.
\<close>

section \<open>Sagas\<close>

definition zeroSaga :: SagaSnapshot where
  "zeroSaga = \<lparr>ss_SagaID = [], ss_Region = [], ss_OperationID = [], ss_Amount = 0, ss_NextStep = 0,
     ss_Completed = False, ss_PaymentReceipt = zeroReceipt\<rparr>"

definition StartSaga ::
  "string \<Rightarrow> string \<Rightarrow> string \<Rightarrow> amount \<Rightarrow> World \<Rightarrow> World \<times> SagaSnapshot \<times> world_error option" where
  "StartSaga sagaID region operationID a w =
     (if sagaID = [] \<or> operationID = [] \<or> Amount_Sign a \<le> 0 then (w, zeroSaga, Some ErrInvalidPosting0)
      else case dget (w_sagas w) sagaID of
        Some snapshot \<Rightarrow>
          if ss_Region snapshot \<noteq> region \<or> ss_OperationID snapshot \<noteq> operationID
             \<or> Amount_Cmp (ss_Amount snapshot) a \<noteq> 0
          then (w, zeroSaga, Some ErrEffectConflict)
          else (w, snapshot, None)
      | None \<Rightarrow>
          let snapshot = zeroSaga\<lparr>ss_SagaID := sagaID, ss_Region := region, ss_OperationID := operationID,
                           ss_Amount := a\<rparr>
          in (w\<lparr>w_sagas := dset sagaID snapshot (w_sagas w)\<rparr>, snapshot, None))"

definition saga_key :: "string \<Rightarrow> string" where
  "saga_key sagaID = ''saga:'' @ sagaID @ '':payment''"

text \<open>The critical section after the payment of step zero.\<close>

definition saveSagaPayment ::
  "string \<Rightarrow> SagaSnapshot \<Rightarrow> Receipt \<Rightarrow> World \<Rightarrow> (World \<times> SagaSnapshot \<times> world_error option) option" where
  "saveSagaPayment sagaID snapshot receipt w =
     (case consumeCounter (w_coordinatorCrashAfter w) sagaID of
        (True, counters) \<Rightarrow>
          Some (w\<lparr>w_coordinatorCrashAfter := counters, w_coordinatorRunning := False\<rparr>, snapshot,
                Some ErrCoordinatorCrash)
      | (False, _) \<Rightarrow>
          (case dget (w_sagas w) sagaID of
             None \<Rightarrow> None
           | Some saga \<Rightarrow>
               let saga' = saga\<lparr>ss_PaymentReceipt := receipt, ss_NextStep := 1\<rparr>
               in Some (w\<lparr>w_sagas := dset sagaID saga' (w_sagas w)\<rparr>, saga', None)))"

definition AdvanceSaga :: "string \<Rightarrow> World \<Rightarrow> (World \<times> SagaSnapshot \<times> world_error option) option" where
  "AdvanceSaga sagaID w =
     (if \<not> w_coordinatorRunning w then Some (w, zeroSaga, Some ErrCoordinatorDown)
      else case dget (w_sagas w) sagaID of
        None \<Rightarrow> Some (w, zeroSaga, Some ErrEffectConflict)
      | Some snapshot \<Rightarrow>
          if ss_NextStep snapshot = 0 then
            (case Pay (ss_Region snapshot) (saga_key sagaID) (ss_OperationID snapshot) (ss_Amount snapshot) w of
               (w1, receipt, err) \<Rightarrow>
                 (case err of
                    None \<Rightarrow> saveSagaPayment sagaID snapshot receipt w1
                  | Some e \<Rightarrow> if \<not> committedDespiteResponseError e then Some (w1, snapshot, Some e)
                              else saveSagaPayment sagaID snapshot receipt w1))
          else if ss_NextStep snapshot = 1 then
            (let saga' = snapshot\<lparr>ss_NextStep := 2, ss_Completed := True\<rparr>
             in Some (w\<lparr>w_sagas := dset sagaID saga' (w_sagas w)\<rparr>, saga', None))
          else Some (w, snapshot, None))"

definition CrashCoordinatorAfterEffect :: "string \<Rightarrow> World \<Rightarrow> World" where
  "CrashCoordinatorAfterEffect sagaID w =
     w\<lparr>w_coordinatorCrashAfter := bump sagaID (w_coordinatorCrashAfter w)\<rparr>"

definition CrashCoordinator :: "World \<Rightarrow> World" where
  "CrashCoordinator w = w\<lparr>w_coordinatorRunning := False\<rparr>"

definition RestartCoordinator :: "World \<Rightarrow> World" where
  "RestartCoordinator w = w\<lparr>w_coordinatorRunning := True\<rparr>"

definition World_Saga :: "string \<Rightarrow> World \<Rightarrow> SagaSnapshot option" where
  "World_Saga sagaID w = dget (w_sagas w) sagaID"

section \<open>Fraud verdicts\<close>

definition ScheduleFraudVerdict ::
  "string \<Rightarrow> string \<Rightarrow> bool \<Rightarrow> uint64 \<Rightarrow> World \<Rightarrow> World \<times> world_error option" where
  "ScheduleFraudVerdict eventID paymentID fraudulent delayTicks w =
     (if eventID = [] \<or> paymentID = [] then (w, Some ErrInvalidPosting0)
      else if dget (w_payments w) paymentID = None then (w, Some ErrPaymentNotFound)
      else case dget (w_fraudVerdicts w) eventID of
        Some existing \<Rightarrow>
          if fv_PaymentID existing \<noteq> paymentID \<or> fv_Fraudulent existing \<noteq> fraudulent
          then (w, Some ErrEffectConflict) else (w, None)
      | None \<Rightarrow>
          (w\<lparr>w_fraudVerdicts := dset eventID \<lparr>fv_EventID = eventID, fv_PaymentID = paymentID,
               fv_Fraudulent = fraudulent, fv_DueTick = w_logicalTick w + delayTicks, fv_Processed = False\<rparr>
               (w_fraudVerdicts w)\<rparr>, None))"

definition markProcessed :: "string \<Rightarrow> World \<Rightarrow> World" where
  "markProcessed eventID w =
     w\<lparr>w_fraudVerdicts := dmodify eventID (\<lambda>v. v\<lparr>fv_Processed := True\<rparr>) (w_fraudVerdicts w)\<rparr>"

definition addChargeback :: "amount \<Rightarrow> paymentState \<Rightarrow> paymentState" where
  "addChargeback a p = updateState (p\<lparr>pm_chargedBack := add_or_zero (pm_chargedBack p) a\<rparr>)"

definition applyReversal ::
  "string \<Rightarrow> string \<Rightarrow> string \<Rightarrow> amount \<Rightarrow> amount \<Rightarrow> amount \<Rightarrow> Receipt \<Rightarrow> World \<Rightarrow> World" where
  "applyReversal eventID paymentID region remaining newRights newAuthority receipt w =
     addOutboxLocked receipt ''LATE_FRAUD_REVERSAL'' region region eventID
       ((setRights region newRights w)\<lparr>w_authorityTotal := newAuthority,
          w_payments := dmodify paymentID (addChargeback remaining) (w_payments w)\<rparr>)"

text \<open>One iteration of the loop of \<^verbatim>\<open>AdvanceLogicalTicks\<close>: the new state and the failures it appends.\<close>

definition processVerdict :: "string \<Rightarrow> World \<Rightarrow> (World \<times> world_error list) option" where
  "processVerdict eventID w =
     (case dget (w_fraudVerdicts w) eventID of
        None \<Rightarrow> None
      | Some verdict \<Rightarrow>
          if \<not> fv_Fraudulent verdict then Some (markProcessed eventID w, [])
          else if \<not> hasQuorumLocked w then Some (w, [ErrNoQuorum])
          else (case dget (w_payments w) (fv_PaymentID verdict) of
              None \<Rightarrow> Some (w, [ErrPaymentNotFound])
            | Some payment \<Rightarrow>
                let released = (case amountSum [pm_refunded payment, pm_reversed payment, pm_chargedBack payment] of
                                  Inl e \<Rightarrow> 0 | Inr r \<Rightarrow> r)
                in case Amount_Sub (pm_captured payment) released of
                     Inl e \<Rightarrow> Some (w, [ErrRefundExceeded])
                   | Inr remaining \<Rightarrow>
                       if Amount_Sign remaining < 0 then Some (w, [ErrRefundExceeded])
                       else if Amount_IsZero remaining then Some (markProcessed eventID w, [])
                       else (case dget (w_regions w) (pm_region payment) of
                           None \<Rightarrow> None
                         | Some region \<Rightarrow>
                             (case Amount_Add (rs_rights region) remaining of
                                Inl e \<Rightarrow> Some (w, [ErrLedger e])
                              | Inr newRights \<Rightarrow>
                                  (case Amount_Add (w_authorityTotal w) remaining of
                                     Inl e \<Rightarrow> Some (w, [ErrLedger e])
                                   | Inr newAuthority \<Rightarrow>
                                       (case postLocked (''fraud-reversal:'' @ eventID) ''LATE_FRAUD_REVERSAL''
                                               (requestFingerprint [''LATE_FRAUD_REVERSAL'', eventID,
                                                  pm_operationID payment, Amount_String remaining])
                                               (release_lines (pm_region payment) remaining w) w of
                                          (w1, Inl e) \<Rightarrow> Some (w1, [e])
                                        | (w1, Inr receipt) \<Rightarrow>
                                            Some (markProcessed eventID
                                              (if rc_Duplicate receipt then w1
                                               else applyReversal eventID (fv_PaymentID verdict)
                                                      (pm_region payment) remaining newRights newAuthority
                                                      receipt w1), [])))))))"

fun processVerdicts :: "string list \<Rightarrow> World \<Rightarrow> (World \<times> world_error list) option" where
  "processVerdicts [] w = Some (w, [])"
| "processVerdicts (e # es) w =
     (case processVerdict e w of None \<Rightarrow> None | Some (w1, errs) \<Rightarrow>
        (case processVerdicts es w1 of None \<Rightarrow> None | Some (w2, rest) \<Rightarrow> Some (w2, errs @ rest)))"

text \<open>\<^verbatim>\<open>sortStrings\<close> is an insertion sort in place: \<open>sink j\<close> is its inner loop.\<close>

fun sink :: "nat \<Rightarrow> string list \<Rightarrow> string list" where
  "sink 0 xs = xs"
| "sink (Suc j) xs = (if xs ! Suc j < xs ! j then sink j (xs[Suc j := xs ! j, j := xs ! Suc j]) else xs)"

definition sortStrings :: "string list \<Rightarrow> string list" where
  "sortStrings xs = fold sink [1..<length xs] xs"

definition AdvanceLogicalTicks :: "uint64 \<Rightarrow> World \<Rightarrow> (World \<times> world_error list) option" where
  "AdvanceLogicalTicks ticks w =
     (let tick = w_logicalTick w + ticks;
          w1 = w\<lparr>w_logicalTick := tick\<rparr>;
          due = map fst (filter (\<lambda>(_, v). \<not> fv_Processed v \<and> fv_DueTick v \<le> tick) (entries (w_fraudVerdicts w)))
      in processVerdicts (sortStrings due) w1)"

definition FraudVerdict :: "string \<Rightarrow> World \<Rightarrow> FraudVerdictSnapshot option" where
  "FraudVerdict eventID w = dget (w_fraudVerdicts w) eventID"

section \<open>The external processor\<close>

record ExternalResult =
  xr_OperationID :: string
  xr_Amount :: amount
  xr_Succeeded :: bool
  xr_Duplicate :: bool
  xr_Proof :: bytes

definition zeroResult :: ExternalResult where
  "zeroResult = \<lparr>xr_OperationID = [], xr_Amount = 0, xr_Succeeded = False, xr_Duplicate = False,
     xr_Proof = zero_hash\<rparr>"

record ExternalProcessor =
  xp_results :: "(string, ExternalResult) dict"
  xp_timeoutAfterSuccess :: "(string, go_int) dict"

definition NewExternalProcessor :: ExternalProcessor where
  "NewExternalProcessor = \<lparr>xp_results = dempty, xp_timeoutAfterSuccess = dempty\<rparr>"

definition SucceedThenTimeout :: "string \<Rightarrow> ExternalProcessor \<Rightarrow> ExternalProcessor" where
  "SucceedThenTimeout operationID p =
     p\<lparr>xp_timeoutAfterSuccess := bump operationID (xp_timeoutAfterSuccess p)\<rparr>"

definition external_proof :: "string \<Rightarrow> amount \<Rightarrow> bytes" where
  "external_proof operationID a =
     sha256 (''external-proof/v1'' @ [CHR 0x00] @ operationID @ [CHR 0x00] @ Amount_String a)"

definition Charge ::
  "string \<Rightarrow> amount \<Rightarrow> ExternalProcessor \<Rightarrow> ExternalProcessor \<times> ExternalResult \<times> world_error option" where
  "Charge operationID a p =
     (if operationID = [] \<or> Amount_Sign a \<le> 0 then (p, zeroResult, Some ErrInvalidPosting0)
      else case dget (xp_results p) operationID of
        Some result \<Rightarrow>
          if Amount_Cmp (xr_Amount result) a \<noteq> 0 then (p, zeroResult, Some ErrEffectConflict)
          else (p, result\<lparr>xr_Duplicate := True\<rparr>, None)
      | None \<Rightarrow>
          let result = \<lparr>xr_OperationID = operationID, xr_Amount = a, xr_Succeeded = True,
                xr_Duplicate = False, xr_Proof = external_proof operationID a\<rparr>;
              (timeout, counters) = consumeCounter (xp_timeoutAfterSuccess p) operationID
          in (p\<lparr>xp_results := dset operationID result (xp_results p), xp_timeoutAfterSuccess := counters\<rparr>,
              result, if timeout then Some ErrExternalTimeout else None))"

definition External_EffectCount :: "string \<Rightarrow> ExternalProcessor \<Rightarrow> nat" where
  "External_EffectCount operationID p = (if dget (xp_results p) operationID = None then 0 else 1)"

definition External_Result :: "string \<Rightarrow> ExternalProcessor \<Rightarrow> ExternalResult option" where
  "External_Result operationID p = dget (xp_results p) operationID"

definition IsCommittedExternalTimeout :: "world_error \<Rightarrow> bool" where
  "IsCommittedExternalTimeout e \<longleftrightarrow> e = ErrExternalTimeout"

section \<open>Sorting\<close>

lemma sink_append:
  assumes "sorted as"
  shows "\<exists>ys. sink (length as) (as @ x # bs) = ys @ bs \<and> sorted ys \<and> mset ys = add_mset x (mset as)"
  using assms
proof (induction as arbitrary: bs rule: rev_induct)
  case (snoc a as)
  show ?case
  proof (cases "x < a")
    case True
    obtain ys where ys: "sink (length as) (as @ x # a # bs) = ys @ a # bs" "sorted ys" "mset ys = add_mset x (mset as)"
      using snoc.IH [of "a # bs"] snoc.prems by (auto simp: sorted_append)
    have "set ys = insert x (set as)" using ys(3) by (metis set_mset_add_mset_insert set_mset_mset)
    then have "sorted (ys @ [a])" using ys(2) True snoc.prems by (auto simp: sorted_append)
    with ys True show ?thesis
      by (intro exI [of _ "ys @ [a]"]) (simp add: nth_append list_update_append)
  next
    case False
    then have "sorted (as @ [a, x])" using snoc.prems by (auto simp: sorted_append)
    with False show ?thesis by (intro exI [of _ "as @ [a, x]"]) (simp add: nth_append)
  qed
qed simp

lemma fold_sink:
  "n \<le> length xs \<Longrightarrow> \<exists>ys. fold sink [1..<n] xs = ys @ drop n xs \<and> sorted ys \<and> mset ys = mset (take n xs)"
proof (induction n)
  case (Suc n)
  show ?case
  proof (cases "n = 0")
    case True
    with Suc.prems show ?thesis by (cases xs) auto
  next
    case False
    obtain ys where ys: "fold sink [1..<n] xs = ys @ drop n xs" "sorted ys" "mset ys = mset (take n xs)"
      using Suc by auto
    have len: "length ys = n" using ys(3) Suc.prems by (metis Suc_leD length_take min.absorb2 size_mset)
    have "drop n xs = xs ! n # drop (Suc n) xs" using Suc.prems by (simp add: Cons_nth_drop_Suc)
    with sink_append [OF ys(2), of "xs ! n" "drop (Suc n) xs"] ys(1) len False
    obtain zs where "fold sink [1..<Suc n] xs = zs @ drop (Suc n) xs" "sorted zs"
        "mset zs = add_mset (xs ! n) (mset ys)"
      by auto
    with ys(3) Suc.prems show ?thesis by (auto simp: take_Suc_conv_app_nth)
  qed
qed simp

lemma sortStrings_sort: "sortStrings xs = sort xs"
proof -
  obtain ys where ys: "fold sink [1..<length xs] xs = ys" "sorted ys" "mset ys = mset xs"
    using fold_sink [of "length xs" xs] by auto
  then show ?thesis by (simp add: sortStrings_def properties_for_sort)
qed

end
