(* ===== verification/Sim_Invariants.thy ===== *)
theory Sim_Invariants
  imports Sim_Saga
begin

text \<open>
  The auditor \<^verbatim>\<open>AssertAllFinancialInvariants\<close> of \<^verbatim>\<open>internal/failuresim/invariants.go\<close>, one definition per loop or
  group of tests, in the order of the code. \<open>None\<close> is the result nil.
\<close>

definition bad :: "string \<Rightarrow> world_error" where
  "bad msg = ErrWorldOther msg"

definition addChecked :: "amount \<Rightarrow> amount \<Rightarrow> ledger_error option \<Rightarrow> ledger_error + amount" where
  "addChecked current a prior = (case prior of Some e \<Rightarrow> Inl e | None \<Rightarrow> Amount_Add current a)"

definition subtractChecked :: "amount \<Rightarrow> amount \<Rightarrow> ledger_error option \<Rightarrow> ledger_error + amount" where
  "subtractChecked current a prior = (case prior of Some e \<Rightarrow> Inl e | None \<Rightarrow> Amount_Sub current a)"

section \<open>The journal\<close>

definition sum_error :: "ledger_error + amount \<Rightarrow> ledger_error option" where
  "sum_error r = (case r of Inl e \<Rightarrow> Some e | Inr _ \<Rightarrow> None)"

definition sum_value :: "ledger_error + amount \<Rightarrow> amount" where
  "sum_value r = (case r of Inl e \<Rightarrow> 0 | Inr v \<Rightarrow> v)"

fun audit_lines :: "string \<Rightarrow> JournalLine list \<Rightarrow> asset_totals \<Rightarrow> (string, amount) dict \<Rightarrow>
    world_error + asset_totals \<times> (string, amount) dict" where
  "audit_lines txID [] perAsset folded = Inr (perAsset, folded)"
| "audit_lines txID (l # ls) perAsset folded =
     (if Amount_Sign (jl_Amount l) \<le> 0
      then Inl (bad (''transaction '' @ txID @ '' contains non-positive amount''))
      else
        let total = dget_or (0, 0) perAsset (jl_Asset l);
            current = dget_or 0 folded (jl_Account l)
        in if jl_Side l = Debit then
             (let d = Amount_Add (fst total) (jl_Amount l);
                  f = subtractChecked current (jl_Amount l) (sum_error d)
              in case sum_error f of
                   Some e \<Rightarrow> Inl (bad (''fold transaction '' @ txID))
                 | None \<Rightarrow> audit_lines txID ls (dset (jl_Asset l) (sum_value d, snd total) perAsset)
                             (dset (jl_Account l) (sum_value f) folded))
           else if jl_Side l = Credit then
             (let c = Amount_Add (snd total) (jl_Amount l);
                  f = addChecked current (jl_Amount l) (sum_error c)
              in case sum_error f of
                   Some e \<Rightarrow> Inl (bad (''fold transaction '' @ txID))
                 | None \<Rightarrow> audit_lines txID ls (dset (jl_Asset l) (fst total, sum_value c) perAsset)
                             (dset (jl_Account l) (sum_value f) folded))
           else Inl (bad (''transaction '' @ txID @ '' contains invalid side'')))"

record audit =
  au_folded :: "(string, amount) dict"
  au_seenEffects :: "(string, unit) dict"
  au_transactions :: "(string, JournalTransaction) dict"
  au_previousHash :: bytes

definition audit_start :: audit where
  "audit_start = \<lparr>au_folded = dempty, au_seenEffects = dempty, au_transactions = dempty,
     au_previousHash = zero_hash\<rparr>"

definition audit_transaction :: "nat \<Rightarrow> JournalTransaction \<Rightarrow> audit \<Rightarrow> world_error + audit" where
  "audit_transaction index t au =
     (if jt_Sequence t \<noteq> word_of_nat (index + 1) then Inl (bad ''sequence gap'')
      else if jt_PreviousHash t \<noteq> au_previousHash au \<or> jt_Hash t \<noteq> hashTransaction t
      then Inl (bad ''journal hash-chain mismatch'')
      else if dget (au_seenEffects au) (jt_EffectID t) \<noteq> None
      then Inl (bad (''economic effect '' @ jt_EffectID t @ '' appears more than once''))
      else if dget (au_transactions au) (jt_ID t) \<noteq> None
      then Inl (bad (''duplicate transaction id '' @ jt_ID t))
      else case audit_lines (jt_ID t) (jt_Lines t) dempty (au_folded au) of
        Inl e \<Rightarrow> Inl e
      | Inr (perAsset, folded) \<Rightarrow>
          (case first_error unbalanced_asset (entries perAsset) of
             Some e \<Rightarrow> Inl (bad (''transaction '' @ jt_ID t @ '' is unbalanced''))
           | None \<Rightarrow> Inr \<lparr>au_folded = folded,
                           au_seenEffects = dset (jt_EffectID t) () (au_seenEffects au),
                           au_transactions = dset (jt_ID t) t (au_transactions au),
                           au_previousHash = jt_Hash t\<rparr>))"

fun audit_journal :: "nat \<Rightarrow> JournalTransaction list \<Rightarrow> audit \<Rightarrow> world_error + audit" where
  "audit_journal index [] au = Inr au"
| "audit_journal index (t # ts) au =
     (case audit_transaction index t au of Inl e \<Rightarrow> Inl e | Inr au' \<Rightarrow> audit_journal (Suc index) ts au')"

definition check_head :: "World \<Rightarrow> audit \<Rightarrow> world_error option" where
  "check_head w au =
     (if au_previousHash au \<noteq> w_headHash w \<or> word_of_nat (length (w_journal w)) \<noteq> w_sequence w
      then Some (bad ''journal head is inconsistent'') else None)"

definition check_folded :: "World \<Rightarrow> audit \<Rightarrow> world_error option" where
  "check_folded w au = first_error (\<lambda>(account, expected).
     if Amount_Cmp (dget_or 0 (w_balances w) account) expected \<noteq> 0
     then Some (bad (''journal replay delta for '' @ account)) else None) (entries (au_folded au))"

definition check_balances :: "World \<Rightarrow> audit \<Rightarrow> world_error option" where
  "check_balances w au = first_error (\<lambda>(account, actual).
     if Amount_Cmp actual (dget_or 0 (au_folded au) account) \<noteq> 0
     then Some (bad (''unexplained materialized balance for '' @ account)) else None) (entries (w_balances w))"

definition check_effects :: "World \<Rightarrow> audit \<Rightarrow> world_error option" where
  "check_effects w au = first_error (\<lambda>(effectID, effect).
     if dget (au_seenEffects au) effectID = None
     then Some (bad (''effect receipt '' @ effectID @ '' has no journal transaction''))
     else case dget (au_transactions au) (rc_TransactionID (ef_receipt effect)) of
       None \<Rightarrow> Some (bad (''effect receipt '' @ effectID @ '' references missing transaction''))
     | Some t \<Rightarrow>
         if jt_EffectID t \<noteq> effectID \<or> jt_Sequence t \<noteq> rc_CommitSequence (ef_receipt effect)
            \<or> rc_EffectID (ef_receipt effect) \<noteq> effectID \<or> jt_RequestHash t \<noteq> ef_fingerprint effect
         then Some (bad (''effect receipt '' @ effectID @ '' does not prove its journal commit''))
         else None) (entries (w_effects w))"

definition check_idempotency :: "World \<Rightarrow> world_error option" where
  "check_idempotency w = first_error (\<lambda>(key, r).
     case dget (w_effects w) (rc_EffectID (id_receipt r)) of
       None \<Rightarrow> Some (bad (''committed success '' @ key @ '' lacks durable effect receipt''))
     | Some effect \<Rightarrow>
         if id_requestHash r \<noteq> ef_fingerprint effect
            \<or> rc_TransactionID (ef_receipt effect) \<noteq> rc_TransactionID (id_receipt r)
            \<or> rc_CommitSequence (ef_receipt effect) \<noteq> rc_CommitSequence (id_receipt r)
         then Some (bad (''committed success '' @ key @ '' lacks durable effect receipt''))
         else None) (entries (w_idempotency w))"

section \<open>Balances and escrow\<close>

definition check_available :: "World \<Rightarrow> world_error option" where
  "check_available w =
     (case Amount_Add (dget_or 0 (w_balances w) UserAccount) (w_creditLimit w) of
        Inl e \<Rightarrow> Some (ErrLedger e)
      | Inr available \<Rightarrow>
          if Amount_Sign available < 0 then Some (bad ''available balance is below explicit credit'')
          else if Amount_Cmp available (w_authorityTotal w) \<noteq> 0 then Some (bad ''balance/authority residual'')
          else None)"

fun sum_rights :: "World \<Rightarrow> (string \<times> regionState) list \<Rightarrow> amount \<Rightarrow> world_error + amount" where
  "sum_rights w [] escrow = Inr escrow"
| "sum_rights w ((name, region) # rest) escrow =
     (if Amount_Sign (rs_rights region) < 0 then Inl (bad (''negative rights in region '' @ name))
      else case Amount_Add escrow (rs_rights region) of
        Inl e \<Rightarrow> Inl (ErrLedger e)
      | Inr escrow' \<Rightarrow>
          if Amount_Cmp (dget_or 0 (w_balances w) (RegionalAuthorityAccount name)) (rs_rights region) \<noteq> 0
          then Inl (bad (''rights journal mismatch in '' @ name))
          else sum_rights w rest escrow')"

definition check_transfer :: "World \<Rightarrow> string \<Rightarrow> transferState \<Rightarrow> amount \<Rightarrow> world_error + amount" where
  "check_transfer w transferID t inTransit =
     (if \<not> verifyCertificateLocked (tr_certificate t) w
      then Inl (bad (''transfer '' @ transferID @ '' has invalid commit proof''))
      else if tr_inTransit t = tr_consumed t
      then Inl (bad (''transfer '' @ transferID @ '' must be exclusively in-transit or consumed''))
      else case (if tr_inTransit t then Amount_Add inTransit (tc_Amount (tr_certificate t)) else Inr inTransit) of
        Inl e \<Rightarrow> Inl (ErrLedger e)
      | Inr inTransit' \<Rightarrow>
          if tr_sourceAcknowledged t \<and> \<not> tr_consumed t
          then Inl (bad (''transfer '' @ transferID @ '' acknowledged before consumption''))
          else if tr_consumed t \<and> dget (w_inbox w) (''transfer:'' @ transferID) = None
          then Inl (bad (''consumed transfer '' @ transferID @ '' lacks durable inbox proof''))
          else if tr_consumed t \<and> EffectCount (''rights-transfer-in:'' @ transferID) w \<noteq> 1
          then Inl (bad (''transfer '' @ transferID @ '' destination effect count is not one''))
          else Inr inTransit')"

fun sum_transit :: "World \<Rightarrow> (string \<times> transferState) list \<Rightarrow> amount \<Rightarrow> world_error + amount" where
  "sum_transit w [] inTransit = Inr inTransit"
| "sum_transit w ((transferID, t) # rest) inTransit =
     (case check_transfer w transferID t inTransit of Inl e \<Rightarrow> Inl e | Inr i \<Rightarrow> sum_transit w rest i)"

definition check_escrow :: "World \<Rightarrow> world_error option" where
  "check_escrow w =
     (case sum_rights w (entries (w_regions w)) (w_unallocated w) of
        Inl e \<Rightarrow> Some e
      | Inr escrow \<Rightarrow>
          (case sum_transit w (entries (w_transfers w)) 0 of
             Inl e \<Rightarrow> Some e
           | Inr inTransit \<Rightarrow>
               (case Amount_Add escrow inTransit of
                  Inl e \<Rightarrow> Some (ErrLedger e)
                | Inr escrowTotal \<Rightarrow>
                    if Amount_Cmp escrowTotal (w_authorityTotal w) \<noteq> 0
                    then Some (bad ''escrow conservation residual'')
                    else if Amount_Cmp (dget_or 0 (w_balances w) AuthorityTransitAccount) inTransit \<noteq> 0
                    then Some (bad ''in-transit journal mismatch'')
                    else if Amount_Cmp (dget_or 0 (w_balances w) AuthorityUnallocatedAccount) (w_unallocated w) \<noteq> 0
                    then Some (bad ''unallocated authority journal mismatch'')
                    else None)))"

section \<open>Payments, cashback, messages and sagas\<close>

definition check_payment :: "string \<times> paymentState \<Rightarrow> world_error option" where
  "check_payment = (\<lambda>(_, p).
     if 0 < Amount_Cmp (pm_captured p) (pm_authorized p)
     then Some (bad (''payment '' @ pm_operationID p @ '' captured above authorization''))
     else case amountSum [pm_refunded p, pm_reversed p, pm_chargedBack p] of
       Inl e \<Rightarrow> Some (bad (''payment '' @ pm_operationID p @ '' released above capture''))
     | Inr released \<Rightarrow>
         if 0 < Amount_Cmp released (pm_captured p)
         then Some (bad (''payment '' @ pm_operationID p @ '' released above capture''))
         else if rc_TransactionID (pm_receipt p) = []
         then Some (bad (''payment '' @ pm_operationID p @ '' lacks durable receipt''))
         else None)"

definition check_cashback :: "World \<Rightarrow> string \<times> amount \<Rightarrow> world_error option" where
  "check_cashback w = (\<lambda>(operationID, paid).
     case dget (w_cashbackRules w) operationID of
       None \<Rightarrow> Some (bad (''cashback rule violation for '' @ operationID))
     | Some maximum \<Rightarrow> if 0 < Amount_Cmp paid maximum
                       then Some (bad (''cashback rule violation for '' @ operationID)) else None)"

definition check_outbox :: "audit \<Rightarrow> string \<times> OutboxRecord \<Rightarrow> world_error option" where
  "check_outbox au = (\<lambda>(messageID, r).
     if ob_MessageID r \<noteq> messageID then Some (bad (''outbox key mismatch for '' @ messageID))
     else if dget (au_transactions au) (ob_ParentTransactionID r) = None
     then Some (bad (''outbox '' @ messageID @ '' lacks parent transaction''))
     else None)"

definition check_inbox :: "World \<Rightarrow> string \<times> InboxRecord \<Rightarrow> world_error option" where
  "check_inbox w = (\<lambda>(messageID, r).
     if ib_MessageID r \<noteq> messageID \<or> ib_EffectID r = [] then Some (bad (''invalid inbox receipt '' @ messageID))
     else if dget (w_effects w) (ib_EffectID r) = None
     then Some (bad (''inbox '' @ messageID @ '' references missing economic effect''))
     else None)"

definition check_saga :: "World \<Rightarrow> string \<times> SagaSnapshot \<Rightarrow> world_error option" where
  "check_saga w = (\<lambda>(sagaID, s).
     if ss_NextStep s < 0 \<or> 2 < ss_NextStep s \<or> (ss_Completed s \<and> ss_NextStep s \<noteq> 2)
     then Some (bad (''saga '' @ sagaID @ '' has invalid durable progress''))
     else if 0 < ss_NextStep s \<and> dget (w_effects w) (''payment:'' @ ss_OperationID s) = None
     then Some (bad (''saga '' @ sagaID @ '' advanced without payment effect''))
     else None)"

fun first_some :: "'e option list \<Rightarrow> 'e option" where
  "first_some [] = None"
| "first_some (x # xs) = (case x of Some e \<Rightarrow> Some e | None \<Rightarrow> first_some xs)"

definition AssertAllFinancialInvariants :: "World \<Rightarrow> world_error option" where
  "AssertAllFinancialInvariants w =
     (case audit_journal 0 (w_journal w) audit_start of
        Inl e \<Rightarrow> Some e
      | Inr au \<Rightarrow> first_some
          [check_head w au,
           check_folded w au,
           check_balances w au,
           check_effects w au,
           check_idempotency w,
           check_available w,
           check_escrow w,
           first_error check_payment (entries (w_payments w)),
           first_error (check_cashback w) (entries (w_cashbackPaid w)),
           first_error (check_outbox au) (entries (w_outbox w)),
           first_error (check_inbox w) (entries (w_inbox w)),
           first_error (check_saga w) (entries (w_sagas w))])"

definition Reconcile :: "nat \<Rightarrow> World \<Rightarrow> World \<times> world_error option" where
  "Reconcile maxRounds w =
     (case PumpUntilSettled maxRounds w of
        (w1, Some e) \<Rightarrow> (w1, Some e)
      | (w1, None) \<Rightarrow> (w1, AssertAllFinancialInvariants w1))"

end
