(* ===== verification/Sim_Journal.thy ===== *)
theory Sim_Journal
  imports Sim_Invariants
begin

text \<open>
  What \<^verbatim>\<open>postLocked\<close> does to the journal and to the balances. \<open>post_audit\<close> shows that the loop of the auditor
  simulates the loop of the writer line by line; \<open>journal_ok\<close> is the part of the simulator invariant that
  speaks of the journal, and \<open>postLocked_posted\<close> shows that a new posting keeps it and adds exactly the
  signed amounts of its lines to the balances.
\<close>

section \<open>Definitions\<close>

definition line_delta :: "JournalLine \<Rightarrow> string \<Rightarrow> int" where
  "line_delta l a = (if jl_Account l = a then (if jl_Side l = Credit then jl_Amount l else - jl_Amount l) else 0)"

definition lines_delta :: "JournalLine list \<Rightarrow> string \<Rightarrow> int" where
  "lines_delta ls a = sum_list (map (\<lambda>l. line_delta l a) ls)"

text \<open>The balance the writer sees in the middle of its loop.\<close>

definition overlay :: "(string, amount) dict \<Rightarrow> (string, amount) dict \<Rightarrow> string \<Rightarrow> amount" where
  "overlay balances prospective a =
     (case dget prospective a of Some b \<Rightarrow> b | None \<Rightarrow> dget_or 0 balances a)"

definition journal_ids :: "JournalTransaction list \<Rightarrow> string set" where
  "journal_ids j = jt_ID ` set j"

text \<open>The journal passes the audit, and the materialised views agree with what the audit computes.\<close>

definition audited :: "JournalTransaction list \<Rightarrow> (string, amount) dict \<Rightarrow> uint64 \<Rightarrow> bytes \<Rightarrow>
    (string, effectRecord) dict \<Rightarrow> audit \<Rightarrow> bool" where
  "audited j b s h E au \<longleftrightarrow>
     audit_journal 0 j audit_start = Inr au
     \<and> au_previousHash au = h \<and> s = word_of_nat (length j)
     \<and> (\<forall>a. dget_or 0 (au_folded au) a = dget_or 0 b a)
     \<and> (\<forall>e. dget (au_seenEffects au) e = None \<longleftrightarrow> dget E e = None)
     \<and> (\<forall>e r. dget E e = Some r \<longrightarrow> (\<exists>t. dget (au_transactions au) (rc_TransactionID (ef_receipt r)) = Some t
          \<and> jt_EffectID t = e \<and> jt_Sequence t = rc_CommitSequence (ef_receipt r)
          \<and> rc_EffectID (ef_receipt r) = e \<and> jt_RequestHash t = ef_fingerprint r))
     \<and> (\<forall>i. dget (au_transactions au) i \<noteq> None \<longleftrightarrow> i \<in> journal_ids j)
     \<and> (\<forall>i \<in> journal_ids j. \<exists>n. 0 < n \<and> n \<le> length j \<and> i = transaction_id (word_of_nat n))
     \<and> (\<forall>e. length (filter (\<lambda>t. jt_EffectID t = e) j) = (if dget E e = None then 0 else 1))"

definition journal_ok :: "JournalTransaction list \<Rightarrow> (string, amount) dict \<Rightarrow> uint64 \<Rightarrow> bytes \<Rightarrow>
    (string, effectRecord) dict \<Rightarrow> bool" where
  "journal_ok j b s h E \<longleftrightarrow> (\<exists>au. audited j b s h E au)"

text \<open>The effect of a posting that is not a replay.\<close>

definition posted :: "string \<Rightarrow> bytes \<Rightarrow> JournalLine list \<Rightarrow> Receipt \<Rightarrow> World \<Rightarrow> World \<Rightarrow> bool" where
  "posted e f ls r w w' \<longleftrightarrow>
     dget (w_effects w) e = None
     \<and> rc_EffectID r = e \<and> rc_TransactionID r = transaction_id (w_sequence w + 1)
     \<and> rc_CommitSequence r = w_sequence w + 1 \<and> rc_IdempotencyKey r = [] \<and> \<not> rc_Duplicate r
     \<and> (\<exists>b t. (\<forall>a. dget_or 0 b a = dget_or 0 (w_balances w) a + lines_delta ls a)
         \<and> (\<forall>a. lines_delta ls a \<noteq> 0 \<longrightarrow> fitsDecimal38 (dget_or 0 b a))
         \<and> jt_ID t = rc_TransactionID r \<and> jt_EffectID t = e \<and> jt_Lines t = ls
         \<and> w' = w\<lparr>w_balances := b, w_sequence := w_sequence w + 1, w_headHash := jt_Hash t,
               w_journal := w_journal w @ [t],
               w_effects := dset e \<lparr>ef_fingerprint = f, ef_receipt = r\<rparr> (w_effects w)\<rparr>)"

section \<open>Lines\<close>

lemma lines_delta_simps [simp]:
  "lines_delta [] a = 0"
  "lines_delta (l # ls) a = line_delta l a + lines_delta ls a"
  by (simp_all add: lines_delta_def)

lemma line_delta_mk [simp]:
  "line_delta (mk_line account asset Credit v) a = (if account = a then v else 0)"
  "line_delta (mk_line account asset Debit v) a = (if account = a then - v else 0)"
  by (simp_all add: line_delta_def mk_line_def)

lemma dget_fold_dset:
  "distinct (map fst kvs) \<Longrightarrow>
   dget (fold (\<lambda>(k, v). dset k v) kvs m) a = (case map_of kvs a of Some v \<Rightarrow> Some v | None \<Rightarrow> dget m a)"
proof (induction kvs arbitrary: m)
  case (Cons kv kvs)
  obtain k v where kv: "kv = (k, v)" by (cases kv)
  have "map_of kvs k = None" using Cons.prems by (simp add: kv map_of_eq_None_iff)
  with Cons.IH [of "dset k v m"] Cons.prems show ?case
    by (cases "a = k") (simp_all add: kv DAList.lookup_update split: option.split)
qed simp

lemma distinct_entries [simp]: "distinct (map fst (entries m))"
  using impl_of [of m] by simp

lemma dget_dict_merge:
  "dget (dict_merge m p) a = (case dget p a of Some v \<Rightarrow> Some v | None \<Rightarrow> dget m a)"
proof -
  have "map_of (entries p) a = dget p a" by (simp add: DAList.lookup.rep_eq)
  then show ?thesis by (simp only: dict_merge_def dget_fold_dset distinct_entries)
qed

lemma dget_or_dict_merge: "dget_or 0 (dict_merge m p) a = overlay m p a"
  by (simp add: dget_or_def overlay_def dget_dict_merge split: option.splits)

lemma overlay_dset [simp]: "overlay b (dset k v p) a = (if a = k then v else overlay b p a)"
  by (simp add: overlay_def DAList.lookup_update)

lemma overlay_empty [simp]: "overlay b dempty a = dget_or 0 b a"
  by (simp add: overlay_def)

lemma map_sum_Inr: "map_sum id g x = Inr y \<longleftrightarrow> (\<exists>z. x = Inr z \<and> y = g z)"
  by (cases x) auto

text \<open>One line that the writer accepts.\<close>

lemma post_lines_Cons:
  assumes "post_lines b (l # ls) P Q = Inr R"
  obtains tot where
    "0 < jl_Amount l" "jl_Side l = Debit \<or> jl_Side l = Credit"
    "fitsDecimal38 (overlay b Q (jl_Account l) + line_delta l (jl_Account l))"
    "if jl_Side l = Debit
     then Amount_Add (fst (dget_or (0, 0) P (jl_Asset l))) (jl_Amount l) = Inr (fst tot)
          \<and> snd tot = snd (dget_or (0, 0) P (jl_Asset l))
     else Amount_Add (snd (dget_or (0, 0) P (jl_Asset l))) (jl_Amount l) = Inr (snd tot)
          \<and> fst tot = fst (dget_or (0, 0) P (jl_Asset l))"
    "post_lines b ls (dset (jl_Asset l) tot P)
       (dset (jl_Account l) (overlay b Q (jl_Account l) + line_delta l (jl_Account l)) Q) = Inr R"
proof -
  let ?tot = "dget_or (0, 0) P (jl_Asset l)"
  have side: "jl_Side l = Debit \<or> jl_Side l = Credit" and pos: "0 < jl_Amount l"
    using assms by (auto split: if_splits)
  show thesis
  proof (cases "jl_Side l = Debit")
    case True
    with assms show thesis
      by (intro that [of "(fst ?tot + jl_Amount l, snd ?tot)"])
         (auto simp: Let_def line_delta_def overlay_def map_sum_Inr Amount_Add_Inr Amount_Sub_Inr
           split: if_splits sum.splits)
  next
    case False
    with side have "jl_Side l = Credit" by simp
    with assms show thesis
      by (intro that [of "(fst ?tot, snd ?tot + jl_Amount l)"])
         (auto simp: Let_def line_delta_def overlay_def map_sum_Inr Amount_Add_Inr Amount_Sub_Inr
           split: if_splits sum.splits)
  qed
qed

lemma post_lines_overlay:
  "post_lines b ls P Q = Inr (P', Q') \<Longrightarrow> overlay b Q' a = overlay b Q a + lines_delta ls a"
proof (induction ls arbitrary: P Q)
  case (Cons l ls)
  from Cons.prems show ?case
  proof (rule post_lines_Cons)
    fix tot assume "post_lines b ls (dset (jl_Asset l) tot P)
       (dset (jl_Account l) (overlay b Q (jl_Account l) + line_delta l (jl_Account l)) Q) = Inr (P', Q')"
    then show ?thesis using Cons.IH by (simp add: line_delta_def)
  qed
qed simp

text \<open>Every account the writer touches ends within 38 digits.\<close>

lemma post_lines_fits:
  "post_lines b ls P Q = Inr (P', Q') \<Longrightarrow> (\<forall>a v. dget Q a = Some v \<longrightarrow> fitsDecimal38 v) \<Longrightarrow>
   dget Q' a = Some v \<Longrightarrow> fitsDecimal38 v"
proof (induction ls arbitrary: P Q)
  case (Cons l ls)
  from Cons.prems(1) show ?case
  proof (rule post_lines_Cons)
    fix tot
    assume "fitsDecimal38 (overlay b Q (jl_Account l) + line_delta l (jl_Account l))"
      and rest: "post_lines b ls (dset (jl_Asset l) tot P)
       (dset (jl_Account l) (overlay b Q (jl_Account l) + line_delta l (jl_Account l)) Q) = Inr (P', Q')"
    then show ?thesis
      using Cons.prems(2,3) by (intro Cons.IH [OF rest]) (auto simp: DAList.lookup_update split: if_splits)
  qed
qed simp

text \<open>The auditor accepts what the writer accepted, with the same totals per asset.\<close>

lemma post_audit:
  "post_lines b ls P Q = Inr (P', Q') \<Longrightarrow> (\<forall>a. dget_or 0 F a = overlay b Q a) \<Longrightarrow>
   \<exists>F'. audit_lines i ls P F = Inr (P', F') \<and> (\<forall>a. dget_or 0 F' a = overlay b Q' a)"
proof (induction ls arbitrary: P Q F)
  case (Cons l ls)
  from Cons.prems(1) show ?case
  proof (rule post_lines_Cons)
    fix tot
    let ?v = "overlay b Q (jl_Account l) + line_delta l (jl_Account l)"
    assume l: "0 < jl_Amount l" "jl_Side l = Debit \<or> jl_Side l = Credit" "fitsDecimal38 ?v"
      and t: "if jl_Side l = Debit
        then Amount_Add (fst (dget_or (0, 0) P (jl_Asset l))) (jl_Amount l) = Inr (fst tot)
          \<and> snd tot = snd (dget_or (0, 0) P (jl_Asset l))
        else Amount_Add (snd (dget_or (0, 0) P (jl_Asset l))) (jl_Amount l) = Inr (snd tot)
          \<and> fst tot = fst (dget_or (0, 0) P (jl_Asset l))"
      and rest: "post_lines b ls (dset (jl_Asset l) tot P) (dset (jl_Account l) ?v Q) = Inr (P', Q')"
    have "\<exists>F'. audit_lines i ls (dset (jl_Asset l) tot P) (dset (jl_Account l) ?v F) = Inr (P', F')
        \<and> (\<forall>a. dget_or 0 F' a = overlay b Q' a)"
      using rest Cons.prems(2) by (intro Cons.IH) auto
    moreover have "audit_lines i (l # ls) P F = audit_lines i ls (dset (jl_Asset l) tot P) (dset (jl_Account l) ?v F)"
      using l t Cons.prems(2)
      by (cases tot; cases "jl_Side l = Debit")
         (auto simp: Let_def sum_error_def sum_value_def addChecked_def subtractChecked_def line_delta_def)
    ultimately show ?thesis by simp
  qed
qed simp

section \<open>Transactions\<close>

lemma audit_journal_append:
  "audit_journal i (xs @ ys) au =
     (case audit_journal i xs au of Inl e \<Rightarrow> Inl e | Inr au' \<Rightarrow> audit_journal (i + length xs) ys au')"
  by (induction xs arbitrary: i au) (auto split: sum.splits)

lemma transaction_id_inject: "transaction_id a = transaction_id b \<longleftrightarrow> a = b"
  by (simp add: transaction_id_def inj_pad_dec word_unat_eq_iff)

lemma transaction_id_fresh:
  assumes "\<forall>i \<in> journal_ids j. \<exists>n. 0 < n \<and> n \<le> length j \<and> i = transaction_id (word_of_nat n)"
    and "Suc (length j) < 2 ^ 64"
  shows "transaction_id (word_of_nat (length j) + 1) \<notin> journal_ids j"
proof
  assume "transaction_id (word_of_nat (length j) + 1) \<in> journal_ids j"
  then obtain n where n: "n \<le> length j" "(word_of_nat (Suc (length j)) :: uint64) = word_of_nat n"
    using assms(1) by (auto simp: transaction_id_inject add.commute)
  then have "unat (word_of_nat (Suc (length j)) :: uint64) = unat (word_of_nat n :: uint64)" by simp
  then have "Suc (length j) = n" using n(1) assms(2) by (simp add: unsigned_of_nat take_bit_nat_eq_self del: of_nat_Suc)
  with n(1) show False by simp
qed

text \<open>A successful \<^verbatim>\<open>postLocked\<close> of a new effect.\<close>

lemma postLocked_new:
  assumes "postLocked e k f ls w = (w', Inr r)" and "dget (w_effects w) e = None"
  obtains P Q t where
    "post_lines (w_balances w) ls dempty dempty = Inr (P, Q)"
    "first_error unbalanced_asset (entries P) = None"
    "t = \<lparr>jt_Sequence = w_sequence w + 1, jt_ID = transaction_id (w_sequence w + 1), jt_EffectID = e,
          jt_Kind = k, jt_RequestHash = f, jt_PreviousHash = w_headHash w, jt_Hash = jt_Hash t, jt_Lines = ls\<rparr>"
    "jt_Hash t = hashTransaction t"
    "r = \<lparr>rc_IdempotencyKey = [], rc_EffectID = e, rc_TransactionID = transaction_id (w_sequence w + 1),
          rc_CommitSequence = w_sequence w + 1, rc_Duplicate = False\<rparr>"
    "w' = w\<lparr>w_balances := dict_merge (w_balances w) Q, w_sequence := w_sequence w + 1,
            w_headHash := jt_Hash t, w_journal := w_journal w @ [t],
            w_effects := dset e \<lparr>ef_fingerprint = f, ef_receipt = r\<rparr> (w_effects w)\<rparr>"
proof -
  define t0 where "t0 = \<lparr>jt_Sequence = w_sequence w + 1, jt_ID = transaction_id (w_sequence w + 1),
    jt_EffectID = e, jt_Kind = k, jt_RequestHash = f, jt_PreviousHash = w_headHash w, jt_Hash = zero_hash,
    jt_Lines = ls\<rparr>"
  have h: "hashTransaction (t0\<lparr>jt_Hash := x\<rparr>) = hashTransaction t0" for x
    by (simp add: hashTransaction_def t0_def)
  obtain P Q where PQ: "post_lines (w_balances w) ls dempty dempty = Inr (P, Q)"
      "first_error unbalanced_asset (entries P) = None"
    using assms by (auto simp: postLocked_def Let_def split: if_splits sum.splits option.splits)
  show thesis
  proof (rule that [OF PQ, of "t0\<lparr>jt_Hash := hashTransaction t0\<rparr>"])
    show "jt_Hash (t0\<lparr>jt_Hash := hashTransaction t0\<rparr>) = hashTransaction (t0\<lparr>jt_Hash := hashTransaction t0\<rparr>)"
      by (simp only: h) simp
  qed (use assms PQ in \<open>auto simp: postLocked_def Let_def t0_def split: if_splits\<close>)
qed


lemma postLocked_posted:
  assumes "postLocked e k f ls w = (w', Inr r)" and "dget (w_effects w) e = None"
  shows "posted e f ls r w w'"
  using assms
proof (rule postLocked_new)
  fix P Q t
  let ?b = "dict_merge (w_balances w) Q"
  assume pl: "post_lines (w_balances w) ls dempty dempty = Inr (P, Q)"
    and t: "t = \<lparr>jt_Sequence = w_sequence w + 1, jt_ID = transaction_id (w_sequence w + 1), jt_EffectID = e,
          jt_Kind = k, jt_RequestHash = f, jt_PreviousHash = w_headHash w, jt_Hash = jt_Hash t, jt_Lines = ls\<rparr>"
    and r: "r = \<lparr>rc_IdempotencyKey = [], rc_EffectID = e, rc_TransactionID = transaction_id (w_sequence w + 1),
          rc_CommitSequence = w_sequence w + 1, rc_Duplicate = False\<rparr>"
    and w': "w' = w\<lparr>w_balances := ?b, w_sequence := w_sequence w + 1,
            w_headHash := jt_Hash t, w_journal := w_journal w @ [t],
            w_effects := dset e \<lparr>ef_fingerprint = f, ef_receipt = r\<rparr> (w_effects w)\<rparr>"
  have bal: "dget_or 0 ?b a = dget_or 0 (w_balances w) a + lines_delta ls a" for a
    using post_lines_overlay [OF pl] by (simp add: dget_or_dict_merge)
  have "fitsDecimal38 (dget_or 0 ?b a)" if "lines_delta ls a \<noteq> 0" for a
  proof (cases "dget Q a")
    case None
    then have "dget_or 0 ?b a = dget_or 0 (w_balances w) a" by (simp add: dget_or_dict_merge overlay_def)
    with bal [of a] that show ?thesis by simp
  next
    case (Some v)
    with post_lines_fits [OF pl _ Some] show ?thesis by (simp add: dget_or_dict_merge overlay_def)
  qed
  moreover have "jt_ID t = transaction_id (w_sequence w + 1)" "jt_EffectID t = e" "jt_Lines t = ls"
    by (subst t, simp)+
  ultimately show ?thesis
    unfolding posted_def
    by (intro conjI exI [of _ ?b] exI [of _ t]) (use assms(2) bal w' in \<open>simp_all add: r\<close>)
qed

lemma audited_post:
  assumes au: "audited (w_journal w) (w_balances w) (w_sequence w) (w_headHash w) (w_effects w) au"
    and post: "postLocked e k f ls w = (w', Inr r)" "dget (w_effects w) e = None"
    and len: "Suc (length (w_journal w)) < 2 ^ 64"
  shows "\<exists>au'. audited (w_journal w') (w_balances w') (w_sequence w') (w_headHash w') (w_effects w') au'"
  using post
proof (rule postLocked_new)
  fix P Q t
  let ?j = "w_journal w" and ?s = "w_sequence w + 1"
  assume pl: "post_lines (w_balances w) ls dempty dempty = Inr (P, Q)"
    and bal: "first_error unbalanced_asset (entries P) = None"
    and t: "t = \<lparr>jt_Sequence = ?s, jt_ID = transaction_id ?s, jt_EffectID = e,
          jt_Kind = k, jt_RequestHash = f, jt_PreviousHash = w_headHash w, jt_Hash = jt_Hash t, jt_Lines = ls\<rparr>"
    and hash: "jt_Hash t = hashTransaction t"
    and r: "r = \<lparr>rc_IdempotencyKey = [], rc_EffectID = e, rc_TransactionID = transaction_id ?s,
          rc_CommitSequence = ?s, rc_Duplicate = False\<rparr>"
    and w': "w' = w\<lparr>w_balances := dict_merge (w_balances w) Q, w_sequence := ?s, w_headHash := jt_Hash t,
            w_journal := ?j @ [t], w_effects := dset e \<lparr>ef_fingerprint = f, ef_receipt = r\<rparr> (w_effects w)\<rparr>"
  have tf: "jt_Sequence t = ?s" "jt_ID t = transaction_id ?s" "jt_EffectID t = e" "jt_RequestHash t = f"
      "jt_PreviousHash t = w_headHash w" "jt_Lines t = ls"
    by (subst t, simp)+
  have prev: "au_previousHash au = w_headHash w" using au by (simp add: audited_def)
  have s: "?s = word_of_nat (length ?j + 1)" using au by (simp add: audited_def add.commute)
  then have q: "jt_Sequence t = word_of_nat (length ?j + 1)" using tf(1) by (simp only:)
  have fresh: "transaction_id ?s \<notin> journal_ids ?j"
    using transaction_id_fresh [OF _ len] au by (simp add: audited_def)
  have folded: "\<forall>a. dget_or 0 (au_folded au) a = overlay (w_balances w) dempty a"
    using au by (simp add: audited_def)
  obtain F where F: "audit_lines (transaction_id ?s) ls dempty (au_folded au) = Inr (P, F)"
      "\<forall>a. dget_or 0 F a = overlay (w_balances w) Q a"
    using post_audit [OF pl folded] by blast
  define au' where "au' = \<lparr>au_folded = F, au_seenEffects = dset e () (au_seenEffects au),
     au_transactions = dset (transaction_id ?s) t (au_transactions au), au_previousHash = jt_Hash t\<rparr>"
  have "dget (au_transactions au) (transaction_id ?s) = None"
    using au fresh by (auto simp: audited_def)
  moreover have "dget (au_seenEffects au) e = None" using au post(2) by (simp add: audited_def)
  ultimately have "audit_transaction (length ?j) t au = Inr au'"
    using bal hash F(1) prev q by (simp add: audit_transaction_def tf(2-) au'_def)
  then have aj: "audit_journal 0 (?j @ [t]) audit_start = Inr au'"
    using au by (simp add: audited_def audit_journal_append)
  have ids: "journal_ids (?j @ [t]) = insert (transaction_id ?s) (journal_ids ?j)"
    by (auto simp: journal_ids_def tf)
  have eff: "\<exists>t'. dget (au_transactions au') (rc_TransactionID (ef_receipt r')) = Some t'
      \<and> jt_EffectID t' = e' \<and> jt_Sequence t' = rc_CommitSequence (ef_receipt r')
      \<and> rc_EffectID (ef_receipt r') = e' \<and> jt_RequestHash t' = ef_fingerprint r'"
    if "dget (w_effects w') e' = Some r'" for e' r'
  proof (cases "e' = e")
    case True
    with that show ?thesis by (auto simp: w' au'_def tf r DAList.lookup_update)
  next
    case False
    with that have "dget (w_effects w) e' = Some r'" by (simp add: w' DAList.lookup_update)
    with au obtain t' where t': "dget (au_transactions au) (rc_TransactionID (ef_receipt r')) = Some t'
      \<and> jt_EffectID t' = e' \<and> jt_Sequence t' = rc_CommitSequence (ef_receipt r')
      \<and> rc_EffectID (ef_receipt r') = e' \<and> jt_RequestHash t' = ef_fingerprint r'"
      unfolding audited_def by blast
    moreover from this have "rc_TransactionID (ef_receipt r') \<noteq> transaction_id ?s"
      using \<open>dget (au_transactions au) (transaction_id ?s) = None\<close> by auto
    ultimately show ?thesis by (simp add: au'_def DAList.lookup_update)
  qed
  have "audited (w_journal w') (w_balances w') (w_sequence w') (w_headHash w') (w_effects w') au'"
    unfolding audited_def
  proof (intro conjI)
    show "\<forall>i\<in>journal_ids (w_journal w'). \<exists>n>0. n \<le> length (w_journal w') \<and> i = transaction_id (word_of_nat n)"
    proof
      fix i assume "i \<in> journal_ids (w_journal w')"
      then consider "i = transaction_id ?s" | "i \<in> journal_ids ?j" by (auto simp: w' ids)
      then show "\<exists>n>0. n \<le> length (w_journal w') \<and> i = transaction_id (word_of_nat n)"
      proof cases
        case 1
        then show ?thesis unfolding s by (intro exI [of _ "length ?j + 1"]) (simp add: w')
      next
        case 2
        then obtain n where "0 < n" "n \<le> length ?j" "i = transaction_id (word_of_nat n)"
          using au by (auto simp: audited_def)
        then show ?thesis by (intro exI [of _ n]) (simp add: w')
      qed
    qed
    show "\<forall>i. (dget (au_transactions au') i \<noteq> None) = (i \<in> journal_ids (w_journal w'))"
      using au by (auto simp: w' ids au'_def audited_def DAList.lookup_update)
    show "\<forall>e. length (filter (\<lambda>t. jt_EffectID t = e) (w_journal w')) = (if dget (w_effects w') e = None then 0 else 1)"
      using au post(2) by (auto simp: w' audited_def tf DAList.lookup_update split: if_splits)
    show "audit_journal 0 (w_journal w') audit_start = Inr au'" using aj by (simp add: w')
    show "w_sequence w' = word_of_nat (length (w_journal w'))" using s by (simp add: w')
    show "\<forall>e' r'. dget (w_effects w') e' = Some r' \<longrightarrow>
      (\<exists>t'. dget (au_transactions au') (rc_TransactionID (ef_receipt r')) = Some t' \<and> jt_EffectID t' = e'
        \<and> jt_Sequence t' = rc_CommitSequence (ef_receipt r') \<and> rc_EffectID (ef_receipt r') = e'
        \<and> jt_RequestHash t' = ef_fingerprint r')"
      using eff by blast
    show "\<forall>e. (dget (au_seenEffects au') e = None) = (dget (w_effects w') e = None)"
      using au by (simp add: w' au'_def audited_def DAList.lookup_update)
  qed (use F(2) in \<open>simp_all add: w' au'_def dget_or_dict_merge\<close>)
  then show ?thesis by blast
qed

end
