(* ===== verification/Sim_Inv.thy ===== *)
theory Sim_Inv
  imports Sim_Journal
begin

text \<open>
  The invariant of the simulator. It is split into predicates over the fields they speak of, so that an
  update of other fields keeps them by simplification alone: the journal, the conservation of money and
  spending rights, transfers, payments, cashback, outbox, inbox, idempotency records, sagas, queued
  commands and region epochs.

  \<open>R\<close> is a set of requests, the argument lists of \<^verbatim>\<open>requestFingerprint\<close>, from which the idempotency records
  and sagas stem; \<open>k\<close> bounds the epochs. The lemmas \<open>good_...\<close> show that the elementary updates of the
  operations keep the invariant.
\<close>

section \<open>The invariant\<close>

definition rights_total :: "(string, regionState) dict \<Rightarrow> int" where
  "rights_total regions = dict_sum (\<lambda>_ r. rs_rights r) regions"

definition in_transit :: "transferState \<Rightarrow> int" where
  "in_transit t = (if tr_inTransit t then tc_Amount (tr_certificate t) else 0)"

definition transit_total :: "(string, transferState) dict \<Rightarrow> int" where
  "transit_total transfers = dict_sum (\<lambda>_ t. in_transit t) transfers"

definition money_ok :: "amount \<Rightarrow> amount \<Rightarrow> amount \<Rightarrow> (string, regionState) dict \<Rightarrow> (string, amount) dict \<Rightarrow>
    (string, transferState) dict \<Rightarrow> bool" where
  "money_ok credit unallocated authority regions b transfers \<longleftrightarrow>
     fitsDecimal38 authority \<and> 0 \<le> unallocated
     \<and> dget_or 0 b UserAccount + credit = authority
     \<and> (\<forall>n r. dget regions n = Some r \<longrightarrow>
          0 \<le> rs_rights r \<and> dget_or 0 b (RegionalAuthorityAccount n) = rs_rights r)
     \<and> dget_or 0 b AuthorityTransitAccount = transit_total transfers
     \<and> dget_or 0 b AuthorityUnallocatedAccount = unallocated
     \<and> unallocated + rights_total regions + transit_total transfers = authority"

definition cert_valid :: "string \<Rightarrow> bytes \<Rightarrow> TransferCertificate \<Rightarrow> bool" where
  "cert_valid asset key c \<longleftrightarrow> tc_TransferID c \<noteq> [] \<and> tc_Asset c = asset \<and> tc_SourceRegion c \<noteq> []
     \<and> tc_DestinationRegion c \<noteq> [] \<and> tc_SourceRegion c \<noteq> tc_DestinationRegion c \<and> 0 < tc_Amount c
     \<and> tc_SourceEpoch c \<noteq> 0 \<and> tc_CommitSequence c \<noteq> 0 \<and> certificateProof key c = tc_CommitProof c"

abbreviation "tmsg transferID \<equiv> ''transfer:'' @ transferID"
abbreviation "out_effect transferID \<equiv> ''rights-transfer-out:'' @ transferID"
abbreviation "in_effect transferID \<equiv> ''rights-transfer-in:'' @ transferID"
abbreviation "pay_effect operationID \<equiv> ''payment:'' @ operationID"

definition transfer_ok :: "string \<Rightarrow> bytes \<Rightarrow> (string, InboxRecord) dict \<Rightarrow> (string, effectRecord) dict \<Rightarrow>
    string \<Rightarrow> transferState \<Rightarrow> bool" where
  "transfer_ok asset key inbox effects i t \<longleftrightarrow>
     cert_valid asset key (tr_certificate t) \<and> tc_TransferID (tr_certificate t) = i \<and> cert_ok (tr_certificate t)
     \<and> (tr_inTransit t \<longleftrightarrow> \<not> tr_consumed t) \<and> (tr_sourceAcknowledged t \<longrightarrow> tr_consumed t)
     \<and> (tr_consumed t \<longleftrightarrow> dget inbox (tmsg i) \<noteq> None)
     \<and> (tr_consumed t \<longleftrightarrow> dget effects (in_effect i) \<noteq> None)"

definition transfers_ok :: "string \<Rightarrow> bytes \<Rightarrow> (string, transferState) dict \<Rightarrow> (string, InboxRecord) dict \<Rightarrow>
    (string, effectRecord) dict \<Rightarrow> bool" where
  "transfers_ok asset key transfers inbox effects \<longleftrightarrow>
     (\<forall>i t. dget transfers i = Some t \<longrightarrow> transfer_ok asset key inbox effects i t)
     \<and> (\<forall>i. dget transfers i = None \<longrightarrow> dget effects (out_effect i) = None \<and> dget effects (in_effect i) = None)"

definition payment_ok :: "(string, regionState) dict \<Rightarrow> (string, effectRecord) dict \<Rightarrow> string \<Rightarrow> paymentState \<Rightarrow> bool" where
  "payment_ok regions effects i p \<longleftrightarrow>
     pm_operationID p = i \<and> dget regions (pm_region p) \<noteq> None \<and> dget effects (pay_effect i) \<noteq> None
     \<and> 0 \<le> pm_refunded p \<and> 0 \<le> pm_reversed p \<and> 0 \<le> pm_chargedBack p
     \<and> pm_refunded p + pm_reversed p + pm_chargedBack p \<le> pm_captured p
     \<and> pm_captured p \<le> pm_authorized p \<and> fitsDecimal38 (pm_captured p)
     \<and> rc_TransactionID (pm_receipt p) \<noteq> []"

definition payments_ok :: "(string, paymentState) dict \<Rightarrow> (string, regionState) dict \<Rightarrow>
    (string, effectRecord) dict \<Rightarrow> bool" where
  "payments_ok payments regions effects \<longleftrightarrow>
     (\<forall>i p. dget payments i = Some p \<longrightarrow> payment_ok regions effects i p)"

definition cashback_ok :: "(string, amount) dict \<Rightarrow> (string, amount) dict \<Rightarrow> bool" where
  "cashback_ok rules paid \<longleftrightarrow>
     (\<forall>i v. dget paid i = Some v \<longrightarrow> (\<exists>m. dget rules i = Some m \<and> v \<le> m))"

definition carries :: "(string, transferState) dict \<Rightarrow> string \<Rightarrow> bytes \<Rightarrow> bool" where
  "carries transfers m payload \<longleftrightarrow>
     (\<exists>i t. m = tmsg i \<and> dget transfers i = Some t \<and> payload = marshalCertificate (tr_certificate t))"

definition outbox_ok :: "(string, OutboxRecord) dict \<Rightarrow> JournalTransaction list \<Rightarrow>
    (string, transferState) dict \<Rightarrow> bool" where
  "outbox_ok outbox j transfers \<longleftrightarrow>
     (\<forall>m r. dget outbox m = Some r \<longrightarrow> ob_MessageID r = m \<and> ob_ParentTransactionID r \<in> journal_ids j
        \<and> (ob_Kind r = transferMessageKind \<longrightarrow> carries transfers m (ob_Payload r)))"

definition inbox_ok :: "(string, InboxRecord) dict \<Rightarrow> (string, effectRecord) dict \<Rightarrow>
    (string, transferState) dict \<Rightarrow> bool" where
  "inbox_ok inbox effects transfers \<longleftrightarrow>
     (\<forall>m r. dget inbox m = Some r \<longrightarrow> ib_MessageID r = m \<and> ib_EffectID r \<noteq> []
        \<and> dget effects (ib_EffectID r) \<noteq> None
        \<and> (\<exists>payload. carries transfers m payload \<and> ib_PayloadHash r = payloadHash payload))"

text \<open>The effect identifier that belongs to the arguments of a fingerprint.\<close>

definition effect_of :: "string list \<Rightarrow> string" where
  "effect_of parts = (case parts of
     kind # i # _ \<Rightarrow>
       if kind = ''PAYMENT'' then pay_effect i
       else if kind = ''DEPOSIT'' then ''deposit:'' @ i
       else if kind = ''CASHBACK'' then ''cashback:'' @ i
       else kind @ '':'' @ i
   | _ \<Rightarrow> [])"

definition matches_effect :: "(string, effectRecord) dict \<Rightarrow> bytes \<Rightarrow> Receipt \<Rightarrow> bool" where
  "matches_effect effects hash r \<longleftrightarrow>
     (\<exists>e. dget effects (rc_EffectID r) = Some e \<and> hash = ef_fingerprint e
        \<and> rc_TransactionID (ef_receipt e) = rc_TransactionID r
        \<and> rc_CommitSequence (ef_receipt e) = rc_CommitSequence r)"

definition idem_ok :: "string list set \<Rightarrow> (string, idempotencyRecord) dict \<Rightarrow> (string, effectRecord) dict \<Rightarrow> bool" where
  "idem_ok R idempotency effects \<longleftrightarrow>
     (\<forall>key r. dget idempotency key = Some r \<longrightarrow> matches_effect effects (id_requestHash r) (id_receipt r)
        \<and> (\<exists>parts \<in> R. id_requestHash r = requestFingerprint parts
             \<and> rc_EffectID (id_receipt r) = effect_of parts))"

definition saga_ok :: "string list set \<Rightarrow> (string, effectRecord) dict \<Rightarrow> SagaSnapshot \<Rightarrow> bool" where
  "saga_ok R effects s \<longleftrightarrow>
     (ss_NextStep s = 0 \<or> ss_NextStep s = 1 \<or> ss_NextStep s = 2)
     \<and> (ss_Completed s \<longrightarrow> ss_NextStep s = 2)
     \<and> (0 < ss_NextStep s \<longrightarrow> dget effects (pay_effect (ss_OperationID s)) \<noteq> None)
     \<and> [''PAYMENT'', ss_OperationID s, Amount_String (ss_Amount s)] \<in> R"

definition sagas_ok :: "string list set \<Rightarrow> (string, SagaSnapshot) dict \<Rightarrow> (string, effectRecord) dict \<Rightarrow> bool" where
  "sagas_ok R sagas effects \<longleftrightarrow> (\<forall>i s. dget sagas i = Some s \<longrightarrow> saga_ok R effects s)"

definition queue_ok :: "Envelope list \<Rightarrow> (string, transferState) dict \<Rightarrow> bool" where
  "queue_ok q transfers \<longleftrightarrow>
     (\<forall>e \<in> set q. env_Kind e = Command \<longrightarrow> carries transfers (env_MessageID e) (env_Payload e))"

definition regions_ok :: "nat \<Rightarrow> (string, regionState) dict \<Rightarrow> bool" where
  "regions_ok k regions \<longleftrightarrow>
     (\<forall>n r. dget regions n = Some r \<longrightarrow> n \<noteq> [] \<and> valid_utf8 n \<and> 0 < unat (rs_epoch r) \<and> unat (rs_epoch r) \<le> k)"

definition good :: "string list set \<Rightarrow> nat \<Rightarrow> World \<Rightarrow> bool" where
  "good R k w \<longleftrightarrow>
     valid_utf8 (w_asset w)
     \<and> journal_ok (w_journal w) (w_balances w) (w_sequence w) (w_headHash w) (w_effects w)
     \<and> money_ok (w_creditLimit w) (w_unallocated w) (w_authorityTotal w) (w_regions w) (w_balances w) (w_transfers w)
     \<and> transfers_ok (w_asset w) (w_certificateKey w) (w_transfers w) (w_inbox w) (w_effects w)
     \<and> payments_ok (w_payments w) (w_regions w) (w_effects w)
     \<and> cashback_ok (w_cashbackRules w) (w_cashbackPaid w)
     \<and> outbox_ok (w_outbox w) (w_journal w) (w_transfers w)
     \<and> inbox_ok (w_inbox w) (w_effects w) (w_transfers w)
     \<and> idem_ok R (w_idempotency w) (w_effects w)
     \<and> sagas_ok R (w_sagas w) (w_effects w)
     \<and> queue_ok (n_queue (w_network w)) (w_transfers w)
     \<and> regions_ok k (w_regions w)"

section \<open>The auditor accepts good states\<close>

lemma dget_or_Some: "dget m a = Some v \<Longrightarrow> dget_or z m a = v"
  by (simp add: dget_or_def)

lemma verify_cert_valid: "verifyCertificateLocked c w \<longleftrightarrow> cert_valid (w_asset w) (w_certificateKey w) c"
  by (auto simp: verifyCertificateLocked_def cert_valid_def)

lemma amountSum_from_fits:
  "\<forall>v \<in> set vs. 0 \<le> v \<Longrightarrow> 0 \<le> acc \<Longrightarrow> fitsDecimal38 (acc + sum_list vs) \<Longrightarrow>
   amountSum_from acc vs = Inr (acc + sum_list vs)"
proof (induction vs arbitrary: acc)
  case (Cons v vs)
  have "0 \<le> sum_list vs" using Cons.prems(1) by (simp add: sum_list_nonneg)
  then have "fitsDecimal38 (acc + v)" using Cons.prems by (intro fits_mono [OF Cons.prems(3)]) auto
  with Cons show ?case by (simp add: add.assoc)
qed simp

lemma amountSum_fits:
  "\<forall>v \<in> set vs. 0 \<le> v \<Longrightarrow> fitsDecimal38 (sum_list vs) \<Longrightarrow> amountSum vs = Inr (sum_list vs)"
  using amountSum_from_fits [of vs 0] by (simp add: amountSum_def)

lemma amountSum_from_Inr: "amountSum_from acc vs = Inr r \<Longrightarrow> r = acc + sum_list vs"
  by (induction vs arbitrary: acc) (fastforce simp: Amount_Add_Inr split: sum.splits)+

lemma amountSum_Inr: "amountSum vs = Inr r \<Longrightarrow> r = sum_list vs"
  using amountSum_from_Inr [of 0] by (simp add: amountSum_def)

lemma sum_rights_ok:
  assumes "\<forall>(n, r) \<in> set rs. 0 \<le> rs_rights r \<and> dget_or 0 (w_balances w) (RegionalAuthorityAccount n) = rs_rights r"
    and "0 \<le> acc" "fitsDecimal38 (acc + sum_list (map (\<lambda>(n, r). rs_rights r) rs))"
  shows "sum_rights w rs acc = Inr (acc + sum_list (map (\<lambda>(n, r). rs_rights r) rs))"
  using assms
proof (induction rs arbitrary: acc)
  case (Cons p rs)
  obtain n r where p: "p = (n, r)" by (cases p)
  let ?s = "sum_list (map (\<lambda>(n, r). rs_rights r) rs)"
  have "0 \<le> ?s" using Cons.prems(1) by (intro sum_list_nonneg) auto
  then have "fitsDecimal38 (acc + rs_rights r)"
    using Cons.prems by (intro fits_mono [OF Cons.prems(3)]) (auto simp: p)
  with Cons show ?case by (simp add: p add.assoc)
qed simp

lemma sum_transit_ok:
  assumes "\<forall>(i, t) \<in> set ts. transfer_ok (w_asset w) (w_certificateKey w) (w_inbox w) (w_effects w) i t"
    and "\<forall>e. EffectCount e w = (if dget (w_effects w) e = None then 0 else 1)"
    and "0 \<le> acc" "fitsDecimal38 (acc + sum_list (map (\<lambda>(i, t). in_transit t) ts))"
  shows "sum_transit w ts acc = Inr (acc + sum_list (map (\<lambda>(i, t). in_transit t) ts))"
  using assms(1,3,4)
proof (induction ts arbitrary: acc)
  case (Cons p ts)
  obtain i t where p: "p = (i, t)" by (cases p)
  let ?s = "sum_list (map (\<lambda>(i, t). in_transit t) ts)"
  have ok: "transfer_ok (w_asset w) (w_certificateKey w) (w_inbox w) (w_effects w) i t"
    using Cons.prems(1) by (simp add: p)
  have nn: "0 \<le> in_transit t'" if "(i', t') \<in> set (p # ts)" for i' t'
    using Cons.prems(1) that by (fastforce simp: transfer_ok_def cert_valid_def in_transit_def)
  then have "0 \<le> ?s" by (intro sum_list_nonneg) auto
  moreover have "0 \<le> in_transit t" using nn [of i t] by (simp add: p)
  ultimately have fit: "fitsDecimal38 (acc + in_transit t)"
    using Cons.prems by (intro fits_mono [OF Cons.prems(3)]) (auto simp: p)
  have "check_transfer w i t acc = Inr (acc + in_transit t)"
    using ok fit assms(2)
    by (auto simp: check_transfer_def transfer_ok_def verify_cert_valid in_transit_def)
  with Cons \<open>0 \<le> in_transit t\<close> show ?case by (simp add: p add.assoc)
qed simp


lemma transit_total_nonneg:
  assumes "transfers_ok asset key transfers inbox effects"
  shows "0 \<le> transit_total transfers"
  unfolding transit_total_def dict_sum_def
  using assms by (intro sum_list_nonneg) (fastforce simp: mem_entries_iff transfers_ok_def transfer_ok_def
      cert_valid_def in_transit_def)

lemma rights_total_nonneg:
  assumes "money_ok credit unallocated authority regions b transfers"
  shows "0 \<le> rights_total regions"
  unfolding rights_total_def dict_sum_def
  using assms by (intro sum_list_nonneg) (auto simp: mem_entries_iff money_ok_def)

lemma EffectCount_journal_ok:
  assumes "journal_ok (w_journal w) b s h (w_effects w)"
  shows "EffectCount e w = (if dget (w_effects w) e = None then 0 else 1)"
  using assms unfolding journal_ok_def audited_def EffectCount_def by blast

lemma check_escrow_ok:
  assumes "money_ok (w_creditLimit w) (w_unallocated w) (w_authorityTotal w) (w_regions w) (w_balances w) (w_transfers w)"
    and "transfers_ok (w_asset w) (w_certificateKey w) (w_transfers w) (w_inbox w) (w_effects w)"
    and "journal_ok (w_journal w) b s h (w_effects w)"
  shows "check_escrow w = None"
proof -
  let ?u = "w_unallocated w" and ?r = "rights_total (w_regions w)" and ?t = "transit_total (w_transfers w)"
  have m: "fitsDecimal38 (w_authorityTotal w)" "0 \<le> ?u" "?u + ?r + ?t = w_authorityTotal w"
      "dget_or 0 (w_balances w) AuthorityTransitAccount = ?t"
      "dget_or 0 (w_balances w) AuthorityUnallocatedAccount = ?u"
    using assms(1) by (simp_all add: money_ok_def)
  have nn: "0 \<le> ?r" "0 \<le> ?t"
    using rights_total_nonneg [OF assms(1)] transit_total_nonneg [OF assms(2)] .
  have fits: "fitsDecimal38 (?u + ?r)" "fitsDecimal38 ?t" "fitsDecimal38 (?u + ?r + ?t)"
    using m nn by (auto intro: fits_mono [OF m(1)])
  have "sum_rights w (entries (w_regions w)) ?u = Inr (?u + ?r)"
    unfolding rights_total_def dict_sum_def
    by (rule sum_rights_ok)
       (use assms(1) m(2) fits(1) in \<open>auto simp: money_ok_def mem_entries_iff rights_total_def dict_sum_def\<close>)
  moreover have "sum_transit w (entries (w_transfers w)) 0 = Inr (0 + ?t)"
    unfolding transit_total_def dict_sum_def
    by (rule sum_transit_ok)
       (use assms(2) EffectCount_journal_ok [OF assms(3)] fits(2) in
         \<open>auto simp: transfers_ok_def mem_entries_iff transit_total_def dict_sum_def\<close>)
  ultimately show ?thesis using fits m by (simp add: check_escrow_def)
qed

lemma check_journal_ok:
  assumes "audited (w_journal w) (w_balances w) (w_sequence w) (w_headHash w) (w_effects w) au"
  shows "check_head w au = None" "check_folded w au = None" "check_balances w au = None" "check_effects w au = None"
proof -
  show "check_head w au = None" using assms by (simp add: check_head_def audited_def)
  have b: "dget_or 0 (au_folded au) a = dget_or 0 (w_balances w) a" for a
    using assms by (simp add: audited_def)
  show "check_folded w au = None"
    unfolding check_folded_def first_error_entries
    by (auto simp: b [symmetric] dest: dget_or_Some [where z = 0])
  show "check_balances w au = None"
    unfolding check_balances_def first_error_entries by (auto simp: b dest: dget_or_Some [where z = 0])
  have s: "dget (au_seenEffects au) e = None \<longleftrightarrow> dget (w_effects w) e = None" for e
    using assms by (simp add: audited_def)
  have e: "\<exists>t. dget (au_transactions au) (rc_TransactionID (ef_receipt r)) = Some t
      \<and> jt_EffectID t = e \<and> jt_Sequence t = rc_CommitSequence (ef_receipt r)
      \<and> rc_EffectID (ef_receipt r) = e \<and> jt_RequestHash t = ef_fingerprint r"
    if "dget (w_effects w) e = Some r" for e r
    using assms that unfolding audited_def by blast
  show "check_effects w au = None"
    unfolding check_effects_def first_error_entries by (auto simp: s dest!: e)
qed

lemma check_records_ok:
  assumes "good R k w"
    and au: "audited (w_journal w) (w_balances w) (w_sequence w) (w_headHash w) (w_effects w) au"
  shows "check_idempotency w = None" "check_available w = None"
    "first_error check_payment (entries (w_payments w)) = None"
    "first_error (check_cashback w) (entries (w_cashbackPaid w)) = None"
    "first_error (check_outbox au) (entries (w_outbox w)) = None"
    "first_error (check_inbox w) (entries (w_inbox w)) = None"
    "first_error (check_saga w) (entries (w_sagas w)) = None"
proof -
  have tx: "dget (au_transactions au) i = None \<longleftrightarrow> i \<notin> journal_ids (w_journal w)" for i
    using au unfolding audited_def by blast
  show "check_idempotency w = None"
    using assms(1) unfolding check_idempotency_def first_error_entries
    by (fastforce simp: good_def idem_ok_def matches_effect_def)
  have m: "money_ok (w_creditLimit w) (w_unallocated w) (w_authorityTotal w) (w_regions w) (w_balances w) (w_transfers w)"
    and t: "transfers_ok (w_asset w) (w_certificateKey w) (w_transfers w) (w_inbox w) (w_effects w)"
    using assms(1) by (simp_all add: good_def)
  show "check_available w = None"
    using m rights_total_nonneg [OF m] transit_total_nonneg [OF t] by (auto simp: money_ok_def check_available_def)
  show "first_error check_payment (entries (w_payments w)) = None"
    unfolding first_error_entries
  proof (intro allI impI)
    fix i p assume p: "dget (w_payments w) i = Some p"
    then have ok: "payment_ok (w_regions w) (w_effects w) i p"
      using assms(1) by (simp add: good_def payments_ok_def)
    then have "amountSum [pm_refunded p, pm_reversed p, pm_chargedBack p]
        = Inr (sum_list [pm_refunded p, pm_reversed p, pm_chargedBack p])"
      by (intro amountSum_fits) (auto simp: payment_ok_def intro!: fits_mono [of "pm_captured p"])
    with ok show "check_payment (i, p) = None" by (simp add: check_payment_def payment_ok_def)
  qed
  show "first_error (check_cashback w) (entries (w_cashbackPaid w)) = None"
    using assms(1) unfolding first_error_entries by (fastforce simp: good_def cashback_ok_def check_cashback_def)
  show "first_error (check_outbox au) (entries (w_outbox w)) = None"
    using assms(1) unfolding first_error_entries by (auto simp: good_def outbox_ok_def check_outbox_def tx)
  show "first_error (check_inbox w) (entries (w_inbox w)) = None"
    using assms(1) unfolding first_error_entries by (fastforce simp: good_def inbox_ok_def check_inbox_def)
  show "first_error (check_saga w) (entries (w_sagas w)) = None"
    using assms(1) unfolding first_error_entries by (fastforce simp: good_def sagas_ok_def saga_ok_def check_saga_def)
qed

lemma good_AssertAll: "good R k w \<Longrightarrow> AssertAllFinancialInvariants w = None"
proof -
  assume g: "good R k w"
  then obtain au where au: "audited (w_journal w) (w_balances w) (w_sequence w) (w_headHash w) (w_effects w) au"
    by (auto simp: good_def journal_ok_def)
  have "check_escrow w = None" using g by (intro check_escrow_ok) (auto simp: good_def)
  moreover have "audit_journal 0 (w_journal w) audit_start = Inr au" using au by (simp add: audited_def)
  ultimately show ?thesis
    by (simp add: AssertAllFinancialInvariants_def check_journal_ok [OF au] check_records_ok [OF g au])
qed

end
