(* ===== verification/Sim_Steps.thy ===== *)
theory Sim_Steps
  imports Sim_Inv
begin

text \<open>
  The elementary updates the operations of the simulator are made of, and that each keeps the invariant
  \<open>good\<close>. A posting, the change of a region's rights and the change of the authority total belong together
  (\<open>good_commit\<close>); every other update is independent.
\<close>

section \<open>New effects\<close>

lemma payments_ok_effect:
  "payments_ok P G E \<Longrightarrow> payments_ok P G (dset e v E)"
  by (auto simp: payments_ok_def payment_ok_def DAList.lookup_update)

lemma inbox_ok_effect: "inbox_ok I E T \<Longrightarrow> inbox_ok I (dset e v E) T"
  by (auto simp: inbox_ok_def DAList.lookup_update)

lemma idem_ok_effect: "dget E e = None \<Longrightarrow> idem_ok R I E \<Longrightarrow> idem_ok R I (dset e v E)"
  by (fastforce simp: idem_ok_def matches_effect_def DAList.lookup_update)

lemma sagas_ok_effect: "sagas_ok R S E \<Longrightarrow> sagas_ok R S (dset e v E)"
  by (auto simp: sagas_ok_def saga_ok_def DAList.lookup_update)

lemma transfers_ok_effect:
  "\<forall>i. e \<noteq> out_effect i \<and> e \<noteq> in_effect i \<Longrightarrow> transfers_ok a c T I E \<Longrightarrow> transfers_ok a c T I (dset e v E)"
  by (fastforce simp: transfers_ok_def transfer_ok_def DAList.lookup_update)

lemma journal_ids_append [simp]: "journal_ids (j @ [t]) = insert (jt_ID t) (journal_ids j)"
  by (auto simp: journal_ids_def)

lemma outbox_ok_append: "outbox_ok B j T \<Longrightarrow> outbox_ok B (j @ [t]) T"
  by (auto simp: outbox_ok_def)

lemmas effect_monos =
  payments_ok_effect inbox_ok_effect idem_ok_effect sagas_ok_effect transfers_ok_effect outbox_ok_append

section \<open>Regions\<close>

lemma rights_total_dset:
  "dget G n = Some r \<Longrightarrow> rights_total (dset n r' G) = rights_total G - rs_rights r + rs_rights r'"
  by (simp add: rights_total_def dict_sum_replace)

lemma payments_ok_region: "payments_ok P G E \<Longrightarrow> payments_ok P (dset n r G) E"
  by (auto simp: payments_ok_def payment_ok_def DAList.lookup_update)

lemma regions_ok_dset:
  "regions_ok k G \<Longrightarrow> dget G n = Some r \<Longrightarrow> rs_epoch r' = rs_epoch r \<Longrightarrow> regions_ok k (dset n r' G)"
  by (auto simp: regions_ok_def DAList.lookup_update)

lemma RegionalAuthorityAccount_inject [simp]:
  "RegionalAuthorityAccount a = RegionalAuthorityAccount b \<longleftrightarrow> a = b"
  by (simp add: RegionalAuthorityAccount_def)

lemmas account_defs = UserAccount_def MerchantAccount_def FundingAccount_def CashbackExpenseAccount_def
  AuthorityIssuerAccount_def AuthorityConsumedAccount_def AuthorityTransitAccount_def
  AuthorityUnallocatedAccount_def RegionalAuthorityAccount_def

section \<open>Postings\<close>

lemma postLocked_cases:
  assumes "postLocked e k f ls w = (w', res)"
  obtains (error) err where "res = Inl err" "w' = w"
  | (replay) r where "res = Inr r" "w' = w" "dget (w_effects w) e \<noteq> None" "rc_Duplicate r"
  | (new) r where "res = Inr r" "dget (w_effects w) e = None" "posted e f ls r w w'"
proof (cases res)
  case (Inl err)
  then have "w' = w" using assms
    by (auto simp: postLocked_def Let_def split: if_splits option.splits sum.splits)
  with Inl show thesis by (rule error)
next
  case (Inr r)
  show thesis
  proof (cases "dget (w_effects w) e")
    case None
    with Inr assms show thesis by (intro new) (auto intro: postLocked_posted)
  next
    case (Some x)
    with Inr assms show thesis by (intro replay) (auto simp: postLocked_def split: if_splits)
  qed
qed

lemma postedE:
  assumes "posted e f ls r w w'"
  obtains b t where "\<And>a. dget_or 0 b a = dget_or 0 (w_balances w) a + lines_delta ls a"
    and "jt_ID t = rc_TransactionID r" "jt_EffectID t = e"
    and "w' = w\<lparr>w_balances := b, w_sequence := w_sequence w + 1, w_headHash := jt_Hash t,
              w_journal := w_journal w @ [t],
              w_effects := dset e \<lparr>ef_fingerprint = f, ef_receipt = r\<rparr> (w_effects w)\<rparr>"
proof -
  from assms obtain b t where "\<forall>a. dget_or 0 b a = dget_or 0 (w_balances w) a + lines_delta ls a"
    "jt_ID t = rc_TransactionID r" "jt_EffectID t = e"
    "w' = w\<lparr>w_balances := b, w_sequence := w_sequence w + 1, w_headHash := jt_Hash t,
              w_journal := w_journal w @ [t],
              w_effects := dset e \<lparr>ef_fingerprint = f, ef_receipt = r\<rparr> (w_effects w)\<rparr>"
    unfolding posted_def by metis
  then show thesis by (intro that) auto
qed

lemma journal_ok_post:
  assumes "postLocked e k f ls w = (w', Inr r)" "dget (w_effects w) e = None"
    and "journal_ok (w_journal w) (w_balances w) (w_sequence w) (w_headHash w) (w_effects w)"
    and "length (w_journal w') < 2 ^ 64"
  shows "journal_ok (w_journal w') (w_balances w') (w_sequence w') (w_headHash w') (w_effects w')"
proof -
  have "length (w_journal w') = Suc (length (w_journal w))"
    using postLocked_posted [OF assms(1,2)] by (auto simp: posted_def)
  then show ?thesis using assms audited_post unfolding journal_ok_def by fastforce
qed

text \<open>Lines that move the customer's balance and the rights of one region by the same amount.\<close>

definition moves :: "JournalLine list \<Rightarrow> string \<Rightarrow> int \<Rightarrow> bool" where
  "moves ls region d \<longleftrightarrow> lines_delta ls UserAccount = d \<and> lines_delta ls AuthorityTransitAccount = 0
     \<and> lines_delta ls AuthorityUnallocatedAccount = 0
     \<and> (\<forall>n. lines_delta ls (RegionalAuthorityAccount n) = (if n = region then d else 0))"

lemma moves_lines:
  "moves (payment_lines region a w) region (- a)"
  "moves (deposit_lines region a w) region a"
  "moves (release_lines region a w) region a"
  "moves (cashback_lines region a w) region a"
  by (simp_all add: moves_def payment_lines_def deposit_lines_def release_lines_def cashback_lines_def account_defs)

text \<open>
  A posting that moves the customer's balance and the rights of one region by the same amount \<open>d\<close>, together
  with the matching change of the region and of the authority total.
\<close>

lemma good_commit:
  assumes g: "good R k w"
    and post: "postLocked e kd f ls w = (w1, Inr r)" "dget (w_effects w) e = None"
    and len: "length (w_journal w1) < 2 ^ 64"
    and e: "\<forall>i. e \<noteq> out_effect i \<and> e \<noteq> in_effect i"
    and delta: "moves ls region d"
    and region: "dget (w_regions w) region = Some st" "0 \<le> rs_rights st + d"
    and fits: "fitsDecimal38 (w_authorityTotal w + d)"
  shows "good R k ((setRights region (rs_rights st + d) w1)\<lparr>w_authorityTotal := w_authorityTotal w + d\<rparr>)"
proof -
  obtain b t where b: "\<And>a. dget_or 0 b a = dget_or 0 (w_balances w) a + lines_delta ls a"
      "jt_ID t = rc_TransactionID r"
      "w1 = w\<lparr>w_balances := b, w_sequence := w_sequence w + 1, w_headHash := jt_Hash t,
              w_journal := w_journal w @ [t],
              w_effects := dset e \<lparr>ef_fingerprint = f, ef_receipt = r\<rparr> (w_effects w)\<rparr>"
    by (rule postedE [OF postLocked_posted [OF post]]) blast
  have jo: "journal_ok (w_journal w1) (w_balances w1) (w_sequence w1) (w_headHash w1) (w_effects w1)"
    using journal_ok_post [OF post _ len] g by (simp add: good_def)
  have "money_ok (w_creditLimit w) (w_unallocated w) (w_authorityTotal w + d)
      (dset region (st\<lparr>rs_rights := rs_rights st + d\<rparr>) (w_regions w)) b (w_transfers w)"
    using g region fits delta
    by (auto simp: good_def money_ok_def moves_def b(1) rights_total_dset DAList.lookup_update)
  with g jo region e post(2) show ?thesis
    by (simp add: good_def setRights_def dmodify_Some b(3) effect_monos payments_ok_region regions_ok_dset)
qed

section \<open>Receipts\<close>

text \<open>What the rest of an operation needs to know of the receipt of a posting.\<close>

definition receipted :: "string \<Rightarrow> bytes \<Rightarrow> Receipt \<Rightarrow> World \<Rightarrow> bool" where
  "receipted e f r w \<longleftrightarrow> rc_EffectID r = e \<and> rc_TransactionID r \<noteq> [] \<and> \<not> rc_Duplicate r
     \<and> rc_TransactionID r \<in> journal_ids (w_journal w)
     \<and> dget (w_effects w) e \<noteq> None \<and> matches_effect (w_effects w) f r"

lemma posted_receipted: "posted e f ls r w w' \<Longrightarrow> receipted e f r w'"
  by (auto simp: posted_def receipted_def matches_effect_def transaction_id_def journal_ids_def)

lemma receipted_cong:
  "w_journal w' = w_journal w \<Longrightarrow> w_effects w' = w_effects w \<Longrightarrow> receipted e f r w' = receipted e f r w"
  by (simp add: receipted_def)

lemma effect_receipt:
  assumes "journal_ok j b s h E" "dget E e = Some x"
  shows "rc_EffectID (ef_receipt x) = e"
  using assms unfolding journal_ok_def audited_def by blast

section \<open>Independent updates\<close>

lemma good_frame [simp]:
  "good R k (w\<lparr>w_refunds := a\<rparr>) = good R k w"
  "good R k (w\<lparr>w_loseResponses := c\<rparr>) = good R k w"
  "good R k (w\<lparr>w_crashBeforeCommit := c\<rparr>) = good R k w"
  "good R k (w\<lparr>w_crashAfterCommit := c\<rparr>) = good R k w"
  "good R k (w\<lparr>w_consumerCrash := c\<rparr>) = good R k w"
  "good R k (w\<lparr>w_coordinatorRunning := d\<rparr>) = good R k w"
  "good R k (w\<lparr>w_coordinatorCrashAfter := c\<rparr>) = good R k w"
  "good R k (w\<lparr>w_logicalTick := t\<rparr>) = good R k w"
  "good R k (w\<lparr>w_fraudVerdicts := v\<rparr>) = good R k w"
  "good R k (w\<lparr>w_dcHealthy := dc\<rparr>) = good R k w"
  by (simp_all add: good_def)

lemma good_outbox:
  "good R k w \<Longrightarrow> kind \<noteq> transferMessageKind \<Longrightarrow> rc_TransactionID r \<in> journal_ids (w_journal w) \<Longrightarrow>
   good R k (addOutboxLocked r kind source destination payload w)"
  by (simp add: good_def addOutboxLocked_def outbox_ok_def outbox_record_def zeroOutbox_def DAList.lookup_update)

lemma good_idempotency:
  "good R k w \<Longrightarrow> parts \<in> R \<Longrightarrow> f = requestFingerprint parts \<Longrightarrow> rc_EffectID r = effect_of parts \<Longrightarrow>
   matches_effect (w_effects w) f r \<Longrightarrow> good R k (recordIdempotency key f r w)"
  by (fastforce simp: good_def recordIdempotency_def idem_ok_def DAList.lookup_update)

lemma good_payment:
  "good R k w \<Longrightarrow> payment_ok (w_regions w) (w_effects w) i p \<Longrightarrow>
   good R k (w\<lparr>w_payments := dset i p (w_payments w)\<rparr>)"
  by (simp add: good_def payments_ok_def DAList.lookup_update)

lemma good_cashback:
  "good R k w \<Longrightarrow> v \<le> m \<Longrightarrow>
   good R k (w\<lparr>w_cashbackRules := dset i m (w_cashbackRules w), w_cashbackPaid := dset i v (w_cashbackPaid w)\<rparr>)"
  by (simp add: good_def cashback_ok_def DAList.lookup_update)

lemma good_saga:
  "good R k w \<Longrightarrow> saga_ok R (w_effects w) s \<Longrightarrow> good R k (w\<lparr>w_sagas := dset i s (w_sagas w)\<rparr>)"
  by (simp add: good_def sagas_ok_def DAList.lookup_update)

lemma good_network:
  "good R k w \<Longrightarrow> queue_ok (n_queue n) (w_transfers w) \<Longrightarrow> good R k (w\<lparr>w_network := n\<rparr>)"
  by (simp add: good_def)

lemma good_onNetwork: "good R k w \<Longrightarrow> n_queue (f (w_network w)) = n_queue (w_network w) \<Longrightarrow> good R k (onNetwork f w)"
  by (simp add: good_def onNetwork_def)

lemma good_region:
  assumes "good R k w" "dget (w_regions w) n = Some r" "rs_rights r' = rs_rights r"
    and "0 < unat (rs_epoch r')" "unat (rs_epoch r') \<le> k'" "k \<le> k'"
  shows "good R k' (w\<lparr>w_regions := dset n r' (w_regions w)\<rparr>)"
proof -
  have "money_ok (w_creditLimit w) (w_unallocated w) (w_authorityTotal w) (dset n r' (w_regions w))
      (w_balances w) (w_transfers w)"
    using assms by (auto simp: good_def money_ok_def rights_total_dset DAList.lookup_update)
  moreover have "regions_ok k' (dset n r' (w_regions w))"
    using assms by (fastforce simp: good_def regions_ok_def DAList.lookup_update)
  ultimately show ?thesis using assms(1) by (simp add: good_def payments_ok_region)
qed

lemma good_setRunning: "good R k w \<Longrightarrow> good R k (setRunning n b w)"
proof (cases "dget (w_regions w) n")
  case (Some r)
  assume g: "good R k w"
  then have "0 < unat (rs_epoch r) \<and> unat (rs_epoch r) \<le> k" using Some by (simp add: good_def regions_ok_def)
  with g Some show ?thesis by (auto simp: setRunning_def dmodify_Some intro!: good_region)
qed (simp add: setRunning_def dmodify_def)

end
