(* ===== verification/Sim_Preserve.thy ===== *)
theory Sim_Preserve
  imports Sim_Steps
begin

text \<open>
  Every operation of the simulator keeps the invariant, on all its branches. \<open>adv\<close> relates the states before
  and after: the journal does not shrink, and the invariant is kept as long as the journal is shorter than
  the range of the 64-bit commit sequence. It is reflexive and transitive, so operations that are made of
  several critical sections compose.
\<close>

section \<open>Advancing\<close>

definition adv :: "string list set \<Rightarrow> nat \<Rightarrow> World \<Rightarrow> World \<Rightarrow> bool" where
  "adv R k w w' \<longleftrightarrow> length (w_journal w) \<le> length (w_journal w')
     \<and> (good R k w \<longrightarrow> length (w_journal w') < 2 ^ 64 \<longrightarrow> good R k w')"

lemma adv_refl [simp, intro]: "adv R k w w"
  by (simp add: adv_def)

lemma adv_trans: "adv R k w w' \<Longrightarrow> adv R k w' w'' \<Longrightarrow> adv R k w w''"
  by (auto simp: adv_def)

lemma adv_keep: "(good R k w \<Longrightarrow> good R k w') \<Longrightarrow> w_journal w' = w_journal w \<Longrightarrow> adv R k w w'"
  by (auto simp: adv_def)

lemma journal_frame [simp]:
  "w_journal (setRights n a w) = w_journal w"
  "w_journal (setRunning n b w) = w_journal w"
  "w_journal (onNetwork f w) = w_journal w"
  "w_journal (addOutboxLocked r kind s d p w) = w_journal w"
  "w_journal (recordIdempotency key fp r w) = w_journal w"
  "w_effects (setRights n a w) = w_effects w"
  "w_effects (setRunning n b w) = w_effects w"
  "w_effects (onNetwork f w) = w_effects w"
  "w_effects (addOutboxLocked r kind s d p w) = w_effects w"
  "w_effects (recordIdempotency key fp r w) = w_effects w"
  by (simp_all add: setRights_def setRunning_def onNetwork_def addOutboxLocked_def recordIdempotency_def)

lemma posted_journal: "posted e f ls r w w' \<Longrightarrow> length (w_journal w') = Suc (length (w_journal w))"
  by (auto simp: posted_def)

lemma requireWriter_region:
  "requireWriterLocked fence w = Inr st \<Longrightarrow> dget (w_regions w) (fence_Region fence) = Some st"
  by (auto simp: requireWriterLocked_def split: option.splits if_splits)

lemma requestFingerprint_neq_prefix [simp]:
  "transferMessageKind \<noteq> ''PAYMENT_CAPTURED''" "transferMessageKind \<noteq> ''DEPOSIT_CONFIRMED''"
  "transferMessageKind \<noteq> ''CASHBACK_GRANTED''" "transferMessageKind \<noteq> ''LATE_FRAUD_REVERSAL''"
  "''PAYMENT_CAPTURED'' \<noteq> transferMessageKind" "''DEPOSIT_CONFIRMED'' \<noteq> transferMessageKind"
  "''CASHBACK_GRANTED'' \<noteq> transferMessageKind" "''LATE_FRAUD_REVERSAL'' \<noteq> transferMessageKind"
  by (simp_all add: transferMessageKind_def)

lemma replayEffect_adv:
  assumes "replayEffectLocked e f key w = Some (w', r, err)"
    and "parts \<in> R" "f = requestFingerprint parts" "e = effect_of parts"
  shows "adv R k w w'"
proof (cases "dget (w_effects w) e")
  case (Some x)
  show ?thesis
  proof (cases "ef_fingerprint x = f")
    case True
    with Some assms(1) have w': "w' = recordIdempotency key f
        ((ef_receipt x)\<lparr>rc_IdempotencyKey := key, rc_Duplicate := True\<rparr>) w"
      by (auto simp: replayEffectLocked_def Let_def)
    show ?thesis unfolding w'
    proof (rule adv_keep)
      assume g: "good R k w"
      then have "rc_EffectID (ef_receipt x) = e" using Some effect_receipt by (auto simp: good_def)
      with g Some True assms show "good R k (recordIdempotency key f
          ((ef_receipt x)\<lparr>rc_IdempotencyKey := key, rc_Duplicate := True\<rparr>) w)"
        by (intro good_idempotency) (auto simp: matches_effect_def)
    qed simp
  qed (use Some assms(1) in \<open>simp add: replayEffectLocked_def\<close>)
qed (use assms(1) in \<open>simp add: replayEffectLocked_def\<close>)

section \<open>Payments\<close>

lemma finishPayment_journal [simp]: "w_journal (fst (finishPayment fence key i a nr na f r w)) = w_journal w"
  by (simp add: finishPayment_def Let_def split: prod.splits)

lemma finishPayment_good:
  assumes c: "good R k ((setRights (fence_Region fence) nr w)\<lparr>w_authorityTotal := na\<rparr>)"
    and r: "receipted (pay_effect i) f r w" and a: "0 < a" "fitsDecimal38 a"
    and st: "dget (w_regions w) (fence_Region fence) = Some st"
    and R: "[''PAYMENT'', i, s] \<in> R" "f = requestFingerprint [''PAYMENT'', i, s]"
  shows "good R k (fst (finishPayment fence key i a nr na f r w))"
proof -
  let ?c = "(setRights (fence_Region fence) nr w)\<lparr>w_authorityTotal := na\<rparr>"
  let ?p = "newPayment i (fence_Region fence) a r"
  let ?b = "addOutboxLocked r ''PAYMENT_CAPTURED'' (fence_Region fence) (fence_Region fence) (''payment:'' @ i)
    (?c\<lparr>w_payments := dset i ?p (w_payments ?c)\<rparr>)"
  have "payment_ok (w_regions ?c) (w_effects ?c) i ?p"
    using r st a by (auto simp: payment_ok_def newPayment_def receipted_def setRights_def dget_dmodify)
  then have "good R k (?c\<lparr>w_payments := dset i ?p (w_payments ?c)\<rparr>)" by (rule good_payment [OF c])
  then have "good R k ?b" using r by (intro good_outbox) (simp_all add: receipted_def)
  then have "good R k (recordIdempotency key f (r\<lparr>rc_IdempotencyKey := key\<rparr>) ?b)"
    using r R by (intro good_idempotency) (auto simp: receipted_def effect_of_def matches_effect_def)
  moreover have "\<not> rc_Duplicate r" using r by (simp add: receipted_def)
  ultimately show ?thesis
    by (simp add: finishPayment_def Let_def setRights_def [of _ _ w] frame_simps good_setRunning good_onNetwork
        split: prod.splits)
qed

lemma commitPayment_adv:
  assumes st: "dget (w_regions w) (fence_Region fence) = Some st" and fresh: "dget (w_effects w) (pay_effect i) = None"
    and a: "0 < a" and R: "[''PAYMENT'', i, s] \<in> R" "f = requestFingerprint [''PAYMENT'', i, s]"
  shows "adv R k w (fst (commitPayment fence key i a st f w))"
proof (cases "postLocked (pay_effect i) ''PAYMENT_CAPTURE'' f (payment_lines (fence_Region fence) a w) w")
  case (Pair w1 res)
  then show ?thesis
  proof (cases rule: postLocked_cases)
    case (new r)
    show ?thesis
    proof (cases "fst (commitPayment fence key i a st f w) = w")
      case False
      let ?nr = "rs_rights st - a" and ?na = "w_authorityTotal w - a"
      from False have fits: "a \<le> rs_rights st" "fitsDecimal38 ?nr" "fitsDecimal38 ?na" "0 \<le> ?na"
        "commitPayment fence key i a st f w = finishPayment fence key i a ?nr ?na f r w1"
        using Pair new
        by (auto simp: commitPayment_def fail_def Amount_Sub_Inr split: sum.splits if_splits)
      have st1: "dget (w_regions w1) (fence_Region fence) = Some st"
        using st new(3) by (auto simp: posted_def)
      show ?thesis unfolding adv_def fits(5)
      proof (intro conjI impI)
        assume g: "good R k w" and "length (w_journal (fst (finishPayment fence key i a ?nr ?na f r w1))) < 2 ^ 64"
        with Pair new st moves_lines(1) fits
        have "good R k ((setRights (fence_Region fence) (rs_rights st + - a) w1)
            \<lparr>w_authorityTotal := w_authorityTotal w + - a\<rparr>)"
          by (intro good_commit) auto
        moreover have "fitsDecimal38 a"
          using g fits(4) a by (auto simp: good_def money_ok_def intro: fits_mono [of "w_authorityTotal w"])
        ultimately show "good R k (fst (finishPayment fence key i a ?nr ?na f r w1))"
          using st1 a R posted_receipted [OF new(3)] by (intro finishPayment_good) auto
      qed (simp add: posted_journal [OF new(3)])
    qed simp
  qed (use Pair fresh in \<open>auto simp: commitPayment_def fail_def split: sum.splits\<close>)
qed

lemma PayWithFence_adv:
  assumes R: "[''PAYMENT'', i, Amount_String a] \<in> R"
  shows "adv R k w (fst (PayWithFence fence key i a w))"
proof (cases "requireWriterLocked fence w")
  case (Inl e)
  then show ?thesis by (simp add: PayWithFence_def fail_def)
next
  case (Inr st)
  let ?f = "requestFingerprint [''PAYMENT'', i, Amount_String a]"
  show ?thesis
  proof (cases "key = [] \<or> i = [] \<or> a \<le> 0")
    case False
    show ?thesis
    proof (cases "dget (w_idempotency w) key")
      case (Some x)
      with Inr False show ?thesis
        by (auto simp: PayWithFence_def fail_def Let_def split: prod.splits intro!: adv_keep)
    next
      case None
      show ?thesis
      proof (cases "replayEffectLocked (pay_effect i) ?f key w")
        case (Some x)
        obtain w' r err where x: "x = (w', r, err)" by (cases x)
        with Inr False None Some R show ?thesis
          by (auto simp: PayWithFence_def effect_of_def intro!: replayEffect_adv)
      next
        case fresh: None
        obtain crash counters where c: "consumeCounter (w_crashBeforeCommit w) key = (crash, counters)"
          by fastforce
        let ?w = "w\<lparr>w_crashBeforeCommit := counters\<rparr>"
        have "adv R k w ?w" by (auto intro: adv_keep)
        moreover have "adv R k ?w (fst (commitPayment fence key i a st ?f ?w))"
          using requireWriter_region [OF Inr] False R fresh
          by (intro commitPayment_adv) (auto simp: replayEffectLocked_def Let_def split: option.splits if_splits)
        moreover have "adv R k w (onNetwork (Network_Crash (fence_Region fence)) (setRunning (fence_Region fence) False ?w))"
          by (auto intro!: adv_keep good_onNetwork good_setRunning simp: frame_simps)
        ultimately show ?thesis
          using Inr False None fresh c
          by (auto simp: PayWithFence_def Let_def intro: adv_trans)
      qed
    qed
  qed (use Inr in \<open>auto simp: PayWithFence_def fail_def\<close>)
qed

lemma Pay_adv: "[''PAYMENT'', i, Amount_String a] \<in> R \<Longrightarrow> adv R k w (fst (Pay region key i a w))"
  by (auto simp: Pay_def fail_def PayWithFence_adv split: sum.split)

section \<open>Deposits, releases and cashback\<close>

lemma enterWrite_cases:
  assumes "enterWrite fence key valid e f w = res"
    and "parts \<in> R" "f = requestFingerprint parts" "e = effect_of parts"
  obtains (return) x where "res = Inl x" "adv R k w (fst x)"
  | (enter) st where "res = Inr st" "dget (w_regions w) (fence_Region fence) = Some st" "valid"
      "dget (w_effects w) e = None"
proof (cases res)
  case (Inl x)
  obtain w' r err where x: "x = (w', r, err)" by (cases x)
  have "adv R k w w'"
    using assms Inl x replayEffect_adv [of e f key w w' r err parts R k]
    by (auto simp: enterWrite_def fail_def split: sum.splits option.splits if_splits)
  with Inl x show thesis by (intro return) auto
next
  case (Inr st)
  with assms show thesis
    by (intro enter) (auto simp: enterWrite_def replayEffectLocked_def Let_def fail_def dest: requireWriter_region
        split: sum.splits option.splits if_splits)
qed

lemma leaveWrite_good:
  assumes "good R k w'" "receipted e f r w" "w_journal w' = w_journal w" "w_effects w' = w_effects w"
    and "parts \<in> R" "f = requestFingerprint parts" "e = effect_of parts"
  shows "good R k (fst (leaveWrite key f r w'))"
  using assms by (auto simp: leaveWrite_def Let_def receipted_def matches_effect_def intro!: good_idempotency)

lemma leaveWrite_journal [simp]: "w_journal (fst (leaveWrite key f r w)) = w_journal w"
  by (simp add: leaveWrite_def Let_def)

text \<open>
  The common part of the three operations: a posting that credits the customer and the region with \<open>a\<close>, the
  commit of rights and authority, further updates \<open>g\<close> that keep the invariant, and the epilogue.
\<close>

lemma credit_adv:
  assumes post: "postLocked e kd f ls w = (w1, Inr r)" "dget (w_effects w) e = None"
    and st: "dget (w_regions w) region = Some st" and a: "0 < a"
    and fits: "fitsDecimal38 (w_authorityTotal w + a)"
    and e: "\<forall>i. e \<noteq> out_effect i \<and> e \<noteq> in_effect i" and ls: "moves ls region a"
    and R: "parts \<in> R" "f = requestFingerprint parts" "e = effect_of parts"
    and g: "\<And>c. c = (setRights region (rs_rights st + a) w1)\<lparr>w_authorityTotal := w_authorityTotal w + a\<rparr> \<Longrightarrow>
        good R k w \<Longrightarrow> good R k c \<Longrightarrow> receipted e f r c \<Longrightarrow> good R k w'"
    and same: "w_journal w' = w_journal w1" "w_effects w' = w_effects w1"
  shows "adv R k w (fst (leaveWrite key f r w'))"
proof -
  have p: "posted e f ls r w w1" by (rule postLocked_posted [OF post])
  let ?c = "(setRights region (rs_rights st + a) w1)\<lparr>w_authorityTotal := w_authorityTotal w + a\<rparr>"
  have "good R k (fst (leaveWrite key f r w'))" if gw: "good R k w" and "length (w_journal w1) < 2 ^ 64"
  proof -
    have "0 \<le> rs_rights st" using gw st by (auto simp: good_def money_ok_def)
    then have "good R k ?c" using that post e ls st fits a by (intro good_commit) auto
    moreover have "receipted e f r ?c" using posted_receipted [OF p] by (simp add: receipted_def)
    ultimately have "good R k w'" using g gw by blast
    then show ?thesis using same R posted_receipted [OF p] by (intro leaveWrite_good)
  qed
  then show ?thesis by (simp add: adv_def same posted_journal [OF p])
qed

lemma Deposit_locked_adv:
  assumes R: "[''DEPOSIT'', i, Amount_String a] \<in> R"
  shows "adv R k w (fst (Deposit_locked fence key i a w))"
proof -
  let ?f = "requestFingerprint [''DEPOSIT'', i, Amount_String a]" and ?e = "''deposit:'' @ i"
  let ?reg = "fence_Region fence"
  obtain res where res: "enterWrite fence key (key \<noteq> [] \<and> i \<noteq> [] \<and> 0 < Amount_Sign a) ?e ?f w = res" by simp
  have "?e = effect_of [''DEPOSIT'', i, Amount_String a]" by (simp add: effect_of_def)
  from res R refl this show ?thesis
  proof (cases rule: enterWrite_cases [where k = k])
    case (return x)
    with res show ?thesis by (simp add: Deposit_locked_def Let_def)
  next
    case (enter st)
    obtain w1 p where p: "postLocked ?e ''DEPOSIT'' ?f (deposit_lines ?reg a w) w = (w1, p)" by fastforce
    then show ?thesis
    proof (cases rule: postLocked_cases)
      case (new r)
      let ?c = "(setRights ?reg (rs_rights st + a) w1)\<lparr>w_authorityTotal := w_authorityTotal w + a\<rparr>"
      let ?w' = "addOutboxLocked r ''DEPOSIT_CONFIRMED'' ?reg ?reg ?e ?c"
      have "adv R k w (fst (leaveWrite key ?f r ?w'))" if "fitsDecimal38 (w_authorityTotal w + a)"
        using p new enter R that moves_lines(2)
        by (intro credit_adv [where parts = "[''DEPOSIT'', i, Amount_String a]" and region = ?reg and st = st])
          (auto simp: effect_of_def receipted_def intro!: good_outbox)
      with enter res p new posted_receipted [OF new(3)] show ?thesis
        by (auto simp: Deposit_locked_def Let_def fail_def receipted_def Amount_Add_Inr split: sum.splits)
    qed (use p enter res in \<open>auto simp: Deposit_locked_def Let_def fail_def split: sum.splits\<close>)
  qed
qed

lemma Deposit_adv: "[''DEPOSIT'', i, Amount_String a] \<in> R \<Longrightarrow> adv R k w (fst (Deposit region key i a w))"
  by (auto simp: Deposit_def fail_def Deposit_locked_adv split: sum.split)

text \<open>A release that stays within the captured amount.\<close>

lemma updateState_fields [simp]:
  "pm_operationID (updateState p) = pm_operationID p" "pm_region (updateState p) = pm_region p"
  "pm_authorized (updateState p) = pm_authorized p" "pm_captured (updateState p) = pm_captured p"
  "pm_refunded (updateState p) = pm_refunded p" "pm_reversed (updateState p) = pm_reversed p"
  "pm_chargedBack (updateState p) = pm_chargedBack p" "pm_receipt (updateState p) = pm_receipt p"
  by (simp_all add: updateState_def Let_def)

lemma add_or_zero_fits: "fitsDecimal38 (a + b) \<Longrightarrow> add_or_zero a b = a + b"
  by (simp add: add_or_zero_def)

lemma payment_ok_release:
  assumes p: "payment_ok G E i p" and a: "0 < a" "pm_refunded p + pm_reversed p + pm_chargedBack p + a \<le> pm_captured p"
  shows "payment_ok G E i (addRelease kind a p)" "payment_ok G E i (addChargeback a p)"
proof -
  have n: "0 \<le> pm_refunded p" "0 \<le> pm_reversed p" "0 \<le> pm_chargedBack p" "fitsDecimal38 (pm_captured p)"
    using p by (simp_all add: payment_ok_def)
  then have "fitsDecimal38 (pm_refunded p + a)" "fitsDecimal38 (pm_reversed p + a)" "fitsDecimal38 (pm_chargedBack p + a)"
    using a by (auto intro: fits_mono [OF n(4)])
  then show "payment_ok G E i (addRelease kind a p)" "payment_ok G E i (addChargeback a p)"
    using p a by (auto simp: payment_ok_def addRelease_def addChargeback_def add_or_zero_fits)
qed

definition release_kind :: "string \<Rightarrow> bool" where
  "release_kind kind \<longleftrightarrow> kind = ''REFUND'' \<or> kind = ''REVERSAL'' \<or> kind = ''CHARGEBACK''"

lemma release_kind_facts:
  assumes "release_kind kind"
  shows "kind @ '':'' @ i = effect_of (kind # i # s)" "kind @ ''_CONFIRMED'' \<noteq> transferMessageKind"
    "\<forall>j. kind @ '':'' @ i \<noteq> out_effect j \<and> kind @ '':'' @ i \<noteq> in_effect j"
  using assms by (auto simp: release_kind_def effect_of_def transferMessageKind_def)

lemma applyRelease_good:
  assumes g: "good R k ((setRights region nr w)\<lparr>w_authorityTotal := na\<rparr>)"
    and p: "dget (w_payments w) i = Some p" "payment_ok (w_regions (setRights region nr w)) (w_effects w) i (addRelease kind a p)"
    and r: "rc_TransactionID r \<in> journal_ids (w_journal w)" and kind: "release_kind kind"
  shows "good R k (applyRelease region kind rid i a nr na r w)"
proof -
  let ?c = "(setRights region nr w)\<lparr>w_authorityTotal := na\<rparr>"
  have "good R k (?c\<lparr>w_payments := dset i (addRelease kind a p) (w_payments ?c)\<rparr>)"
    using p(2) by (intro good_payment [OF g]) simp
  then have "good R k (?c\<lparr>w_payments := dset i (addRelease kind a p) (w_payments ?c),
      w_refunds := (if kind = ''REFUND'' then dset rid a (w_refunds w) else w_refunds w)\<rparr>)"
    by simp
  then show ?thesis
    unfolding applyRelease_def Let_def
    using r release_kind_facts [OF kind] p(1)
    by (intro good_outbox) (simp_all add: dmodify_Some setRights_def)
qed

lemma applyRelease_frame [simp]:
  "w_journal (applyRelease region kind rid i a nr na r w) = w_journal w"
  "w_effects (applyRelease region kind rid i a nr na r w) = w_effects w"
  by (simp_all add: applyRelease_def Let_def)

lemma releaseCapture_locked_adv:
  assumes R: "[kind, rid, i, Amount_String a] \<in> R" and kind: "release_kind kind"
  shows "adv R k w (fst (releaseCapture_locked fence key rid i a kind w))"
proof -
  let ?parts = "[kind, rid, i, Amount_String a]" and ?e = "kind @ '':'' @ rid" and ?reg = "fence_Region fence"
  let ?f = "requestFingerprint ?parts"
  obtain res where res: "enterWrite fence key (key \<noteq> [] \<and> rid \<noteq> [] \<and> i \<noteq> [] \<and> 0 < Amount_Sign a) ?e ?f w = res"
    by simp
  from this R refl release_kind_facts(1) [OF kind] show ?thesis
  proof (cases rule: enterWrite_cases [where k = k])
    case (return x)
    with res show ?thesis by (simp add: releaseCapture_locked_def Let_def)
  next
    case (enter st)
    obtain w1 q where q: "postLocked ?e kind ?f (release_lines ?reg a w) w = (w1, q)" by fastforce
    then show ?thesis
    proof (cases rule: postLocked_cases)
      case (new r)
      let ?c = "(setRights ?reg (rs_rights st + a) w1)\<lparr>w_authorityTotal := w_authorityTotal w + a\<rparr>"
      let ?w' = "applyRelease ?reg kind rid i a (rs_rights st + a) (w_authorityTotal w + a) r w1"
      have w1: "w_payments w1 = w_payments w" using new(3) by (auto simp: posted_def)
      have adv: "adv R k w (fst (leaveWrite key ?f r ?w'))"
        if p: "dget (w_payments w) i = Some p" and fits: "fitsDecimal38 (w_authorityTotal w + a)"
          and sum: "pm_refunded p + pm_reversed p + pm_chargedBack p + a \<le> pm_captured p" for p
      proof (rule credit_adv [OF q [unfolded new(1)] new(2)])
        fix c assume "c = ?c" "good R k w" "good R k c" "receipted ?e ?f r c"
        moreover from this have "payment_ok (w_regions ?c) (w_effects ?c) i p"
          using p w1 by (simp add: good_def payments_ok_def setRights_def)
        ultimately show "good R k ?w'"
          using p w1 sum enter(3) kind
          by (intro applyRelease_good) (auto intro!: payment_ok_release simp: receipted_def)
      qed (use R kind fits enter moves_lines(3) release_kind_facts [OF kind] in auto)
      show ?thesis
      proof (cases "dget (w_payments w) i")
        case (Some p)
        with adv [OF Some] enter res q new posted_receipted [OF new(3)] show ?thesis
          by (auto simp: releaseCapture_locked_def Let_def fail_def receipted_def Amount_Add_Inr
              dest!: amountSum_Inr split: sum.splits)
      qed (use enter res in \<open>simp add: releaseCapture_locked_def Let_def fail_def\<close>)
    qed (use q enter res in \<open>auto simp: releaseCapture_locked_def Let_def fail_def split: sum.splits option.splits\<close>)
  qed
qed

lemma release_adv:
  "[''REFUND'', rid, i, Amount_String a] \<in> R \<Longrightarrow> adv R k w (fst (Refund region key rid i a w))"
  "[''REVERSAL'', rid, i, Amount_String a] \<in> R \<Longrightarrow> adv R k w (fst (Reverse region key rid i a w))"
  "[''CHARGEBACK'', rid, i, Amount_String a] \<in> R \<Longrightarrow> adv R k w (fst (Chargeback region key rid i a w))"
  by (auto simp: Refund_def Reverse_def Chargeback_def releaseCapture_def fail_def release_kind_def
      releaseCapture_locked_adv split: sum.split)

lemma GrantCashback_locked_adv:
  assumes R: "[''CASHBACK'', e, i, Amount_String a, Amount_String m] \<in> R"
  shows "adv R k w (fst (GrantCashback_locked fence key e i a m w))"
proof -
  let ?parts = "[''CASHBACK'', e, i, Amount_String a, Amount_String m]" and ?e = "''cashback:'' @ e"
  let ?f = "requestFingerprint ?parts" and ?reg = "fence_Region fence" and ?paid = "dget_or 0 (w_cashbackPaid w) i + a"
  obtain res where res: "enterWrite fence key
      (key \<noteq> [] \<and> e \<noteq> [] \<and> i \<noteq> [] \<and> 0 < Amount_Sign a \<and> \<not> Amount_Sign m < 0) ?e ?f w = res" by simp
  have "?e = effect_of ?parts" by (simp add: effect_of_def)
  from res R refl this show ?thesis
  proof (cases rule: enterWrite_cases [where k = k])
    case (return x)
    with res show ?thesis by (simp add: GrantCashback_locked_def Let_def)
  next
    case (enter st)
    obtain w1 q where q: "postLocked ?e ''CASHBACK'' ?f (cashback_lines ?reg a w) w = (w1, q)" by fastforce
    then show ?thesis
    proof (cases rule: postLocked_cases)
      case (new r)
      let ?c = "(setRights ?reg (rs_rights st + a) w1)\<lparr>w_authorityTotal := w_authorityTotal w + a\<rparr>"
      let ?w' = "addOutboxLocked r ''CASHBACK_GRANTED'' ?reg ?reg e
        (?c\<lparr>w_cashbackRules := dset i m (w_cashbackRules w1), w_cashbackPaid := dset i ?paid (w_cashbackPaid w1)\<rparr>)"
      have adv: "adv R k w (fst (leaveWrite key ?f r ?w'))"
        if fits: "fitsDecimal38 (w_authorityTotal w + a)" and m: "?paid \<le> m"
      proof (rule credit_adv [OF q [unfolded new(1)] new(2)])
        fix c assume c: "c = ?c" "good R k c" "receipted ?e ?f r c"
        then have "good R k (?c\<lparr>w_cashbackRules := dset i m (w_cashbackRules ?c),
            w_cashbackPaid := dset i ?paid (w_cashbackPaid ?c)\<rparr>)"
          using m by (intro good_cashback) simp
        with c show "good R k ?w'" by (intro good_outbox) (simp_all add: setRights_def receipted_def)
      qed (use R fits enter moves_lines(4) in \<open>auto simp: effect_of_def\<close>)
      with enter res q new posted_receipted [OF new(3)] show ?thesis
        by (auto simp: GrantCashback_locked_def Let_def fail_def receipted_def Amount_Add_Inr split: sum.splits)
    qed (use q enter res in \<open>auto simp: GrantCashback_locked_def Let_def fail_def split: sum.splits\<close>)
  qed
qed

lemma GrantCashback_adv:
  "[''CASHBACK'', e, i, Amount_String a, Amount_String m] \<in> R \<Longrightarrow> adv R k w (fst (GrantCashback region key e i a m w))"
  by (auto simp: GrantCashback_def fail_def GrantCashback_locked_adv split: sum.split)

end
