(* ===== verification/Sim_Preserve_Transfer.thy ===== *)
theory Sim_Preserve_Transfer
  imports Sim_Preserve
begin

text \<open>
  The transfer protocol keeps the invariant: committing a certificate at the source, consuming it at the
  destination, and the message pump with lost, duplicated and reordered packets in between. The queue only
  ever holds commands that carry the certificate of a committed transfer (\<open>carries\<close>), which ties the message
  identifier to the transfer.
\<close>

section \<open>Certificates of committed transfers\<close>

definition certs_kept :: "(string, transferState) dict \<Rightarrow> (string, transferState) dict \<Rightarrow> bool" where
  "certs_kept T T' \<longleftrightarrow>
     (\<forall>i t. dget T i = Some t \<longrightarrow> (\<exists>t'. dget T' i = Some t' \<and> tr_certificate t' = tr_certificate t))"

lemma certs_kept_refl [simp]: "certs_kept T T"
  by (simp add: certs_kept_def)

lemma certs_kept_trans: "certs_kept T T' \<Longrightarrow> certs_kept T' T'' \<Longrightarrow> certs_kept T T''"
  unfolding certs_kept_def by metis

lemma certs_kept_new: "dget T i = None \<Longrightarrow> certs_kept T (dset i t T)"
  by (auto simp: certs_kept_def DAList.lookup_update)

lemma certs_kept_update:
  "dget T i = Some t \<Longrightarrow> tr_certificate t' = tr_certificate t \<Longrightarrow> certs_kept T (dset i t' T)"
  by (auto simp: certs_kept_def DAList.lookup_update)

lemma carries_kept: "certs_kept T T' \<Longrightarrow> carries T m p \<Longrightarrow> carries T' m p"
  unfolding carries_def certs_kept_def by metis

lemma queue_ok_kept: "certs_kept T T' \<Longrightarrow> queue_ok q T \<Longrightarrow> queue_ok q T'"
  by (auto simp: queue_ok_def intro: carries_kept)

lemma outbox_ok_kept: "certs_kept T T' \<Longrightarrow> outbox_ok B j T \<Longrightarrow> outbox_ok B j T'"
  by (auto simp: outbox_ok_def intro: carries_kept)

lemma inbox_ok_kept: "certs_kept T T' \<Longrightarrow> inbox_ok I E T \<Longrightarrow> inbox_ok I E T'"
  unfolding inbox_ok_def by (blast intro: carries_kept)

lemmas kept_monos = queue_ok_kept outbox_ok_kept inbox_ok_kept

section \<open>Source side\<close>

lemma sequence_length:
  "good R k w \<Longrightarrow> w_sequence w = word_of_nat (length (w_journal w))"
  by (auto simp: good_def journal_ok_def audited_def)

lemma sequence_nonzero:
  assumes "good R k w" "Suc (length (w_journal w)) < 2 ^ 64"
  shows "w_sequence w + 1 \<noteq> 0"
proof -
  have "w_sequence w + 1 = word_of_nat (Suc (length (w_journal w)))"
    using sequence_length [OF assms(1)] by simp
  moreover have "unat (word_of_nat (Suc (length (w_journal w))) :: uint64) = Suc (length (w_journal w))"
    using assms(2) by (simp add: unat_of_nat del: of_nat_Suc)
  ultimately show ?thesis by (metis nat.distinct(1) unat_0)
qed

lemma newCertificate_ok:
  assumes g: "good R k w" and st: "dget (w_regions w) (fence_Region fence) = Some st" "rs_epoch st = fence_Epoch fence"
    and dest: "dget (w_regions w) d \<noteq> None" "fence_Region fence \<noteq> d"
    and i: "i \<noteq> []" "valid_utf8 i" and a: "0 < a" "fitsDecimal38 a" and r: "rc_CommitSequence r \<noteq> 0"
  shows "cert_valid (w_asset w) (w_certificateKey w) (newCertificate fence i d a r w)"
    "cert_ok (newCertificate fence i d a r w)"
proof -
  have reg: "regions_ok k (w_regions w)" and asset: "valid_utf8 (w_asset w)" using g by (simp_all add: good_def)
  have src: "fence_Region fence \<noteq> []" "valid_utf8 (fence_Region fence)" "fence_Epoch fence \<noteq> 0"
    using reg st unfolding regions_ok_def by (metis less_numeral_extra(3) unat_0)+
  have dst: "d \<noteq> []" "valid_utf8 d" using reg dest(1) by (auto simp: regions_ok_def)
  show "cert_valid (w_asset w) (w_certificateKey w) (newCertificate fence i d a r w)"
    using src dst dest(2) i a r
    by (simp add: cert_valid_def newCertificate_def Let_def certificateProof_def canonicalCertificatePayload_def)
  show "cert_ok (newCertificate fence i d a r w)"
    using src dst asset i a
    by (simp add: cert_ok_def newCertificate_def Let_def certificateProof_def)
qed

lemma transit_total_new:
  "dget T i = None \<Longrightarrow> transit_total (dset i t T) = transit_total T + in_transit t"
  by (simp add: transit_total_def dict_sum_fresh)

lemma transit_total_update:
  "dget T i = Some t \<Longrightarrow> transit_total (dset i t' T) = transit_total T - in_transit t + in_transit t'"
  by (simp add: transit_total_def dict_sum_replace)

lemma transfer_ok_out [simp]:
  "transfer_ok asset key I (dset (out_effect i) e E) j u = transfer_ok asset key I E j u"
  by (simp add: transfer_ok_def DAList.lookup_update)

lemma transfers_ok_new:
  assumes "transfers_ok asset key T I E" "inbox_ok I E T" "dget T i = None"
    and "cert_valid asset key (tr_certificate t)" "cert_ok (tr_certificate t)" "tc_TransferID (tr_certificate t) = i"
    and "tr_inTransit t" "\<not> tr_consumed t" "\<not> tr_sourceAcknowledged t"
  shows "transfers_ok asset key (dset i t T) I (dset (out_effect i) e E)"
proof -
  have "dget I (tmsg i) = None"
    using assms(2,3) by (cases "dget I (tmsg i)") (fastforce simp: inbox_ok_def carries_def)+
  moreover have "dget E (in_effect i) = None" using assms(1,3) by (simp add: transfers_ok_def)
  ultimately have t: "transfer_ok asset key I E i t" using assms by (simp add: transfer_ok_def)
  show ?thesis
    unfolding transfers_ok_def transfer_ok_out
    using assms(1) t by (simp add: transfers_ok_def DAList.lookup_update)
qed

lemma transfer_lines_delta:
  "lines_delta (transfer_out_lines n a w) UserAccount = 0"
  "lines_delta (transfer_out_lines n a w) AuthorityTransitAccount = a"
  "lines_delta (transfer_out_lines n a w) AuthorityUnallocatedAccount = 0"
  "lines_delta (transfer_out_lines n a w) (RegionalAuthorityAccount m) = (if m = n then - a else 0)"
  "lines_delta (transfer_in_lines n a w) UserAccount = 0"
  "lines_delta (transfer_in_lines n a w) AuthorityTransitAccount = - a"
  "lines_delta (transfer_in_lines n a w) AuthorityUnallocatedAccount = 0"
  "lines_delta (transfer_in_lines n a w) (RegionalAuthorityAccount m) = (if m = n then a else 0)"
  by (auto simp: transfer_out_lines_def transfer_in_lines_def account_defs)

lemma recordTransfer_good:
  assumes g: "good R k w"
    and post: "postLocked (out_effect i) kd f (transfer_out_lines region a w) w = (w1, Inr r)"
      "dget (w_effects w) (out_effect i) = None"
    and len: "length (w_journal w1) < 2 ^ 64"
    and new: "dget (w_transfers w) i = None"
    and st: "dget (w_regions w) region = Some st" and a: "0 < a" "a \<le> rs_rights st"
    and c: "cert_valid (w_asset w) (w_certificateKey w) c" "cert_ok c" "tc_TransferID c = i" "tc_Amount c = a"
  shows "good R k (recordTransfer region i d (rs_rights st - a) r c w1)"
proof -
  let ?t = "\<lparr>tr_certificate = c, tr_inTransit = True, tr_consumed = False,
    tr_sourceAcknowledged = False, tr_consumeReceipt = zeroReceipt\<rparr>"
  let ?T = "dset i ?t (w_transfers w)" and ?G = "dset region (st\<lparr>rs_rights := rs_rights st - a\<rparr>) (w_regions w)"
  obtain b t where b: "\<And>x. dget_or 0 b x = dget_or 0 (w_balances w) x + lines_delta (transfer_out_lines region a w) x"
      "jt_ID t = rc_TransactionID r"
      "w1 = w\<lparr>w_balances := b, w_sequence := w_sequence w + 1, w_headHash := jt_Hash t,
              w_journal := w_journal w @ [t],
              w_effects := dset (out_effect i) \<lparr>ef_fingerprint = f, ef_receipt = r\<rparr> (w_effects w)\<rparr>"
    by (rule postedE [OF postLocked_posted [OF post]]) blast
  have jo: "journal_ok (w_journal w1) (w_balances w1) (w_sequence w1) (w_headHash w1) (w_effects w1)"
    using journal_ok_post [OF post _ len] g by (simp add: good_def)
  have money: "money_ok (w_creditLimit w) (w_unallocated w) (w_authorityTotal w) ?G b ?T"
    using g st a c new
    by (auto simp: good_def money_ok_def b(1) transfer_lines_delta rights_total_dset transit_total_new
        in_transit_def DAList.lookup_update)
  have kept: "certs_kept (w_transfers w) ?T" by (rule certs_kept_new [OF new])
  have tr: "transfers_ok (w_asset w) (w_certificateKey w) ?T (w_inbox w) (w_effects w1)"
  proof -
    have "w_effects w1 = dset (out_effect i) \<lparr>ef_fingerprint = f, ef_receipt = r\<rparr> (w_effects w)" by (simp only: b(3)) simp
    then show ?thesis using g c new by (simp only:) (rule transfers_ok_new; simp add: good_def)
  qed
  have ob: "outbox_ok (w_outbox (recordTransfer region i d (rs_rights st - a) r c w1)) (w_journal w @ [t]) ?T"
    using g outbox_ok_kept [OF kept outbox_ok_append [of "w_outbox w" "w_journal w" "w_transfers w" t]]
    by (auto simp: good_def outbox_ok_def recordTransfer_def Let_def addOutboxLocked_def setRights_def b(2,3)
        DAList.lookup_update dget_ddel outbox_record_def zeroOutbox_def carries_def)
  show ?thesis
    using g jo money tr ob kept st post(2)
    by (simp add: good_def recordTransfer_def Let_def addOutboxLocked_def setRights_def dmodify_Some b(3)
        effect_monos kept_monos payments_ok_region regions_ok_dset)
qed

lemma recordTransfer_journal [simp]: "w_journal (recordTransfer region i d nr r c w) = w_journal w"
  by (simp add: recordTransfer_def Let_def)

lemma requireWriter_epoch: "requireWriterLocked fence w = Inr st \<Longrightarrow> rs_epoch st = fence_Epoch fence"
  by (auto simp: requireWriterLocked_def split: option.splits if_splits)

lemma rights_fit:
  assumes g: "good R k w" and st: "dget (w_regions w) n = Some st" and a: "0 < a" "a \<le> rs_rights st"
  shows "fitsDecimal38 a"
proof -
  have m: "money_ok (w_creditLimit w) (w_unallocated w) (w_authorityTotal w) (w_regions w) (w_balances w) (w_transfers w)"
    and t: "transfers_ok (w_asset w) (w_certificateKey w) (w_transfers w) (w_inbox w) (w_effects w)"
    using g by (simp_all add: good_def)
  have "rs_rights st \<le> rights_total (w_regions w)"
    using m st unfolding rights_total_def dict_sum_def
    by (intro member_le_sum_list) (auto simp: money_ok_def mem_entries_iff image_iff intro!: bexI [of _ "(n, st)"])
  with m transit_total_nonneg [OF t] a show ?thesis
    by (auto simp: money_ok_def intro: fits_mono [of "w_authorityTotal w"])
qed

lemma InitiateTransfer_adv:
  assumes i: "valid_utf8 i"
  shows "adv R k w (fst (InitiateTransfer fence i d a w))"
proof (cases "fst (InitiateTransfer fence i d a w) = w")
  case changed: False
  let ?f = "requestFingerprint [''RIGHTS_TRANSFER_OUT'', i, fence_Region fence, d, Amount_String a]"
  obtain w1 q where q: "postLocked (out_effect i) ''RIGHTS_TRANSFER_OUT'' ?f
    (transfer_out_lines (fence_Region fence) a w) w = (w1, q)" by fastforce
  obtain st where st: "requireWriterLocked fence w = Inr st" "i \<noteq> []" "fence_Region fence \<noteq> d" "0 < a"
      "dget (w_regions w) d \<noteq> None" "dget (w_transfers w) i = None" "a \<le> rs_rights st"
      "fitsDecimal38 (rs_rights st - a)" "d \<noteq> []"
    using changed by (auto simp: InitiateTransfer_def Let_def Amount_Sub_Inr split: sum.splits if_splits option.splits)
  from q show ?thesis
  proof (cases rule: postLocked_cases)
    case (new r)
    let ?c = "newCertificate fence i d a r w1"
    have p: "posted (out_effect i) ?f (transfer_out_lines (fence_Region fence) a w) r w w1" by (rule new(3))
    have w': "fst (InitiateTransfer fence i d a w) =
        recordTransfer (fence_Region fence) i d (rs_rights st - a) r ?c w1"
      using st q new by (auto simp: InitiateTransfer_def Let_def)
    have c: "?c = newCertificate fence i d a r w" using p by (auto simp: posted_def newCertificate_def)
    show ?thesis unfolding adv_def w'
    proof (intro conjI impI)
      assume g: "good R k w"
        and "length (w_journal (recordTransfer (fence_Region fence) i d (rs_rights st - a) r ?c w1)) < 2 ^ 64"
      then have len: "length (w_journal w1) < 2 ^ 64" by simp
      then have "rc_CommitSequence r \<noteq> 0"
        using p sequence_nonzero [OF g] posted_journal [OF p] by (auto simp: posted_def)
      moreover have fits: "fitsDecimal38 a"
        using g st requireWriter_region [OF st(1)] rights_fit by blast
      ultimately have "cert_valid (w_asset w) (w_certificateKey w) ?c" "cert_ok ?c"
        unfolding c using g st i requireWriter_region [OF st(1)] requireWriter_epoch [OF st(1)]
        by (auto intro!: newCertificate_ok)
      moreover have "tc_TransferID ?c = i" "tc_Amount ?c = a" by (simp_all add: newCertificate_def Let_def)
      ultimately show "good R k (recordTransfer (fence_Region fence) i d (rs_rights st - a) r ?c w1)"
        using g q new len st requireWriter_region [OF st(1)] by (intro recordTransfer_good) auto
    qed (simp add: posted_journal [OF p])
  next
    case (error err)
    with st q changed show ?thesis by (auto simp: InitiateTransfer_def Let_def)
  next
    case (replay r)
    then have "\<not> good R k w" using st(6) by (auto simp: good_def transfers_ok_def)
    moreover have "w_journal (fst (InitiateTransfer fence i d a w)) = w_journal w"
      using st q replay by (auto simp: InitiateTransfer_def Let_def recordTransfer_def)
    ultimately show ?thesis by (simp add: adv_def)
  qed
qed simp

section \<open>Destination side\<close>

lemma transfers_ok_consume:
  assumes "transfers_ok asset key T I E" "dget T i = Some t"
    and "tr_certificate t' = tr_certificate t" "\<not> tr_inTransit t'" "tr_consumed t'"
  shows "transfers_ok asset key (dset i t' T) (dset (tmsg i) x I) (dset (in_effect i) e E)"
proof -
  have "transfer_ok asset key (dset (tmsg i) x I) (dset (in_effect i) e E) i t'"
    using assms by (simp add: transfers_ok_def transfer_ok_def)
  moreover have "transfer_ok asset key (dset (tmsg i) x I) (dset (in_effect i) e E) j u = transfer_ok asset key I E j u"
    if "j \<noteq> i" for j u
    using that by (simp add: transfer_ok_def DAList.lookup_update)
  ultimately show ?thesis
    using assms(1) unfolding transfers_ok_def by (simp add: DAList.lookup_update)
qed

lemma transfers_ok_inbox:
  assumes "transfers_ok asset key T I E" "dget I m \<noteq> None"
  shows "transfers_ok asset key T (dset m x I) E"
proof -
  have "dget (dset m x I) j = None \<longleftrightarrow> dget I j = None" for j
    using assms(2) by (auto simp: DAList.lookup_update)
  then have "transfer_ok asset key (dset m x I) E = transfer_ok asset key I E"
    unfolding transfer_ok_def by presburger
  then show ?thesis using assms(1) by (simp only: transfers_ok_def)
qed

lemma applyConsume_good:
  assumes g: "good R k w" and i: "i = tc_TransferID c"
    and post: "postLocked (in_effect i) kd f (transfer_in_lines (tc_DestinationRegion c) (tc_Amount c) w) w = (w1, Inr r)"
      "dget (w_effects w) (in_effect i) = None"
    and len: "length (w_journal w1) < 2 ^ 64"
    and t: "dget (w_transfers w) i = Some t" "tr_certificate t = c" "tr_inTransit t"
    and st: "dget (w_regions w) (tc_DestinationRegion c) = Some st"
  shows "good R k (applyConsume (tmsg i) c (payloadHash (marshalCertificate c)) (rs_rights st + tc_Amount c) r w1)"
proof -
  let ?a = "tc_Amount c" and ?dst = "tc_DestinationRegion c"
  let ?t = "t\<lparr>tr_inTransit := False, tr_consumed := True, tr_consumeReceipt := r\<rparr>"
  let ?x = "\<lparr>ib_MessageID = tmsg i, ib_PayloadHash = payloadHash (marshalCertificate c),
    ib_EffectID = rc_EffectID r, ib_DuplicateDeliveries = 0\<rparr>"
  let ?e = "\<lparr>ef_fingerprint = f, ef_receipt = r\<rparr>"
  let ?T = "dset i ?t (w_transfers w)" and ?G = "dset ?dst (st\<lparr>rs_rights := rs_rights st + ?a\<rparr>) (w_regions w)"
  let ?I = "dset (tmsg i) ?x (w_inbox w)" and ?E = "dset (in_effect i) ?e (w_effects w)"
  have p: "posted (in_effect i) f (transfer_in_lines ?dst ?a w) r w w1" by (rule postLocked_posted [OF post])
  obtain b j where b: "\<And>y. dget_or 0 b y = dget_or 0 (w_balances w) y + lines_delta (transfer_in_lines ?dst ?a w) y"
      "w1 = w\<lparr>w_balances := b, w_sequence := w_sequence w + 1, w_headHash := jt_Hash j,
              w_journal := w_journal w @ [j], w_effects := ?E\<rparr>"
    by (rule postedE [OF p]) blast
  have r: "rc_EffectID r = in_effect i" using p by (simp add: posted_def)
  have "transfer_ok (w_asset w) (w_certificateKey w) (w_inbox w) (w_effects w) i t"
    using g t(1) by (simp add: good_def transfers_ok_def)
  then have a: "0 < ?a" using t(2) by (simp add: transfer_ok_def cert_valid_def)
  have jo: "journal_ok (w_journal w1) (w_balances w1) (w_sequence w1) (w_headHash w1) (w_effects w1)"
    using journal_ok_post [OF post _ len] g by (simp add: good_def)
  have money: "money_ok (w_creditLimit w) (w_unallocated w) (w_authorityTotal w) ?G b ?T"
    using g st a t
    by (auto simp: good_def money_ok_def b(1) transfer_lines_delta rights_total_dset
        transit_total_update [OF t(1)] in_transit_def DAList.lookup_update)
  have kept: "certs_kept (w_transfers w) ?T" by (rule certs_kept_update [OF t(1)]) simp
  have tr: "transfers_ok (w_asset w) (w_certificateKey w) ?T ?I ?E"
    using g t(1) by (intro transfers_ok_consume [where t = t]) (simp_all add: good_def)
  have "inbox_ok (w_inbox w) ?E ?T" using g by (intro inbox_ok_effect inbox_ok_kept [OF kept]) (simp add: good_def)
  moreover have "carries ?T (tmsg i) (marshalCertificate c)" using t(2) unfolding carries_def
    by (intro exI [of _ i] exI [of _ ?t]) simp
  ultimately have ib: "inbox_ok ?I ?E ?T"
    using r unfolding inbox_ok_def by (auto simp: DAList.lookup_update)
  have "applyConsume (tmsg i) c (payloadHash (marshalCertificate c)) (rs_rights st + tc_Amount c) r w1
      = w1\<lparr>w_regions := ?G, w_transfers := ?T, w_inbox := ?I\<rparr>"
    using st t(1) i by (simp add: applyConsume_def setRights_def dmodify_Some b(2))
  then show ?thesis
    using g jo money tr ib kept st post(2)
    by (simp add: good_def b(2) effect_monos kept_monos payments_ok_region regions_ok_dset)
qed

lemma applyConsume_journal [simp]: "w_journal (applyConsume m c h nr r w) = w_journal w"
  by (simp add: applyConsume_def)

lemma finishConsume_adv: "adv R k w (fst (finishConsume m d r dup w))"
  by (auto simp: finishConsume_def Let_def frame_simps split: prod.splits
      intro!: adv_keep good_onNetwork good_setRunning)

lemma consumeTransfer_adv:
  assumes m: "m = tmsg (tc_TransferID c)"
  shows "adv R k w (fst (consumeTransfer m c w))"
proof (cases "fst (consumeTransfer m c w) = w")
  case changed: False
  let ?i = "tc_TransferID c" and ?dst = "tc_DestinationRegion c" and ?h = "payloadHash (marshalCertificate c)"
  let ?f = "requestFingerprint [''RIGHTS_TRANSFER_IN'', tc_TransferID c, CommitProofString c]"
  obtain st t where st: "dget (w_regions w) ?dst = Some st" "rs_running st" "hasQuorumLocked w"
      "verifyCertificateLocked c w" "dget (w_transfers w) ?i = Some t" "tr_certificate t = c"
    using changed by (auto simp: consumeTransfer_def Let_def split: option.splits if_splits)
  show ?thesis
  proof (cases "dget (w_inbox w) m")
    case (Some x)
    let ?w = "w\<lparr>w_inbox := dset m (x\<lparr>ib_DuplicateDeliveries := ib_DuplicateDeliveries x + 1\<rparr>) (w_inbox w)\<rparr>"
    have "good R k ?w" if g: "good R k w"
    proof -
      have "transfers_ok (w_asset w) (w_certificateKey w) (w_transfers w) (w_inbox ?w) (w_effects w)"
        using g Some by (auto simp: good_def intro: transfers_ok_inbox)
      moreover have "inbox_ok (w_inbox ?w) (w_effects w) (w_transfers w)"
        using g Some unfolding good_def inbox_ok_def by (simp add: DAList.lookup_update)
      ultimately show ?thesis using g by (simp add: good_def)
    qed
    then have "adv R k w ?w" by (intro adv_keep) auto
    with finishConsume_adv [THEN [2] adv_trans] show ?thesis
      using st Some changed by (auto simp: consumeTransfer_def Let_def split: if_splits)
  next
    case None
    obtain w1 q where q: "postLocked (in_effect ?i) ''RIGHTS_TRANSFER_IN'' ?f
      (transfer_in_lines ?dst (tc_Amount c) w) w = (w1, q)" by fastforce
    have more: "\<not> tr_consumed t" "tr_inTransit t" "fitsDecimal38 (rs_rights st + tc_Amount c)"
      using changed st None
      by (auto simp: consumeTransfer_def Let_def Amount_Add_Inr split: if_splits sum.splits)
    from q show ?thesis
    proof (cases rule: postLocked_cases)
      case (new r)
      let ?w = "applyConsume m c ?h (rs_rights st + tc_Amount c) r w1"
      have "good R k ?w" if "good R k w" "length (w_journal w1) < 2 ^ 64"
        unfolding m using that(1) refl q [unfolded new(1)] new(2) that(2) st(5,6) more(2) st(1) by (rule applyConsume_good)
      then have "adv R k w ?w" using posted_journal [OF new(3)] by (simp add: adv_def)
      moreover have "fst (consumeTransfer m c w) = fst (finishConsume m ?dst r False ?w)"
        using st None more q new by (simp add: consumeTransfer_def Let_def)
      ultimately show ?thesis using finishConsume_adv adv_trans by metis
    next
      case (replay r)
      have "\<not> good R k w" using replay(3) st(5) more(1) by (fastforce simp: good_def transfers_ok_def transfer_ok_def)
      moreover have "w_journal (fst (consumeTransfer m c w)) = w_journal w"
        using st None more q replay
        by (auto simp: consumeTransfer_def Let_def finishConsume_def split: prod.splits)
      ultimately show ?thesis by (simp add: adv_def)
    next
      case (error err)
      with st None more q changed show ?thesis by (simp add: consumeTransfer_def Let_def)
    qed
  qed
qed simp

section \<open>Messages\<close>

lemma queue_ok_Send:
  assumes "Network_Send e n = (n', err)" "queue_ok (n_queue n) T"
    and "env_Kind e = Command \<Longrightarrow> carries T (env_MessageID e) (env_Payload e)"
  shows "queue_ok (n_queue n') T"
  using assms(2,3) Send_queue_subset [OF assms(1)] by (fastforce simp: queue_ok_def)

lemma queue_ok_sendAll:
  assumes "queue_ok (n_queue n) T" "\<forall>e \<in> set es. carries T (env_MessageID e) (env_Payload e)"
  shows "queue_ok (n_queue (fst (sendAll es n))) T"
  using assms
proof (induction es arbitrary: n)
  case (Cons e es)
  obtain n1 err where n1: "Network_Send e n = (n1, err)" by fastforce
  have "queue_ok (n_queue n1) T" using Cons.prems by (intro queue_ok_Send [OF n1]) auto
  with Cons.prems have "queue_ok (n_queue (fst (sendAll es n1))) T" by (intro Cons.IH) auto
  with n1 show ?case by (simp add: Let_def case_prod_unfold)
qed simp

lemma dget_dict_map: "dget (dict_map f m) k = map_option f (dget m k)"
proof -
  let ?kvs = "map (\<lambda>(k, v). (k, f v)) (entries m)"
  have "dict_map f m = fold (\<lambda>(k, v). dset k v) ?kvs m"
    by (simp add: dict_map_def fold_map comp_def case_prod_unfold)
  moreover have "map fst ?kvs = map fst (entries m)" by auto
  then have "distinct (map fst ?kvs)" by (simp only: distinct_entries)
  moreover have "map_of ?kvs k = map_option f (dget m k)" by (simp add: map_of_map DAList.lookup.rep_eq)
  ultimately show ?thesis by (simp only: dget_fold_dset) (simp split: option.splits)
qed

lemma collectPending_good: "good R k w \<Longrightarrow> good R k (fst (collectPending w))"
  by (auto simp: good_def collectPending_def outbox_ok_def dget_dict_map)

lemma DispatchOutbox_adv: "adv R k w (fst (DispatchOutbox w))"
proof (rule adv_keep)
  assume g: "good R k w"
  obtain w1 ps where c: "collectPending w = (w1, ps)" by fastforce
  have w1: "w_network w1 = w_network w" "w_transfers w1 = w_transfers w" using c by (auto simp: collectPending_def)
  have "\<forall>p \<in> set ps. carries (w_transfers w) (pe_messageID p) (pe_payload p)"
    using g c by (auto simp: good_def outbox_ok_def collectPending_def pending_def mem_entries_iff)
  then have "queue_ok (n_queue (fst (sendAll (map command_envelope (sort_key pe_messageID ps)) (w_network w1))))
      (w_transfers w1)"
    using g w1 by (intro queue_ok_sendAll) (auto simp: good_def command_envelope_def)
  then have "good R k (w1\<lparr>w_network := fst (sendAll (map command_envelope (sort_key pe_messageID ps)) (w_network w1))\<rparr>)"
    using collectPending_good [OF g] c by (intro good_network) simp_all
  then show "good R k (fst (DispatchOutbox w))"
    unfolding DispatchOutbox_def c by (simp add: case_prod_unfold Let_def)
qed (simp add: DispatchOutbox_def collectPending_def split: prod.splits)

lemma acceptTransferACK_adv: "adv R k w (fst (acceptTransferACK e w))"
proof (cases "fst (acceptTransferACK e w) = w")
  case False
  let ?m = "env_CorrelationID e"
  let ?i = "drop 9 ?m"
  from False obtain x t where x: "dget (w_outbox w) ?m = Some x" "dget (w_transfers w) ?i = Some t" "tr_consumed t"
      "fst (acceptTransferACK e w) = w\<lparr>w_outbox := dset ?m (x\<lparr>ob_Acknowledged := True\<rparr>) (w_outbox w),
         w_transfers := dset ?i (t\<lparr>tr_sourceAcknowledged := True\<rparr>) (w_transfers w)\<rparr>"
    by (auto simp: acceptTransferACK_def Let_def split: option.splits if_splits)
  let ?T = "dset ?i (t\<lparr>tr_sourceAcknowledged := True\<rparr>) (w_transfers w)"
  have kept: "certs_kept (w_transfers w) ?T" by (rule certs_kept_update [OF x(2)]) simp
  show ?thesis unfolding x(4)
  proof (rule adv_keep)
    assume g: "good R k w"
    have t: "transfer_ok (w_asset w) (w_certificateKey w) (w_inbox w) (w_effects w) ?i t"
      using g x(2) by (simp add: good_def transfers_ok_def)
    then have "transfer_ok (w_asset w) (w_certificateKey w) (w_inbox w) (w_effects w) ?i (t\<lparr>tr_sourceAcknowledged := True\<rparr>)"
      using x(3) by (simp add: transfer_ok_def)
    then have "transfers_ok (w_asset w) (w_certificateKey w) ?T (w_inbox w) (w_effects w)"
      using g by (simp add: good_def transfers_ok_def DAList.lookup_update)
    moreover have "transit_total ?T = transit_total (w_transfers w)"
      using x(2) by (simp add: transit_total_update in_transit_def)
    then have "money_ok (w_creditLimit w) (w_unallocated w) (w_authorityTotal w) (w_regions w) (w_balances w) ?T"
      using g by (simp add: good_def money_ok_def)
    moreover have "outbox_ok (w_outbox w) (w_journal w) ?T" using g by (simp add: good_def outbox_ok_kept [OF kept])
    then have "outbox_ok (dset ?m (x\<lparr>ob_Acknowledged := True\<rparr>) (w_outbox w)) (w_journal w) ?T"
      using x(1) by (simp add: outbox_ok_def DAList.lookup_update)
    ultimately show "good R k (w\<lparr>w_outbox := dset ?m (x\<lparr>ob_Acknowledged := True\<rparr>) (w_outbox w), w_transfers := ?T\<rparr>)"
      using g kept by (simp add: good_def kept_monos)
  qed simp
qed simp

lemma postLocked_frame:
  assumes "postLocked e k f ls w = (w', res)"
  shows "length (w_journal w) \<le> length (w_journal w')" "w_transfers w' = w_transfers w"
  using assms by (auto simp: posted_def elim!: postLocked_cases)

lemma finishConsume_frame [simp]:
  "w_journal (fst (finishConsume m d r dup w)) = w_journal w"
  "w_transfers (fst (finishConsume m d r dup w)) = w_transfers w"
  by (simp_all add: finishConsume_def Let_def onNetwork_def setRunning_def split: prod.splits)

lemma applyConsume_kept: "certs_kept (w_transfers w) (w_transfers (applyConsume m c h nr r w))"
  by (auto simp: applyConsume_def certs_kept_def dget_dmodify)

lemma consumeTransfer_frame:
  "length (w_journal w) \<le> length (w_journal (fst (consumeTransfer m c w)))"
  "certs_kept (w_transfers w) (w_transfers (fst (consumeTransfer m c w)))"
proof -
  obtain w1 q where q: "postLocked (in_effect (tc_TransferID c)) ''RIGHTS_TRANSFER_IN''
      (requestFingerprint [''RIGHTS_TRANSFER_IN'', tc_TransferID c, CommitProofString c])
      (transfer_in_lines (tc_DestinationRegion c) (tc_Amount c) w) w = (w1, q)" by fastforce
  have kept: "certs_kept (w_transfers w) (w_transfers (applyConsume m c h nr r w1))" for h nr r
    using applyConsume_kept [of w1] postLocked_frame(2) [OF q] by simp
  show "length (w_journal w) \<le> length (w_journal (fst (consumeTransfer m c w)))"
    using q postLocked_frame(1) [OF q]
    by (simp add: consumeTransfer_def Let_def split: option.split sum.split prod.split)
  show "certs_kept (w_transfers w) (w_transfers (fst (consumeTransfer m c w)))"
    using q postLocked_frame(2) [OF q] kept
    by (simp add: consumeTransfer_def Let_def split: option.split sum.split prod.split)
qed

lemma deliverOne_kept: "certs_kept (w_transfers w) (w_transfers (fst (deliverOne e w)))"
proof -
  have "certs_kept (w_transfers w) (w_transfers (fst (acceptTransferACK e w)))"
    by (auto simp: acceptTransferACK_def Let_def intro: certs_kept_update split: option.splits)
  moreover have "certs_kept (w_transfers w) (w_transfers w1)" if "consumeTransfer m c w = (w1, x)" for m c w1 x
    using consumeTransfer_frame(2) [of w m c] that by simp
  ultimately show ?thesis by (auto simp: deliverOne_def split: option.splits prod.splits)
qed

lemma deliverOne_adv:
  assumes "env_Kind e = Command \<Longrightarrow> carries (w_transfers w) (env_MessageID e) (env_Payload e)"
  shows "adv R k w (fst (deliverOne e w))"
proof (cases "env_Kind e = Command")
  case True
  obtain i t where t: "env_MessageID e = tmsg i" "dget (w_transfers w) i = Some t"
      "env_Payload e = marshalCertificate (tr_certificate t)"
    using assms [OF True] by (auto simp: carries_def)
  have frame: "length (w_journal w) \<le> length (w_journal (fst (deliverOne e w)))"
    using True consumeTransfer_frame(1) [of w "env_MessageID e"]
    by (simp add: deliverOne_def case_prod_unfold split: option.split)
  show ?thesis unfolding adv_def
  proof (intro conjI impI frame)
    assume g: "good R k w" and len: "length (w_journal (fst (deliverOne e w))) < 2 ^ 64"
    have ok: "transfer_ok (w_asset w) (w_certificateKey w) (w_inbox w) (w_effects w) i t"
      using g t(2) by (simp add: good_def transfers_ok_def)
    let ?c = "tr_certificate t"
    have i: "tc_TransferID ?c = i" and dec: "unmarshalCertificate (env_Payload e) = Some ?c"
      using ok t(3) unmarshal_marshal by (auto simp: transfer_ok_def)
    obtain w1 r dup err where w1: "consumeTransfer (tmsg i) ?c w = (w1, r, dup, err)" by (metis prod.collapse)
    have adv: "adv R k w w1" using consumeTransfer_adv [of "tmsg i" ?c R k w] w1 i by simp
    obtain n x where n: "Network_Send (ack_envelope (tmsg i) ?c) (w_network w1) = (n, x)" by fastforce
    have d: "fst (deliverOne e w) = (if err = None then w1\<lparr>w_network := n\<rparr> else w1)"
      using True dec t(1) w1 n by (simp add: deliverOne_def split: option.split)
    then have "good R k w1" using adv g len by (auto simp: adv_def split: if_splits)
    moreover from this have "queue_ok (n_queue n) (w_transfers w1)"
      by (intro queue_ok_Send [OF n]) (auto simp: good_def ack_envelope_def)
    ultimately show "good R k (fst (deliverOne e w))" unfolding d by (simp add: good_network)
  qed
next
  case False
  then show ?thesis
    using acceptTransferACK_adv [of R k w e] by (auto simp: deliverOne_def split: prod.splits option.splits)
qed

lemma deliverEach_adv:
  "\<forall>e \<in> set es. env_Kind e = Command \<longrightarrow> carries (w_transfers w) (env_MessageID e) (env_Payload e) \<Longrightarrow>
   adv R k w (fst (deliverEach es w))"
proof (induction es arbitrary: w)
  case (Cons e es)
  obtain w1 errs where w1: "deliverOne e w = (w1, errs)" by fastforce
  have "adv R k w w1" using deliverOne_adv [of e w R k] Cons.prems w1 by simp
  moreover have "certs_kept (w_transfers w) (w_transfers w1)" using deliverOne_kept [of w e] w1 by simp
  then have "adv R k w1 (fst (deliverEach es w1))" using Cons.prems by (intro Cons.IH) (auto intro: carries_kept)
  ultimately show ?case using w1 by (simp add: Let_def case_prod_unfold adv_trans)
qed simp

lemma deliverOne_len: "length (w_journal w) \<le> length (w_journal (fst (deliverOne e w)))"
proof -
  have "w_journal (fst (acceptTransferACK e w)) = w_journal w"
    by (simp add: acceptTransferACK_def Let_def split: option.split)
  with consumeTransfer_frame(1) [of w "env_MessageID e"] show ?thesis
    by (simp add: deliverOne_def case_prod_unfold split: option.split)
qed

lemma deliverEach_len: "length (w_journal w) \<le> length (w_journal (fst (deliverEach es w)))"
proof (induction es arbitrary: w)
  case (Cons e es)
  show ?case using deliverOne_len [of w e] Cons [of "fst (deliverOne e w)"] by (simp add: Let_def case_prod_unfold)
qed simp

lemma DeliverMessages_adv: "adv R k w (fst (DeliverMessages w))"
proof -
  obtain n es where n: "Network_Drain (w_network w) = (n, es)" by fastforce
  let ?w = "w\<lparr>w_network := n\<rparr>"
  have d: "fst (DeliverMessages w) = fst (deliverEach es ?w)" by (simp add: DeliverMessages_def n)
  show ?thesis
  proof (cases "good R k w")
    case True
    then have q: "queue_ok (n_queue (w_network w)) (w_transfers w)" by (simp add: good_def)
    have "queue_ok (n_queue n) (w_transfers w)" using q Drain_set(1) [OF n] by (auto simp: queue_ok_def)
    then have "adv R k w ?w" using True by (auto intro!: adv_keep good_network)
    moreover have "adv R k ?w (fst (deliverEach es ?w))"
      using q Drain_set(1) [OF n] by (intro deliverEach_adv) (auto simp: queue_ok_def)
    ultimately show ?thesis unfolding d by (rule adv_trans)
  next
    case False
    then show ?thesis using deliverEach_len [of ?w es] unfolding d by (simp add: adv_def)
  qed
qed

lemma PumpUntilSettled_adv: "adv R k w (fst (PumpUntilSettled rounds w))"
proof (induction rounds arbitrary: w)
  case (Suc rounds)
  let ?w = "fst (DeliverMessages (fst (DeliverMessages (fst (DispatchOutbox w)))))"
  have w: "adv R k w ?w"
    by (rule adv_trans [OF adv_trans [OF DispatchOutbox_adv DeliverMessages_adv] DeliverMessages_adv])
  show ?case using w adv_trans [OF w Suc] by (simp only: PumpUntilSettled.simps Let_def fst_conv split: if_split) simp
qed simp

end
