(* ===== verification/Sim_Preserve_Saga.thy ===== *)
theory Sim_Preserve_Saga
  imports Sim_Preserve_Transfer
begin

text \<open>
  Sagas, fraud verdicts, injected faults and the initial state keep or establish the invariant, and neither
  \<^verbatim>\<open>AdvanceSaga\<close> nor \<^verbatim>\<open>AdvanceLogicalTicks\<close> dereferences a nil pointer.
\<close>

section \<open>Sagas\<close>

lemma StartSaga_adv:
  assumes "[''PAYMENT'', i, Amount_String a] \<in> R"
  shows "adv R k w (fst (StartSaga sid region i a w))"
proof -
  have "adv R k w (w\<lparr>w_sagas := dset sid (zeroSaga\<lparr>ss_SagaID := sid, ss_Region := region, ss_OperationID := i,
      ss_Amount := a\<rparr>) (w_sagas w)\<rparr>)"
    using assms by (intro adv_keep good_saga) (auto simp: saga_ok_def zeroSaga_def)
  then show ?thesis by (auto simp: StartSaga_def Let_def split: option.splits)
qed

lemma finishPayment_frame:
  "w_effects (fst (finishPayment fence key i a nr na f r w)) = w_effects w"
  "w_sagas (fst (finishPayment fence key i a nr na f r w)) = w_sagas w"
  by (simp_all add: finishPayment_def Let_def recordIdempotency_def addOutboxLocked_def setRights_def onNetwork_def
      setRunning_def split: prod.splits)

lemma postLocked_effect:
  assumes "postLocked e k f ls w = (w', res)"
  shows "w_sagas w' = w_sagas w" "res = Inr r \<Longrightarrow> dget (w_effects w') e \<noteq> None"
  using assms by (auto simp: posted_def elim!: postLocked_cases)

lemma first_error_Some: "first_error f xs = Some e \<Longrightarrow> \<exists>x \<in> set xs. f x = Some e"
  by (induction xs) (auto split: option.splits)

lemma post_lines_error: "post_lines b ls P Q = Inl e \<Longrightarrow> \<exists>x. e = ErrLedger x"
  by (induction b ls P Q rule: post_lines.induct) (auto simp: Let_def split: if_splits sum.splits)

lemma postLocked_error:
  assumes "postLocked e k f ls w = (w', Inl err)"
  shows "err = ErrEffectConflict \<or> (\<exists>x. err = ErrLedger x)"
  using assms
  by (auto simp: postLocked_def Let_def unbalanced_asset_def dest!: post_lines_error first_error_Some
      split: if_splits option.splits sum.splits)

text \<open>The results with which a payment returns after it has committed.\<close>

definition committed :: "world_error option \<Rightarrow> bool" where
  "committed err \<longleftrightarrow> (case err of None \<Rightarrow> True | Some e \<Rightarrow> committedDespiteResponseError e)"

lemma committed_simps [simp]:
  "committed None" "committed (Some ErrResponseLost)" "committed (Some ErrCrashAfterCommit)"
  "\<not> committed (Some (ErrLedger x))" "\<not> committed (Some ErrEffectConflict)" "\<not> committed (Some ErrRegionDown)"
  "\<not> committed (Some ErrNoQuorum)" "\<not> committed (Some ErrStaleEpoch)" "\<not> committed (Some ErrInsufficientFunds)"
  "\<not> committed (Some ErrInsufficientRights)" "\<not> committed (Some ErrIdempotencyConflict)"
  "\<not> committed (Some ErrCrashBeforeCommit)"
  by (simp_all add: committed_def committedDespiteResponseError_def)

lemma commitPayment_frame:
  assumes c: "commitPayment fence key i a st f w = (w', r, err)"
  shows "w_sagas w' = w_sagas w" "committed err \<Longrightarrow> dget (w_effects w') (pay_effect i) \<noteq> None"
proof -
  obtain w1 q where q: "postLocked (pay_effect i) ''PAYMENT_CAPTURE'' f (payment_lines (fence_Region fence) a w) w = (w1, q)"
    by fastforce
  have fp: "w_effects w' = w_effects w1" "w_sagas w' = w_sagas w1"
    if "finishPayment fence key i a nr na f x w1 = (w', r, err)" for nr na x
    using finishPayment_frame [of fence key i a nr na f x w1] that by simp_all
  have cases: "w' = w \<and> \<not> committed err \<or> (\<exists>e. q = Inl e \<and> w' = w1 \<and> err = Some e)
      \<or> (\<exists>x. q = Inr x \<and> w_effects w' = w_effects w1 \<and> w_sagas w' = w_sagas w1)"
    using c q fp by (auto simp: commitPayment_def fail_def split: sum.splits if_splits)
  then show "w_sagas w' = w_sagas w" using postLocked_effect(1) [OF q] by auto
  show "dget (w_effects w') (pay_effect i) \<noteq> None" if "committed err"
    using cases that q postLocked_effect(2) [OF q] postLocked_error by fastforce
qed

lemma PayWithFence_frame:
  assumes pay: "PayWithFence fence key i a w = (w', r, err)"
  shows "w_sagas w' = w_sagas w"
    and "idem_ok R (w_idempotency w) (w_effects w) \<Longrightarrow> inj_on requestFingerprint R \<Longrightarrow>
      [''PAYMENT'', i, Amount_String a] \<in> R \<Longrightarrow> committed err \<Longrightarrow> dget (w_effects w') (pay_effect i) \<noteq> None"
proof -
  let ?parts = "[''PAYMENT'', i, Amount_String a]"
  let ?f = "requestFingerprint ?parts"
  consider (failed) "w' = w" "\<not> committed err"
    | (known) x where "dget (w_idempotency w) key = Some x" "id_requestHash x = ?f" "w_sagas w' = w_sagas w"
        "w_effects w' = w_effects w"
    | (replayed) "replayEffectLocked (pay_effect i) ?f key w = Some (w', r, err)"
    | (crashed) "w_sagas w' = w_sagas w" "err = Some ErrCrashBeforeCommit"
    | (commit) st c where "commitPayment fence key i a st ?f (w\<lparr>w_crashBeforeCommit := c\<rparr>) = (w', r, err)"
    using pay by (auto simp: PayWithFence_def Let_def fail_def requireWriterLocked_def onNetwork_def setRunning_def
        split: sum.splits option.splits if_splits prod.splits)
  note cases = this
  from cases show "w_sagas w' = w_sagas w"
  proof cases
    case replayed
    then show ?thesis
      by (auto simp: replayEffectLocked_def Let_def recordIdempotency_def split: option.splits if_splits)
  qed (use commitPayment_frame(1) in force)+
  assume idem: "idem_ok R (w_idempotency w) (w_effects w)" and inj: "inj_on requestFingerprint R" and R: "?parts \<in> R"
    and c: "committed err"
  from cases show "dget (w_effects w') (pay_effect i) \<noteq> None"
  proof cases
    case (known x)
    then obtain ps where "ps \<in> R" "?f = requestFingerprint ps" "rc_EffectID (id_receipt x) = effect_of ps"
        "dget (w_effects w) (rc_EffectID (id_receipt x)) \<noteq> None"
      using idem by (fastforce simp: idem_ok_def matches_effect_def)
    moreover from this have "ps = ?parts" using inj R by (metis inj_onD)
    ultimately show ?thesis using known(4) by (simp add: effect_of_def)
  next
    case replayed
    with c show ?thesis
      by (auto simp: replayEffectLocked_def Let_def split: option.splits if_splits)
  qed (use c commitPayment_frame(2) in force)+
qed

lemma Pay_frame:
  assumes "Pay region key i a w = (w', r, err)"
  shows "w_sagas w' = w_sagas w"
    and "idem_ok R (w_idempotency w) (w_effects w) \<Longrightarrow> inj_on requestFingerprint R \<Longrightarrow>
      [''PAYMENT'', i, Amount_String a] \<in> R \<Longrightarrow> committed err \<Longrightarrow> dget (w_effects w') (pay_effect i) \<noteq> None"
proof -
  consider (down) "w' = w" "err = Some ErrRegionDown" | (fence) f where "PayWithFence f key i a w = (w', r, err)"
    using assms by (auto simp: Pay_def fail_def World_Fence_def split: sum.splits option.splits if_splits)
  note cases = this
  from cases show "w_sagas w' = w_sagas w" by cases (auto dest: PayWithFence_frame(1))
  from cases show "dget (w_effects w') (pay_effect i) \<noteq> None"
    if "idem_ok R (w_idempotency w) (w_effects w)" "inj_on requestFingerprint R" "[''PAYMENT'', i, Amount_String a] \<in> R"
      "committed err"
    by cases (use that in \<open>auto dest!: PayWithFence_frame(2) [OF _ that(1-3)]\<close>)
qed

lemma saveSagaPayment_good:
  assumes g: "good R k w" and s: "dget (w_sagas w) sid = Some s" "ss_NextStep s = 0"
    and e: "dget (w_effects w) (pay_effect (ss_OperationID s)) \<noteq> None"
    and save: "saveSagaPayment sid snapshot r w = Some (w', x)"
  shows "good R k w'"
proof -
  have "saga_ok R (w_effects w) s" using g s by (simp add: good_def sagas_ok_def)
  then have "saga_ok R (w_effects w) (s\<lparr>ss_PaymentReceipt := r, ss_NextStep := 1\<rparr>)"
    using e s(2) by (auto simp: saga_ok_def)
  with save s g show ?thesis
    by (auto simp: saveSagaPayment_def Let_def good_saga split: prod.splits bool.splits)
qed

lemma saveSagaPayment_total:
  assumes "dget (w_sagas w) sid \<noteq> None"
  obtains w' x where "saveSagaPayment sid snapshot r w = Some (w', x)" "w_journal w' = w_journal w"
proof (cases "consumeCounter (w_coordinatorCrashAfter w) sid")
  case (Pair crash counters)
  then show thesis using assms that by (cases crash) (auto simp: saveSagaPayment_def Let_def)
qed

text \<open>\<^verbatim>\<open>AdvanceSaga\<close> does not panic.\<close>

lemma AdvanceSaga_adv:
  assumes inj: "inj_on requestFingerprint R"
  obtains w' x where "AdvanceSaga sid w = Some (w', x)" "adv R k w w'"
proof (cases "w_coordinatorRunning w")
  case run: True
  show thesis
  proof (cases "dget (w_sagas w) sid")
    case (Some s)
    have ok: "saga_ok R (w_effects w) s" if "good R k w" using that Some by (simp add: good_def sagas_ok_def)
    consider (zero) "ss_NextStep s = 0" | (one) "ss_NextStep s = 1" | (other) "ss_NextStep s \<noteq> 0" "ss_NextStep s \<noteq> 1"
      by blast
    then show thesis
    proof cases
      case zero
      let ?i = "ss_OperationID s" and ?a = "ss_Amount s"
      obtain w1 r err where pay: "Pay (ss_Region s) (saga_key sid) ?i ?a w = (w1, r, err)" by (metis prod.collapse)
      have s1: "dget (w_sagas w1) sid = Some s" using Pay_frame(1) [OF pay] Some by simp
      obtain w2 x where save: "saveSagaPayment sid s r w1 = Some (w2, x)" "w_journal w2 = w_journal w1"
        using saveSagaPayment_total [of w1 sid s r] s1 by auto
      have len: "length (w_journal w) \<le> length (w_journal w1)"
        using Pay_adv [of ?i ?a "{[''PAYMENT'', ?i, Amount_String ?a]}" k w "ss_Region s" "saga_key sid"] pay
        by (simp add: adv_def)
      have g1: "good R k w1" if "good R k w" "length (w_journal w1) < 2 ^ 64"
        using ok [OF that(1)] Pay_adv [of ?i ?a R k w "ss_Region s" "saga_key sid"] pay that
        by (simp add: saga_ok_def adv_def)
      have "good R k w2" if "committed err" "good R k w" "length (w_journal w1) < 2 ^ 64"
        using ok [OF that(2)] that Pay_frame(2) [OF pay _ inj]
        by (intro saveSagaPayment_good [OF g1 [OF that(2,3)] s1 zero _ save(1)]) (auto simp: good_def saga_ok_def)
      then have "adv R k w w2" if "committed err" using that len save(2) by (simp add: adv_def)
      moreover have "adv R k w w1" using len g1 by (simp add: adv_def)
      moreover have "AdvanceSaga sid w = (if committed err then Some (w2, x) else Some (w1, s, err))"
        using run Some zero pay save(1) by (auto simp: AdvanceSaga_def committed_def split: option.splits)
      ultimately show thesis by (cases "committed err") (auto intro: that)
    next
      case one
      let ?s = "s\<lparr>ss_NextStep := 2, ss_Completed := True\<rparr>"
      have "saga_ok R (w_effects w) ?s" if "good R k w" using ok [OF that] one by (auto simp: saga_ok_def)
      then have "adv R k w (w\<lparr>w_sagas := dset sid ?s (w_sagas w)\<rparr>)" by (auto intro!: adv_keep good_saga)
      with run Some one show thesis by (intro that) (auto simp: AdvanceSaga_def Let_def)
    next
      case other
      with run Some show thesis by (intro that) (auto simp: AdvanceSaga_def)
    qed
  qed (use run in \<open>auto intro: that simp: AdvanceSaga_def\<close>)
qed (auto intro: that simp: AdvanceSaga_def)

section \<open>Fraud verdicts\<close>

definition homed :: "World \<Rightarrow> bool" where
  "homed w \<longleftrightarrow> (\<forall>i p. dget (w_payments w) i = Some p \<longrightarrow> dget (w_regions w) (pm_region p) \<noteq> None)"

lemma good_homed: "good R k w \<Longrightarrow> homed w"
  by (auto simp: good_def homed_def payments_ok_def payment_ok_def)

lemma ScheduleFraudVerdict_adv: "adv R k w (fst (ScheduleFraudVerdict e i b d w))"
  by (auto simp: ScheduleFraudVerdict_def intro: adv_keep split: option.splits)

lemma markProcessed_frame [simp]:
  "good R k (markProcessed e w) = good R k w" "w_journal (markProcessed e w) = w_journal w"
  "homed (markProcessed e w) = homed w"
  "dget (w_fraudVerdicts (markProcessed e w)) j = None \<longleftrightarrow> dget (w_fraudVerdicts w) j = None"
  by (auto simp: markProcessed_def homed_def dget_dmodify)

lemma applyReversal_frame [simp]:
  "w_journal (applyReversal e i region a nr na r w) = w_journal w"
  "w_fraudVerdicts (applyReversal e i region a nr na r w) = w_fraudVerdicts w"
  by (simp_all add: applyReversal_def addOutboxLocked_def setRights_def)

lemma applyReversal_homed: "homed w \<Longrightarrow> homed (applyReversal e i region a nr na r w)"
  by (auto simp: homed_def applyReversal_def addOutboxLocked_def setRights_def addChargeback_def dget_dmodify split: if_splits)

lemma applyReversal_good:
  assumes g: "good R k ((setRights region nr w)\<lparr>w_authorityTotal := na\<rparr>)"
    and p: "dget (w_payments w) i = Some p" "payment_ok (w_regions (setRights region nr w)) (w_effects w) i (addChargeback a p)"
    and r: "rc_TransactionID r \<in> journal_ids (w_journal w)"
  shows "good R k (applyReversal e i region a nr na r w)"
proof -
  let ?c = "(setRights region nr w)\<lparr>w_authorityTotal := na\<rparr>"
  have "good R k (?c\<lparr>w_payments := dset i (addChargeback a p) (w_payments ?c)\<rparr>)"
    using p(2) by (intro good_payment [OF g]) simp
  then show ?thesis
    unfolding applyReversal_def using r p(1) by (intro good_outbox) (simp_all add: dmodify_Some setRights_def)
qed

lemma amountSum_payment:
  assumes "payment_ok G E i p"
  shows "amountSum [pm_refunded p, pm_reversed p, pm_chargedBack p] = Inr (pm_refunded p + pm_reversed p + pm_chargedBack p)"
proof -
  let ?vs = "[pm_refunded p, pm_reversed p, pm_chargedBack p]"
  have n: "fitsDecimal38 (pm_captured p)" "0 \<le> pm_refunded p" "0 \<le> pm_reversed p" "0 \<le> pm_chargedBack p"
    "pm_refunded p + pm_reversed p + pm_chargedBack p \<le> pm_captured p"
    using assms by (simp_all add: payment_ok_def)
  have "fitsDecimal38 (sum_list ?vs)" by (rule fits_mono [OF n(1)]) (use n in simp)
  then have "amountSum ?vs = Inr (sum_list ?vs)" using n by (intro amountSum_fits) simp_all
  then show ?thesis by (simp add: add.assoc)
qed

text \<open>What one round of the loop relies on and keeps, beside the invariant.\<close>

definition verdict_frame :: "World \<Rightarrow> World \<Rightarrow> bool" where
  "verdict_frame w w' \<longleftrightarrow> homed w'
     \<and> (\<forall>j. dget (w_fraudVerdicts w') j = None \<longleftrightarrow> dget (w_fraudVerdicts w) j = None)"

lemma postLocked_homed:
  "postLocked e k f ls w = (w', res) \<Longrightarrow> homed w' = homed w"
  "postLocked e k f ls w = (w', res) \<Longrightarrow> w_fraudVerdicts w' = w_fraudVerdicts w"
  "postLocked e k f ls w = (w', res) \<Longrightarrow> w_payments w' = w_payments w"
  "postLocked e k f ls w = (w', res) \<Longrightarrow> w_regions w' = w_regions w"
  by (auto simp: posted_def homed_def elim!: postLocked_cases)

lemma reversal_adv:
  assumes post: "postLocked (''fraud-reversal:'' @ e) kd f (release_lines (pm_region p) a w) w = (w1, Inr r)"
      "dget (w_effects w) (''fraud-reversal:'' @ e) = None"
    and p: "dget (w_payments w) i = Some p" and st: "dget (w_regions w) (pm_region p) = Some st" and a: "0 < a"
    and sum: "good R k w \<Longrightarrow> pm_refunded p + pm_reversed p + pm_chargedBack p + a \<le> pm_captured p"
    and fits: "fitsDecimal38 (w_authorityTotal w + a)"
  shows "adv R k w (applyReversal e i (pm_region p) a (rs_rights st + a) (w_authorityTotal w + a) r w1)"
proof -
  let ?reg = "pm_region p" and ?nr = "rs_rights st + a" and ?na = "w_authorityTotal w + a"
  have new: "posted (''fraud-reversal:'' @ e) f (release_lines ?reg a w) r w w1" by (rule postLocked_posted [OF post])
  have "good R k (applyReversal e i ?reg a ?nr ?na r w1)" if g: "good R k w" and len: "length (w_journal w1) < 2 ^ 64"
  proof -
    have "0 \<le> rs_rights st" using g st by (auto simp: good_def money_ok_def)
    then have c: "good R k ((setRights ?reg ?nr w1)\<lparr>w_authorityTotal := ?na\<rparr>)"
      using g post len st a fits moves_lines(3) by (intro good_commit) auto
    then have "payment_ok (w_regions (setRights ?reg ?nr w1)) (w_effects w1) i p"
      using p postLocked_homed(3) [OF post(1)] by (simp add: good_def payments_ok_def setRights_def)
    then show ?thesis
      using p postLocked_homed(3) [OF post(1)] a sum [OF g] posted_receipted [OF new]
      by (intro applyReversal_good [OF c]) (auto intro!: payment_ok_release simp: receipted_def)
  qed
  then show ?thesis by (simp add: adv_def posted_journal [OF new])
qed

lemma processVerdict_adv:
  assumes h: "homed w" and v: "dget (w_fraudVerdicts w) e \<noteq> None"
  obtains w' errs where "processVerdict e w = Some (w', errs)" "adv R k w w'" "verdict_frame w w'"
proof -
  obtain v where v: "dget (w_fraudVerdicts w) e = Some v" using assms(2) by blast
  let ?i = "fv_PaymentID v" and ?mark = "markProcessed e"
  have stay: "adv R k w w" "adv R k w (?mark w)" "verdict_frame w w" "verdict_frame w (?mark w)"
    using h by (auto simp: verdict_frame_def intro: adv_keep)
  have quiet: thesis if "(\<exists>errs. processVerdict e w = Some (w, errs)) \<or> (\<exists>errs. processVerdict e w = Some (?mark w, errs))"
    using that stay \<open>\<And>w' errs. processVerdict e w = Some (w', errs) \<Longrightarrow> adv R k w w' \<Longrightarrow> verdict_frame w w' \<Longrightarrow> thesis\<close>
    by blast
  show thesis
  proof (cases "fv_Fraudulent v \<and> hasQuorumLocked w \<and> dget (w_payments w) ?i \<noteq> None")
    case False
    then show thesis using v by (intro quiet) (auto simp: processVerdict_def)
  next
    case True
    then obtain p where p: "dget (w_payments w) ?i = Some p" by blast
    obtain st where st: "dget (w_regions w) (pm_region p) = Some st" using h p by (auto simp: homed_def)
    define released where "released =
      (case amountSum [pm_refunded p, pm_reversed p, pm_chargedBack p] of Inl e \<Rightarrow> 0 | Inr r \<Rightarrow> r)"
    let ?a = "pm_captured p - released"
    let ?f = "requestFingerprint [''LATE_FRAUD_REVERSAL'', e, pm_operationID p, Amount_String ?a]"
    have rel: "released = pm_refunded p + pm_reversed p + pm_chargedBack p" if "good R k w"
    proof -
      have "payment_ok (w_regions w) (w_effects w) ?i p" using that p by (simp add: good_def payments_ok_def)
      from amountSum_payment [OF this] show ?thesis by (simp add: released_def)
    qed
    obtain w1 q where q: "postLocked (''fraud-reversal:'' @ e) ''LATE_FRAUD_REVERSAL'' ?f
      (release_lines (pm_region p) ?a w) w = (w1, q)" by fastforce
    show thesis
    proof (cases "fitsDecimal38 ?a \<and> 0 < ?a \<and> fitsDecimal38 (rs_rights st + ?a) \<and> fitsDecimal38 (w_authorityTotal w + ?a)")
      case False
      then show thesis using v True p st
        by (intro quiet) (auto simp: processVerdict_def released_def [symmetric] Let_def Amount_Sub_def Amount_Add_def)
    next
      case fits: True
      have pv: "processVerdict e w = (case q of Inl x \<Rightarrow> Some (w1, [x])
          | Inr r \<Rightarrow> Some (?mark (if rc_Duplicate r then w1
              else applyReversal e ?i (pm_region p) ?a (rs_rights st + ?a) (w_authorityTotal w + ?a) r w1), []))"
        using v True p st fits q
        by (simp add: processVerdict_def released_def [symmetric] Let_def split: sum.split)
      from q show thesis
      proof (cases rule: postLocked_cases)
        case (new r)
        let ?w = "applyReversal e ?i (pm_region p) ?a (rs_rights st + ?a) (w_authorityTotal w + ?a) r w1"
        have "adv R k w ?w"
          using q [unfolded new(1)] new(2) p st conjunct1 [OF conjunct2 [OF fits]] _
            conjunct2 [OF conjunct2 [OF conjunct2 [OF fits]]]
          by (rule reversal_adv) (use rel in simp)
        moreover have "adv R k ?w (?mark ?w)" by (intro adv_keep) simp_all
        ultimately have "adv R k w (?mark ?w)" by (rule adv_trans)
        moreover have "verdict_frame w (?mark ?w)"
          using h postLocked_homed [OF q] by (simp add: verdict_frame_def applyReversal_homed)
        moreover have "\<not> rc_Duplicate r" using posted_receipted [OF new(3)] by (simp add: receipted_def)
        ultimately show thesis using pv new(1) by (intro that) auto
      qed (use pv in \<open>auto intro!: quiet\<close>)
    qed
  qed
qed

lemma verdict_frame_trans: "verdict_frame w w' \<Longrightarrow> verdict_frame w' w'' \<Longrightarrow> verdict_frame w w''"
  by (simp add: verdict_frame_def)

lemma processVerdicts_adv:
  "homed w \<Longrightarrow> \<forall>e \<in> set es. dget (w_fraudVerdicts w) e \<noteq> None \<Longrightarrow>
   \<exists>w' errs. processVerdicts es w = Some (w', errs) \<and> adv R k w w' \<and> verdict_frame w w'"
proof (induction es arbitrary: w)
  case (Cons e es)
  obtain w1 errs where w1: "processVerdict e w = Some (w1, errs)" "adv R k w w1" "verdict_frame w w1"
    by (rule processVerdict_adv [of w e]) (use Cons.prems in auto)
  have "homed w1" "\<forall>e \<in> set es. dget (w_fraudVerdicts w1) e \<noteq> None"
    using w1(3) Cons.prems(2) unfolding verdict_frame_def by auto
  from Cons.IH [OF this] obtain w2 rest where
    w2: "processVerdicts es w1 = Some (w2, rest)" "adv R k w1 w2" "verdict_frame w1 w2" by blast
  show ?case
    using w1(1) w2(1) adv_trans [OF w1(2) w2(2)] verdict_frame_trans [OF w1(3) w2(3)] by simp
qed (simp add: verdict_frame_def)

text \<open>\<^verbatim>\<open>AdvanceLogicalTicks\<close> does not panic.\<close>

lemma AdvanceLogicalTicks_adv:
  assumes "homed w"
  obtains w' errs where "AdvanceLogicalTicks ticks w = Some (w', errs)" "adv R k w w'" "homed w'"
proof -
  define due where "due = map fst (filter (\<lambda>(_, v). \<not> fv_Processed v \<and> fv_DueTick v \<le> w_logicalTick w + ticks)
      (entries (w_fraudVerdicts w)))"
  let ?w = "w\<lparr>w_logicalTick := w_logicalTick w + ticks\<rparr>"
  have "\<forall>e \<in> set (sortStrings due). dget (w_fraudVerdicts ?w) e \<noteq> None"
    by (auto simp: sortStrings_sort due_def mem_entries_iff)
  moreover have "homed ?w" using assms by (simp add: homed_def)
  ultimately obtain w' errs where w': "processVerdicts (sortStrings due) ?w = Some (w', errs)" "adv R k ?w w'"
      "verdict_frame ?w w'"
    using processVerdicts_adv by blast
  have "adv R k w ?w" by (rule adv_keep) simp_all
  then have "adv R k w w'" using w'(2) by (rule adv_trans)
  moreover have "AdvanceLogicalTicks ticks w = Some (w', errs)"
    using w'(1) by (simp add: AdvanceLogicalTicks_def Let_def due_def)
  moreover have "homed w'" using w'(3) unfolding verdict_frame_def by blast
  ultimately show thesis by (intro that)
qed

end
