(* ===== verification/Sim_Run.thy ===== *)
theory Sim_Run
  imports Sim_Preserve_Saga
begin

text \<open>
  Runs of the simulator: the initial state satisfies the invariant, a step executes one operation or injects
  one fault, and the auditor \<^verbatim>\<open>AssertAllFinancialInvariants\<close> accepts every state a run can reach.
\<close>

section \<open>The initial state\<close>

definition valid_config :: "Config \<Rightarrow> bool" where
  "valid_config config \<longleftrightarrow> valid_utf8 (cfg_Asset config)
     \<and> list_all (\<lambda>(name, _). valid_utf8 name) (entries (cfg_RegionalRights config))"

lemma init_regions_Cons:
  assumes "init_regions ((name, a) # rest) acc G = Inr x"
  shows "name \<noteq> []" "0 \<le> a"
    "init_regions rest (acc + a) (dset name \<lparr>rs_epoch = 1, rs_running = True, rs_rights = a\<rparr> G) = Inr x"
  using assms by (auto simp: Amount_Add_Inr split: if_splits sum.splits)

lemma init_regions_total:
  assumes "init_regions kvs acc G = Inr (tot, G')" "distinct (map fst kvs)"
    and "\<forall>n \<in> fst ` set kvs. \<forall>r. dget G n = Some r \<longrightarrow> rs_rights r = 0"
  shows "tot - rights_total G' = acc - rights_total G"
  using assms
proof (induction kvs arbitrary: acc G)
  case (Cons kv kvs)
  obtain name a where kv: "kv = (name, a)" by (cases kv)
  let ?G = "dset name \<lparr>rs_epoch = 1, rs_running = True, rs_rights = a\<rparr> G"
  have "tot - rights_total G' = acc + a - rights_total ?G"
    using Cons.prems by (intro Cons.IH [OF init_regions_Cons(3)]) (auto simp: kv DAList.lookup_update)
  moreover have "rights_total ?G = rights_total G + a"
    using Cons.prems(3) by (cases "dget G name") (auto simp: kv rights_total_def dict_sum_dset)
  ultimately show ?case by simp
qed simp

lemma init_regions_all:
  assumes "init_regions kvs acc G = Inr (tot, G')" "\<forall>n r. dget G n = Some r \<longrightarrow> P n r"
    and "\<forall>(n, a) \<in> set kvs. n \<noteq> [] \<longrightarrow> 0 \<le> a \<longrightarrow> P n \<lparr>rs_epoch = 1, rs_running = True, rs_rights = a\<rparr>"
  shows "\<forall>n r. dget G' n = Some r \<longrightarrow> P n r"
  using assms
proof (induction kvs arbitrary: acc G)
  case (Cons kv kvs)
  obtain name a where kv: "kv = (name, a)" by (cases kv)
  show ?case
    using Cons.prems init_regions_Cons(1,2) [OF Cons.prems(1) [unfolded kv]]
    by (intro Cons.IH [OF init_regions_Cons(3) [OF Cons.prems(1) [unfolded kv]]]) (auto simp: kv DAList.lookup_update)
qed simp

text \<open>The balances after the genesis posting.\<close>

lemma lines_delta_append [simp]: "lines_delta (xs @ ys) a = lines_delta xs a + lines_delta ys a"
  by (simp add: lines_delta_def)

lemma delta_regions:
  assumes "\<forall>m r. dget G m = Some r \<longrightarrow> 0 \<le> rs_rights r"
  shows "lines_delta (concat (map (\<lambda>name. case dget G name of None \<Rightarrow> [] | Some r \<Rightarrow>
      if 0 < Amount_Sign (rs_rights r) then [mk_line (RegionalAuthorityAccount name) asset Credit (rs_rights r)] else [])
      names)) acc =
    sum_list (map (\<lambda>name. if RegionalAuthorityAccount name = acc
      then (case dget G name of None \<Rightarrow> 0 | Some r \<Rightarrow> rs_rights r) else 0) names)"
proof (induction names)
  case (Cons n names)
  with assms show ?case by (cases "dget G n") (auto simp: not_less dual_order.antisym)
qed simp

lemma sum_list_single:
  "distinct xs \<Longrightarrow> sum_list (map (\<lambda>x. if x = n then f x else (0::int)) xs) = (if n \<in> set xs then f n else 0)"
  by (induction xs) auto

lemma set_sortedRegionNames: "n \<in> set (sortedRegionNames G) \<longleftrightarrow> dget G n \<noteq> None"
  by (simp add: sortedRegionNames_def DAList.lookup.rep_eq map_of_eq_None_iff del: not_None_eq)

lemma rights_zero:
  assumes "\<forall>n r. dget G n = Some r \<longrightarrow> 0 \<le> rs_rights r" "rights_total G \<le> 0" "dget G n = Some r"
  shows "rs_rights r = 0"
proof -
  have "rs_rights r \<le> rights_total G"
    using assms(1,3) unfolding rights_total_def dict_sum_def
    by (intro member_le_sum_list) (auto simp: mem_entries_iff image_iff intro!: bexI [of _ "(n, r)"])
  with assms show ?thesis by force
qed

lemma genesis_delta:
  assumes nn: "0 \<le> initial" "0 \<le> u" "\<forall>n r. dget G n = Some r \<longrightarrow> 0 \<le> rs_rights r"
    and sum: "u + rights_total G = authority"
  shows "lines_delta (genesis_lines asset initial authority u G) UserAccount = initial"
    "lines_delta (genesis_lines asset initial authority u G) AuthorityTransitAccount = 0"
    "lines_delta (genesis_lines asset initial authority u G) AuthorityUnallocatedAccount = u"
    "dget G n = Some r \<Longrightarrow> lines_delta (genesis_lines asset initial authority u G) (RegionalAuthorityAccount n) = rs_rights r"
proof -
  have rn: "0 \<le> rights_total G"
    using nn(3) unfolding rights_total_def dict_sum_def by (intro sum_list_nonneg) (auto simp: mem_entries_iff)
  note simps = genesis_lines_def Let_def delta_regions [OF nn(3)] account_defs
  show "lines_delta (genesis_lines asset initial authority u G) UserAccount = initial"
    using nn by (auto simp: simps)
  show "lines_delta (genesis_lines asset initial authority u G) AuthorityTransitAccount = 0"
    by (auto simp: simps)
  show "lines_delta (genesis_lines asset initial authority u G) AuthorityUnallocatedAccount = u"
    using nn(2) sum rn by (auto simp: simps)
  assume n: "dget G n = Some r"
  have "distinct (sortedRegionNames G)" by (simp add: sortedRegionNames_def)
  moreover have "n \<in> set (sortedRegionNames G)" using n by (simp add: set_sortedRegionNames)
  ultimately have "sum_list (map (\<lambda>m. if m = n then (case dget G m of None \<Rightarrow> 0 | Some r \<Rightarrow> rs_rights r) else 0)
      (sortedRegionNames G)) = rs_rights r"
    using n by (simp add: sum_list_single)
  then show "lines_delta (genesis_lines asset initial authority u G) (RegionalAuthorityAccount n) = rs_rights r"
    using rights_zero [OF nn(3) _ n] nn(2) sum by (auto simp: genesis_lines_def Let_def delta_regions [OF nn(3)])
      (auto simp: account_defs)
qed

lemma default_regions_facts:
  "dget default_regions n = Some r \<Longrightarrow> n \<noteq> [] \<and> valid_utf8 n \<and> rs_epoch r = 1 \<and> rs_rights r = 0"
  "rights_total default_regions = 0"
proof -
  show "dget default_regions n = Some r \<Longrightarrow> n \<noteq> [] \<and> valid_utf8 n \<and> rs_epoch r = 1 \<and> rs_rights r = 0"
    by (auto simp: default_regions_def DAList.lookup_update valid_utf8_all_ascii split: if_splits)
  show "rights_total default_regions = 0"
    by (simp add: default_regions_def rights_total_def dict_sum_dset DAList.lookup_update)
qed

lemma journal_ok_empty: "journal_ok [] dempty 0 zero_hash dempty"
  by (simp add: journal_ok_def audited_def audit_start_def journal_ids_def)

lemma good_start:
  assumes w: "w = (empty_world config seed authority G)\<lparr>w_balances := b, w_sequence := s, w_headHash := h,
      w_journal := j, w_effects := E\<rparr>"
    and j: "journal_ok j b s h E" "\<And>i. dget E (out_effect i) = None \<and> dget E (in_effect i) = None"
    and c: "valid_utf8 (cfg_Asset config)" "0 \<le> cfg_Unallocated config" "fitsDecimal38 authority"
    and G: "\<forall>n r. dget G n = Some r \<longrightarrow> n \<noteq> [] \<and> valid_utf8 n \<and> rs_epoch r = 1 \<and> 0 \<le> rs_rights r"
    and sum: "cfg_Unallocated config + rights_total G = authority"
    and bal: "dget_or 0 b UserAccount + cfg_CreditLimit config = authority" "dget_or 0 b AuthorityTransitAccount = 0"
      "dget_or 0 b AuthorityUnallocatedAccount = cfg_Unallocated config"
      "\<And>n r. dget G n = Some r \<Longrightarrow> dget_or 0 b (RegionalAuthorityAccount n) = rs_rights r"
  shows "good R 1 w"
  unfolding good_def
proof (intro conjI)
  show "money_ok (w_creditLimit w) (w_unallocated w) (w_authorityTotal w) (w_regions w) (w_balances w) (w_transfers w)"
    using c G sum bal by (auto simp: w empty_world_def money_ok_def transit_total_def)
  show "regions_ok 1 (w_regions w)" using G by (simp add: w empty_world_def regions_ok_def)
qed (use j c in \<open>simp_all add: w empty_world_def transfers_ok_def payments_ok_def cashback_ok_def outbox_ok_def
    inbox_ok_def idem_ok_def sagas_ok_def queue_ok_def NewNetwork_def\<close>)

lemma NewWorld_good:
  assumes new: "NewWorld config seed = Inr w" and valid: "valid_config config"
  shows "good R 1 w"
proof -
  let ?i = "cfg_InitialBalance config" and ?u = "cfg_Unallocated config" and ?c = "cfg_CreditLimit config"
  let ?a = "?i + ?c"
  from new obtain rt G where G: "init_regions (entries (cfg_RegionalRights config)) ?u default_regions = Inr (rt, G)"
      "rt = ?a" and nn: "0 \<le> ?i" "0 \<le> ?u" and fits: "fitsDecimal38 ?a"
    by (auto simp: NewWorld_def Amount_Add_Inr split: if_splits sum.splits)
  let ?w = "empty_world config seed ?a G" and ?ls = "genesis_lines (cfg_Asset config) ?i ?a ?u G"
  let ?f = "requestFingerprint [''GENESIS'', cfg_Asset config, Amount_String ?i, Amount_String ?c]"
  have all: "\<forall>n r. dget G n = Some r \<longrightarrow> n \<noteq> [] \<and> valid_utf8 n \<and> rs_epoch r = 1 \<and> 0 \<le> rs_rights r"
    using valid default_regions_facts(1)
    by (intro init_regions_all [OF G(1)]) (auto simp: valid_config_def list_all_iff)
  have "rt - rights_total G = ?u - rights_total default_regions"
    using default_regions_facts(1) by (intro init_regions_total [OF G(1) distinct_entries]) blast
  then have sum: "?u + rights_total G = ?a" using G(2) default_regions_facts(2) by simp
  have g0: "\<forall>n r. dget G n = Some r \<longrightarrow> 0 \<le> rs_rights r" using all by blast
  note delta = genesis_delta [OF nn g0 sum, where asset = "cfg_Asset config"]
  have asset: "valid_utf8 (cfg_Asset config)" using valid by (simp add: valid_config_def)
  show ?thesis
  proof (cases "?ls = []")
    case True
    then have w: "w = ?w" using new G fits by (auto simp: NewWorld_def Amount_Add_Inr Let_def split: if_splits)
    have "?i = 0" "?u = 0" "\<And>n r. dget G n = Some r \<Longrightarrow> rs_rights r = 0"
      using delta True by auto
    with w sum nn all fits asset show ?thesis
      by (intro good_start [where G = G and b = dempty and s = 0 and h = zero_hash and j = "[]" and E = dempty])
        (auto simp: journal_ok_empty empty_world_def)
  next
    case False
    then obtain r where r: "postLocked ''genesis'' ''GENESIS'' ?f ?ls ?w = (w, Inr r)"
      using new G fits by (auto simp: NewWorld_def Amount_Add_Inr Let_def split: if_splits sum.splits prod.splits)
    have fresh: "dget (w_effects ?w) ''genesis'' = None" by (simp add: empty_world_def)
    have p: "posted ''genesis'' ?f ?ls r ?w w" by (rule postLocked_posted [OF r fresh])
    obtain b t where b: "\<And>a. dget_or 0 b a = dget_or 0 (w_balances ?w) a + lines_delta ?ls a"
      "w = ?w\<lparr>w_balances := b, w_sequence := w_sequence ?w + 1, w_headHash := jt_Hash t,
              w_journal := w_journal ?w @ [t],
              w_effects := dset ''genesis'' \<lparr>ef_fingerprint = ?f, ef_receipt = r\<rparr> (w_effects ?w)\<rparr>"
      by (rule postedE [OF p]) blast
    have "journal_ok (w_journal w) (w_balances w) (w_sequence w) (w_headHash w) (w_effects w)"
      by (rule journal_ok_post [OF r fresh]) (simp_all add: empty_world_def journal_ok_empty b(2))
    with b sum nn all fits asset delta show ?thesis
      by (intro good_start [OF b(2)]) (auto simp: DAList.lookup_update empty_world_def)
  qed
qed

section \<open>Operations\<close>

text \<open>
  The critical sections of the money operations are executed under an arbitrary fence, so a run may hold
  a fence across crashes and restarts of the region and use it late. The operations that a caller reaches
  without a fence (\<^verbatim>\<open>Pay\<close>, \<^verbatim>\<open>Deposit\<close>, \<dots>) read the current fence and then do the same.
\<close>

datatype net_fault =
    NPartition string string | NHeal string string | NHealAll | NDropPercent uint8 | NDuplicateEvery uint64
  | NReorder bool | NDropNext string go_int | NDuplicateNext string go_int | NLoseResponse string
  | NCrash string | NRestart string | NClockSkew string int

fun net_apply :: "net_fault \<Rightarrow> Network \<Rightarrow> Network" where
  "net_apply (NPartition a b) = Network_Partition a b"
| "net_apply (NHeal a b) = Network_Heal a b"
| "net_apply NHealAll = Network_HealAll"
| "net_apply (NDropPercent p) = Network_SetDropPercent p"
| "net_apply (NDuplicateEvery v) = Network_SetDuplicateEvery v"
| "net_apply (NReorder b) = Network_SetReorder b"
| "net_apply (NDropNext m c) = Network_DropNext m c"
| "net_apply (NDuplicateNext m c) = Network_DuplicateNext m c"
| "net_apply (NLoseResponse m) = Network_LoseResponse m"
| "net_apply (NCrash r) = Network_Crash r"
| "net_apply (NRestart r) = Network_Restart r"
| "net_apply (NClockSkew r s) = Network_ClockSkew r s"

datatype sim_op =
    OpPay WFence string string amount
  | OpDeposit WFence string string amount
  | OpRelease WFence string string string amount string
  | OpCashback WFence string string string amount amount
  | OpInitiateTransfer WFence string string amount
  | OpConsumeTransfer TransferCertificate
  | OpDispatchOutbox
  | OpDeliverMessages
  | OpPumpUntilSettled nat
  | OpStartSaga string string string amount
  | OpAdvanceSaga string
  | OpScheduleFraudVerdict string string bool uint64
  | OpAdvanceLogicalTicks uint64
  | OpCrashRegion string
  | OpRestartRegion string
  | OpCrashDC string
  | OpRestartDC string
  | OpLoseResponse string
  | OpCrashBeforeCommit string
  | OpCrashAfterCommit string
  | OpCrashConsumer string
  | OpCrashCoordinatorAfterEffect string
  | OpCrashCoordinator
  | OpRestartCoordinator
  | OpNetwork net_fault

text \<open>One operation; \<open>None\<close> is a panic.\<close>

fun sim_step :: "sim_op \<Rightarrow> World \<Rightarrow> World option" where
  "sim_step (OpPay fence key i a) w = Some (fst (PayWithFence fence key i a w))"
| "sim_step (OpDeposit fence key i a) w = Some (fst (Deposit_locked fence key i a w))"
| "sim_step (OpRelease fence key rid i a kind) w = Some (fst (releaseCapture_locked fence key rid i a kind w))"
| "sim_step (OpCashback fence key e i a m) w = Some (fst (GrantCashback_locked fence key e i a m w))"
| "sim_step (OpInitiateTransfer fence i d a) w = Some (fst (InitiateTransfer fence i d a w))"
| "sim_step (OpConsumeTransfer c) w = Some (fst (ConsumeTransfer c w))"
| "sim_step OpDispatchOutbox w = Some (fst (DispatchOutbox w))"
| "sim_step OpDeliverMessages w = Some (fst (DeliverMessages w))"
| "sim_step (OpPumpUntilSettled n) w = Some (fst (PumpUntilSettled n w))"
| "sim_step (OpStartSaga sid region i a) w = Some (fst (StartSaga sid region i a w))"
| "sim_step (OpAdvanceSaga sid) w = map_option fst (AdvanceSaga sid w)"
| "sim_step (OpScheduleFraudVerdict e i b d) w = Some (fst (ScheduleFraudVerdict e i b d w))"
| "sim_step (OpAdvanceLogicalTicks t) w = map_option fst (AdvanceLogicalTicks t w)"
| "sim_step (OpCrashRegion r) w = Some (fst (CrashRegion r w))"
| "sim_step (OpRestartRegion r) w = Some (fst (RestartRegion r w))"
| "sim_step (OpCrashDC d) w = Some (fst (CrashDC d w))"
| "sim_step (OpRestartDC d) w = Some (fst (RestartDC d w))"
| "sim_step (OpLoseResponse k) w = Some (World_LoseResponse k w)"
| "sim_step (OpCrashBeforeCommit k) w = Some (CrashBeforeCommit k w)"
| "sim_step (OpCrashAfterCommit k) w = Some (CrashAfterCommit k w)"
| "sim_step (OpCrashConsumer m) w = Some (CrashConsumerAfterApply m w)"
| "sim_step (OpCrashCoordinatorAfterEffect sid) w = Some (CrashCoordinatorAfterEffect sid w)"
| "sim_step OpCrashCoordinator w = Some (CrashCoordinator w)"
| "sim_step OpRestartCoordinator w = Some (RestartCoordinator w)"
| "sim_step (OpNetwork f) w = Some (onNetwork (net_apply f) w)"

definition sim_steps :: "sim_op list \<Rightarrow> World \<Rightarrow> World option" where
  "sim_steps ops w = fold (\<lambda>op s. Option.bind s (sim_step op)) ops (Some w)"

text \<open>The request an operation fingerprints for its idempotency record, if it keeps one.\<close>

fun op_request :: "sim_op \<Rightarrow> string list option" where
  "op_request (OpPay _ _ i a) = Some [''PAYMENT'', i, Amount_String a]"
| "op_request (OpDeposit _ _ i a) = Some [''DEPOSIT'', i, Amount_String a]"
| "op_request (OpRelease _ _ rid i a kind) = Some [kind, rid, i, Amount_String a]"
| "op_request (OpCashback _ _ e i a m) = Some [''CASHBACK'', e, i, Amount_String a, Amount_String m]"
| "op_request (OpStartSaga _ _ i a) = Some [''PAYMENT'', i, Amount_String a]"
| "op_request _ = None"

definition requests :: "sim_op list \<Rightarrow> string list set" where
  "requests ops = {parts. \<exists>op \<in> set ops. op_request op = Some parts}"

text \<open>
  Restrictions on the operations of a run: \<^verbatim>\<open>releaseCapture\<close> is only called with the three kinds of release,
  and a transfer identifier is valid UTF-8, since it travels through JSON.
\<close>

fun op_valid :: "sim_op \<Rightarrow> bool" where
  "op_valid (OpRelease _ _ _ _ _ kind) = release_kind kind"
| "op_valid (OpInitiateTransfer _ i _ _) = valid_utf8 i"
| "op_valid _ = True"

lemma net_apply_queue: "n_queue (net_apply f n) = n_queue n"
  by (cases f) (simp_all add: frame_simps)

lemma good_mono: "good R k w \<Longrightarrow> k \<le> k' \<Longrightarrow> good R k' w"
  by (auto simp: good_def regions_ok_def) (metis order_trans)

lemma RestartRegion_good:
  assumes g: "good R k w" and k: "k < 2 ^ 64 - 1"
  shows "good R (Suc k) (fst (RestartRegion n w))"
proof (cases "dget (w_regions w) n")
  case (Some r)
  have r: "0 < unat (rs_epoch r)" "unat (rs_epoch r) \<le> k" using g Some by (simp_all add: good_def regions_ok_def)
  then have "unat (rs_epoch r + 1) = Suc (unat (rs_epoch r))" using k by (intro unat_succ) simp
  with r g Some show ?thesis
    by (auto simp: RestartRegion_def dmodify_Some frame_simps intro!: good_onNetwork good_region)
qed (use good_mono [OF g] in \<open>simp add: RestartRegion_def\<close>)

lemma processVerdicts_len: "processVerdicts es w = Some (w', errs) \<Longrightarrow> length (w_journal w) \<le> length (w_journal w')"
proof (induction es arbitrary: w errs)
  case (Cons e es)
  have "length (w_journal w) \<le> length (w_journal w1)" if "processVerdict e w = Some (w1, x)" for w1 x
    using that postLocked_frame(1)
    by (auto simp: processVerdict_def Let_def split: option.splits if_splits sum.splits prod.splits)
  with Cons show ?case by (fastforce split: option.splits)
qed simp

definition admissible :: "string list set \<Rightarrow> sim_op \<Rightarrow> bool" where
  "admissible R op \<longleftrightarrow> op_valid op \<and> (case op_request op of None \<Rightarrow> True | Some parts \<Rightarrow> parts \<in> R)"

lemma sim_step_adv:
  assumes "admissible R op" "inj_on requestFingerprint R" "\<nexists>r. op = OpRestartRegion r" "sim_step op w = Some w'"
    and "(\<exists>t. op = OpAdvanceLogicalTicks t) \<Longrightarrow> homed w"
  shows "adv R k w w'"
proof (cases op)
  case (OpAdvanceSaga sid)
  obtain w1 x where "AdvanceSaga sid w = Some (w1, x)" "adv R k w w1" by (rule AdvanceSaga_adv [OF assms(2)])
  with OpAdvanceSaga assms(4) show ?thesis by simp
next
  case (OpAdvanceLogicalTicks t)
  obtain w1 x where "AdvanceLogicalTicks t w = Some (w1, x)" "adv R k w w1"
    by (rule AdvanceLogicalTicks_adv [of w]) (use assms(5) OpAdvanceLogicalTicks in blast)
  with OpAdvanceLogicalTicks assms(4) show ?thesis by simp
next
  case (OpNetwork f)
  with assms(4) show ?thesis by (auto simp: net_apply_queue intro!: adv_keep good_onNetwork)
next
  case (OpCrashRegion r)
  with assms(4) show ?thesis
    by (auto simp: CrashRegion_def frame_simps intro!: adv_keep good_onNetwork good_setRunning)
qed (use assms(1,3,4) in \<open>auto simp: admissible_def PayWithFence_adv Deposit_locked_adv releaseCapture_locked_adv
    GrantCashback_locked_adv InitiateTransfer_adv ConsumeTransfer_def consumeTransfer_adv DispatchOutbox_adv
    DeliverMessages_adv PumpUntilSettled_adv StartSaga_adv ScheduleFraudVerdict_adv CrashDC_def RestartDC_def
    World_LoseResponse_def CrashBeforeCommit_def CrashAfterCommit_def CrashConsumerAfterApply_def
    CrashCoordinatorAfterEffect_def CrashCoordinator_def RestartCoordinator_def intro: adv_keep\<close>)

lemma sim_step_len:
  assumes "admissible R op" "inj_on requestFingerprint R" "sim_step op w = Some w'"
  shows "length (w_journal w) \<le> length (w_journal w')"
proof (cases "(\<exists>t. op = OpAdvanceLogicalTicks t) \<or> (\<exists>r. op = OpRestartRegion r)")
  case True
  then show ?thesis
    using assms(3) processVerdicts_len
    by (fastforce simp: AdvanceLogicalTicks_def RestartRegion_def Let_def split: if_splits)
next
  case False
  with assms sim_step_adv [of R op w w' 0] show ?thesis by (auto simp: adv_def)
qed

section \<open>The state machine\<close>

text \<open>The state is paired with the number of operations executed, which bounds the region epochs.\<close>

definition machine_step :: "sim_op \<Rightarrow> World option \<times> nat \<Rightarrow> World option \<times> nat" where
  "machine_step op = (\<lambda>(s, n). (Option.bind s (sim_step op), Suc n))"

definition machine_start :: "World option \<times> nat \<Rightarrow> bool" where
  "machine_start s \<longleftrightarrow> (\<exists>config seed w. s = (Some w, 0) \<and> valid_config config \<and> NewWorld config seed = Inr w)"

definition machine_inv :: "string list set \<Rightarrow> World option \<times> nat \<Rightarrow> bool" where
  "machine_inv R = (\<lambda>(s, n). \<forall>w. s = Some w \<longrightarrow> inj_on requestFingerprint R \<longrightarrow>
     length (w_journal w) < 2 ^ 64 \<longrightarrow> Suc n < 2 ^ 64 \<longrightarrow> good R (Suc n) w)"

lemma machine_inv_step:
  assumes inv: "machine_inv R s" and op: "admissible R op"
  shows "machine_inv R (machine_step op s)"
proof -
  obtain s0 n where s: "s = (s0, n)" by (cases s)
  have "good R (Suc (Suc n)) w'"
    if w: "s0 = Some w" "sim_step op w = Some w'" and inj: "inj_on requestFingerprint R"
      and len: "length (w_journal w') < 2 ^ 64" "Suc (Suc n) < 2 ^ 64" for w w'
  proof -
    have "length (w_journal w) \<le> length (w_journal w')" by (rule sim_step_len [OF op inj w(2)])
    then have g: "good R (Suc n) w" using inv w inj len by (auto simp: machine_inv_def s)
    show ?thesis
    proof (cases "\<exists>r. op = OpRestartRegion r")
      case True
      then obtain r where "op = OpRestartRegion r" by blast
      with RestartRegion_good [OF g, of r] w(2) len(2) show ?thesis by simp
    next
      case False
      then have "good R (Suc n) w'"
        using sim_step_adv [OF op inj False w(2), of "Suc n"] good_homed [OF g] g len(1) by (simp add: adv_def)
      then show ?thesis by (rule good_mono) simp
    qed
  qed
  then show ?thesis by (auto simp: machine_inv_def machine_step_def s bind_eq_Some_conv)
qed

interpretation sim: state_machine machine_step machine_start "admissible R" "machine_inv R" for R
proof unfold_locales
  fix s assume "machine_start s"
  then show "machine_inv R s" by (auto simp: machine_start_def machine_inv_def dest!: NewWorld_good [where R = R])
qed (rule machine_inv_step)

lemma fold_machine_step:
  "fold machine_step ops (s, n) = (fold (\<lambda>op s. Option.bind s (sim_step op)) ops s, n + length ops)"
  by (induction ops arbitrary: s n) (simp_all add: machine_step_def)

lemma run_good:
  assumes start: "valid_config config" "NewWorld config seed = Inr w0"
    and ops: "list_all op_valid ops" "inj_on requestFingerprint (requests ops)" "Suc (length ops) < 2 ^ 64"
    and run: "sim_steps ops w0 = Some w" "length (w_journal w) < 2 ^ 64"
  shows "good (requests ops) (Suc (length ops)) w"
proof -
  have "machine_start (Some w0, 0)" using start by (auto simp: machine_start_def)
  moreover have "\<forall>op \<in> set ops. admissible (requests ops) op"
    using ops(1) by (auto simp: admissible_def requests_def list_all_iff split: option.split)
  ultimately have "machine_inv (requests ops) (fold machine_step ops (Some w0, 0))" by (rule sim.inv_run)
  then show ?thesis using run ops by (simp add: fold_machine_step machine_inv_def sim_steps_def)
qed

end
