(* ===== verification/Sim_Retry.thy ===== *)
theory Sim_Retry
  imports Sim_Run
begin

text \<open>
  Retries: an idempotency record, once written, is never changed by any operation, so a client that repeats
  a committed request is answered with the original receipt, however many faults lie in between. Failed
  payments leave the money alone.
\<close>

section \<open>Idempotency records persist\<close>

definition idem_kept :: "World \<Rightarrow> World \<Rightarrow> bool" where
  "idem_kept w w' \<longleftrightarrow> (\<forall>key x. dget (w_idempotency w) key = Some x \<longrightarrow> dget (w_idempotency w') key = Some x)"

lemma idem_kept_refl [simp]: "idem_kept w w"
  by (simp add: idem_kept_def)

lemma idem_kept_same: "w_idempotency w' = w_idempotency w \<Longrightarrow> idem_kept w w'"
  by (simp add: idem_kept_def)

lemma idem_kept_trans: "idem_kept w w' \<Longrightarrow> idem_kept w' w'' \<Longrightarrow> idem_kept w w''"
  by (simp add: idem_kept_def)

lemma idem_kept_record:
  "dget (w_idempotency w) key = None \<Longrightarrow> w_idempotency w' = w_idempotency w \<Longrightarrow> idem_kept w (recordIdempotency key f r w')"
  by (auto simp: idem_kept_def recordIdempotency_def DAList.lookup_update)

lemma idempotency_frame [simp]:
  "w_idempotency (setRights n a w) = w_idempotency w"
  "w_idempotency (setRunning n b w) = w_idempotency w"
  "w_idempotency (onNetwork f w) = w_idempotency w"
  "w_idempotency (addOutboxLocked r kind s d p w) = w_idempotency w"
  "w_idempotency (applyRelease region kind rid i a nr na r w) = w_idempotency w"
  "w_idempotency (recordTransfer region i d nr r c w) = w_idempotency w"
  "w_idempotency (applyConsume m c h nr r w) = w_idempotency w"
  "w_idempotency (applyReversal e i region a nr na r w) = w_idempotency w"
  "w_idempotency (markProcessed e w) = w_idempotency w"
  by (simp_all add: setRights_def setRunning_def onNetwork_def addOutboxLocked_def applyRelease_def recordTransfer_def
      applyConsume_def applyReversal_def markProcessed_def Let_def)

lemma idempotency_postLocked:
  "postLocked e k f ls w = (w', res) \<Longrightarrow> w_idempotency w' = w_idempotency w"
  by (auto simp: posted_def elim!: postLocked_cases)

lemma finishPayment_kept:
  "dget (w_idempotency w) key = None \<Longrightarrow> idem_kept w (fst (finishPayment fence key i a nr na f r w))"
  by (auto simp: finishPayment_def Let_def idem_kept_def recordIdempotency_def DAList.lookup_update split: prod.splits)

lemma commitPayment_kept:
  assumes "dget (w_idempotency w) key = None"
  shows "idem_kept w (fst (commitPayment fence key i a st f w))"
proof -
  obtain w1 q where q: "postLocked (pay_effect i) ''PAYMENT_CAPTURE'' f (payment_lines (fence_Region fence) a w) w = (w1, q)"
    by fastforce
  have w1: "w_idempotency w1 = w_idempotency w" by (rule idempotency_postLocked [OF q])
  then have "idem_kept w (fst (finishPayment fence key i a nr na f r w1))" for nr na r
    using finishPayment_kept [of w1] assms by (simp add: idem_kept_def)
  then show ?thesis using q idem_kept_same [OF w1]
    by (simp add: commitPayment_def fail_def split: sum.split)
qed

lemma replayEffect_kept:
  "replayEffectLocked e f key w = Some (w', x) \<Longrightarrow> dget (w_idempotency w) key = None \<Longrightarrow> idem_kept w w'"
  by (auto simp: replayEffectLocked_def Let_def intro!: idem_kept_record split: option.splits if_splits)

lemma PayWithFence_kept: "idem_kept w (fst (PayWithFence fence key i a w))"
proof (cases "dget (w_idempotency w) key")
  case None
  have "idem_kept w (fst (commitPayment fence key i a st f (w\<lparr>w_crashBeforeCommit := c\<rparr>)))" for st f c
    using commitPayment_kept [of "w\<lparr>w_crashBeforeCommit := c\<rparr>"] None by (simp add: idem_kept_def)
  moreover have "idem_kept w (fst x)" if "replayEffectLocked e f key w = Some x" for e f x
    using replayEffect_kept [OF _ None] that by (metis prod.collapse)
  ultimately show ?thesis using None
    by (auto simp: PayWithFence_def fail_def Let_def split: sum.split option.split prod.split intro: idem_kept_same)
qed (auto simp: PayWithFence_def fail_def Let_def split: sum.split prod.split intro: idem_kept_same)

lemma Pay_kept: "idem_kept w (fst (Pay region key i a w))"
  by (simp add: Pay_def fail_def PayWithFence_kept split: sum.split)

lemma enterWrite_kept: "enterWrite fence key valid e f w = Inl x \<Longrightarrow> idem_kept w (fst x)"
  using replayEffect_kept [of e f key w "fst x" "snd x"]
  by (auto simp: enterWrite_def fail_def split: sum.splits option.splits if_splits)

lemma enterWrite_none: "enterWrite fence key valid e f w = Inr st \<Longrightarrow> dget (w_idempotency w) key = None"
  by (auto simp: enterWrite_def split: sum.splits option.splits if_splits)

lemma leaveWrite_kept:
  "dget (w_idempotency w) key = None \<Longrightarrow> w_idempotency w' = w_idempotency w \<Longrightarrow> idem_kept w (fst (leaveWrite key f r w'))"
  by (simp add: leaveWrite_def Let_def idem_kept_record)

lemma locked_kept:
  "idem_kept w (fst (Deposit_locked fence key i a w))"
  "idem_kept w (fst (releaseCapture_locked fence key rid i a kind w))"
  "idem_kept w (fst (GrantCashback_locked fence key e i a m w))"
proof -
  show "idem_kept w (fst (Deposit_locked fence key i a w))"
    by (auto simp: Deposit_locked_def Let_def fail_def leaveWrite_kept idem_kept_same split: sum.split prod.split
        dest!: idempotency_postLocked enterWrite_none dest: enterWrite_kept)
  show "idem_kept w (fst (releaseCapture_locked fence key rid i a kind w))"
    by (auto simp: releaseCapture_locked_def Let_def fail_def leaveWrite_kept idem_kept_same split: sum.split prod.split option.split
        dest!: idempotency_postLocked enterWrite_none dest: enterWrite_kept)
  show "idem_kept w (fst (GrantCashback_locked fence key e i a m w))"
    by (auto simp: GrantCashback_locked_def Let_def fail_def leaveWrite_kept idem_kept_same split: sum.split prod.split
        dest!: idempotency_postLocked enterWrite_none dest: enterWrite_kept)
qed

lemma transfer_idempotency:
  "w_idempotency (fst (InitiateTransfer fence i d a w)) = w_idempotency w"
  "w_idempotency (fst (consumeTransfer m c w)) = w_idempotency w"
  "w_idempotency (fst (acceptTransferACK e w)) = w_idempotency w"
proof -
  show "w_idempotency (fst (InitiateTransfer fence i d a w)) = w_idempotency w"
    by (auto simp: InitiateTransfer_def Let_def dest: idempotency_postLocked split: sum.split prod.split option.split)
  have f: "w_idempotency (fst (finishConsume m x r dup w)) = w_idempotency w" for x r dup w
    by (simp add: finishConsume_def Let_def split: prod.split)
  show "w_idempotency (fst (consumeTransfer m c w)) = w_idempotency w"
    by (auto simp: consumeTransfer_def Let_def f dest: idempotency_postLocked split: sum.split prod.split option.split)
  show "w_idempotency (fst (acceptTransferACK e w)) = w_idempotency w"
    by (simp add: acceptTransferACK_def Let_def split: option.split)
qed

lemma message_idempotency:
  "w_idempotency (fst (DispatchOutbox w)) = w_idempotency w"
  "w_idempotency (fst (deliverEach es w)) = w_idempotency w"
  "w_idempotency (fst (DeliverMessages w)) = w_idempotency w"
proof -
  show "w_idempotency (fst (DispatchOutbox w)) = w_idempotency w"
    by (simp add: DispatchOutbox_def collectPending_def case_prod_unfold Let_def)
  have one: "w_idempotency (fst (deliverOne e w)) = w_idempotency w" for e w
    using transfer_idempotency(2) [of "env_MessageID e"] transfer_idempotency(3) [of e]
    by (simp add: deliverOne_def case_prod_unfold split: option.split)
  show each: "w_idempotency (fst (deliverEach es w)) = w_idempotency w" for es w
    by (induction es arbitrary: w) (simp_all add: Let_def case_prod_unfold one)
  show "w_idempotency (fst (DeliverMessages w)) = w_idempotency w"
    by (simp add: DeliverMessages_def case_prod_unfold Let_def each)
qed

lemma pump_idempotency: "w_idempotency (fst (PumpUntilSettled n w)) = w_idempotency w"
proof (induction n arbitrary: w)
  case (Suc n)
  show ?case
    by (simp only: PumpUntilSettled.simps Let_def fst_conv message_idempotency Suc split: if_split) simp
qed simp

lemma processVerdicts_idempotency: "processVerdicts es w = Some (w', errs) \<Longrightarrow> w_idempotency w' = w_idempotency w"
proof (induction es arbitrary: w errs)
  case (Cons e es)
  have "w_idempotency w1 = w_idempotency w" if "processVerdict e w = Some (w1, x)" for w1 x
    using that
    by (auto simp: processVerdict_def Let_def dest: idempotency_postLocked
        split: option.splits if_splits sum.splits prod.splits)
  with Cons show ?case by (fastforce split: option.splits)
qed simp

lemma AdvanceSaga_kept: "AdvanceSaga sid w = Some (w', x) \<Longrightarrow> idem_kept w w'"
proof -
  assume a: "AdvanceSaga sid w = Some (w', x)"
  have s: "w_idempotency w2 = w_idempotency w1" if "saveSagaPayment sid s r w1 = Some (w2, y)" for s r w1 w2 y
    using that by (auto simp: saveSagaPayment_def Let_def split: prod.splits bool.splits option.splits)
  have p: "idem_kept w w1" if "Pay region key i n w = (w1, r, err)" for region key i n w1 r err
    using Pay_kept [of w region key i n] that by simp
  have "idem_kept w w2" if "Pay region key i n w = (w1, r, err)" "saveSagaPayment sid y r w1 = Some (w2, z)"
    for region key i n w1 r err y w2 z
    using p [OF that(1)] s [OF that(2)] by (simp add: idem_kept_def)
  with a p show ?thesis
    by (auto simp: AdvanceSaga_def Let_def split: if_splits option.splits prod.splits intro: idem_kept_same)
qed

lemma sim_step_kept: "sim_step op w = Some w' \<Longrightarrow> idem_kept w w'"
proof (cases op)
  case (OpAdvanceLogicalTicks t)
  moreover assume "sim_step op w = Some w'"
  ultimately show ?thesis
    by (auto simp: AdvanceLogicalTicks_def Let_def intro!: idem_kept_same dest: processVerdicts_idempotency)
qed (auto simp: transfer_idempotency message_idempotency pump_idempotency
    ConsumeTransfer_def StartSaga_def ScheduleFraudVerdict_def CrashDC_def RestartDC_def World_LoseResponse_def
    CrashBeforeCommit_def CrashAfterCommit_def CrashConsumerAfterApply_def CrashCoordinatorAfterEffect_def
    CrashCoordinator_def RestartCoordinator_def CrashRegion_def RestartRegion_def Let_def
    intro: idem_kept_same PayWithFence_kept locked_kept AdvanceSaga_kept split: option.splits)

lemma sim_steps_kept: "sim_steps ops w = Some w' \<Longrightarrow> idem_kept w w'"
proof -
  have none: "fold (\<lambda>op s. Option.bind s (sim_step op)) ops None = None" for ops by (induction ops) auto
  have "fold (\<lambda>op s. Option.bind s (sim_step op)) ops (Some w) = Some w' \<Longrightarrow> idem_kept w w'"
  proof (induction ops arbitrary: w)
    case (Cons op ops)
    then show ?case by (cases "sim_step op w") (auto simp: none dest: sim_step_kept intro: idem_kept_trans)
  qed simp
  then show "sim_steps ops w = Some w' \<Longrightarrow> idem_kept w w'" by (simp add: sim_steps_def)
qed

section \<open>The outcomes of a payment\<close>

lemma commitPayment_cases:
  assumes c: "commitPayment fence key i a st f w = (w', r, err)" and fresh: "dget (w_effects w) (pay_effect i) = None"
  obtains (failed) "w' = w" "\<not> committed err"
  | (paid) w1 r0 where "posted (pay_effect i) f (payment_lines (fence_Region fence) a w) r0 w w1"
      "a \<le> rs_rights st" "a \<le> dget_or 0 (w_balances w) UserAccount + w_creditLimit w"
      "finishPayment fence key i a (rs_rights st - a) (w_authorityTotal w - a) f r0 w1 = (w', r, err)"
proof -
  obtain w1 q where q: "postLocked (pay_effect i) ''PAYMENT_CAPTURE'' f (payment_lines (fence_Region fence) a w) w = (w1, q)"
    by fastforce
  from q show thesis
  proof (cases rule: postLocked_cases)
    case (error e)
    then have "\<not> committed (Some e)" using postLocked_error [of "pay_effect i"] q by fastforce
    with error q c have "w' = w \<and> \<not> committed err"
      by (auto simp: commitPayment_def fail_def split: sum.splits if_splits)
    then show thesis by (intro failed) auto
  next
    case (replay x)
    with fresh show thesis by simp
  next
    case (new r0)
    show thesis
    proof (cases "committed err")
      case False
      then have "w' = w \<or> finishPayment fence key i a (rs_rights st - a) (w_authorityTotal w - a) f r0 w1 = (w', r, err)"
        using new q c by (auto simp: commitPayment_def fail_def Amount_Sub_Inr split: sum.splits if_splits)
      moreover have "committed err" if "finishPayment fence key i a nr na f r0 w1 = (w', r, err)" for nr na
        using that by (auto simp: finishPayment_def Let_def split: prod.splits if_splits)
      ultimately show thesis using False failed by blast
    next
      case True
      then show thesis using new q c
        by (intro paid [OF new(3)])
          (auto simp: commitPayment_def fail_def Amount_Sub_Inr Amount_Add_Inr split: sum.splits if_splits)
    qed
  qed
qed

lemma PayWithFence_cases:
  assumes pay: "PayWithFence fence key i a w = (w', r, err)"
  obtains (failed) c where "w' = w\<lparr>w_crashBeforeCommit := c\<rparr>" "\<not> committed err"
  | (known) x l where "dget (w_idempotency w) key = Some x"
      "id_requestHash x = requestFingerprint [''PAYMENT'', i, Amount_String a]"
      "w' = w\<lparr>w_loseResponses := l\<rparr>" "r = (id_receipt x)\<lparr>rc_Duplicate := True\<rparr>" "committed err"
  | (replayed) x where "dget (w_effects w) (pay_effect i) = Some x"
      "r = (ef_receipt x)\<lparr>rc_IdempotencyKey := key, rc_Duplicate := True\<rparr>" "err = None"
      "w' = recordIdempotency key (requestFingerprint [''PAYMENT'', i, Amount_String a]) r w"
  | (crashed) c where "err = Some ErrCrashBeforeCommit" "w' = onNetwork (Network_Crash (fence_Region fence))
      (setRunning (fence_Region fence) False (w\<lparr>w_crashBeforeCommit := c\<rparr>))"
  | (paid) st c w1 r0 where "requireWriterLocked fence w = Inr st" "0 < a" "key \<noteq> []" "i \<noteq> []"
      "dget (w_idempotency w) key = None"
      "posted (pay_effect i) (requestFingerprint [''PAYMENT'', i, Amount_String a])
         (payment_lines (fence_Region fence) a w) r0 (w\<lparr>w_crashBeforeCommit := c\<rparr>) w1"
      "a \<le> rs_rights st" "a \<le> dget_or 0 (w_balances w) UserAccount + w_creditLimit w"
      "finishPayment fence key i a (rs_rights st - a) (w_authorityTotal w - a)
         (requestFingerprint [''PAYMENT'', i, Amount_String a]) r0 w1 = (w', r, err)"
proof -
  let ?f = "requestFingerprint [''PAYMENT'', i, Amount_String a]"
  show thesis
  proof (cases "\<exists>st. requireWriterLocked fence w = Inr st \<and> key \<noteq> [] \<and> i \<noteq> [] \<and> 0 < a")
    case False
    have "w' = w" "\<not> committed err"
      using pay False by (auto simp: PayWithFence_def fail_def requireWriterLocked_def split: sum.splits option.splits if_splits)
    then show thesis by (intro failed [of "w_crashBeforeCommit w"]) auto
  next
    case True
    then obtain st where st: "requireWriterLocked fence w = Inr st" "key \<noteq> []" "i \<noteq> []" "0 < a" by blast
    show thesis
    proof (cases "dget (w_idempotency w) key")
      case (Some x)
      show thesis
      proof (cases "id_requestHash x = ?f")
        case True
        obtain lost l where l: "consumeCounter (w_loseResponses w) key = (lost, l)" by fastforce
        have "w' = w\<lparr>w_loseResponses := l\<rparr>" "r = (id_receipt x)\<lparr>rc_Duplicate := True\<rparr>" "committed err"
          using st Some pay True l by (auto simp: PayWithFence_def Let_def)
        then show thesis by (rule known [OF Some True])
      next
        case False
        with st Some pay have "w' = w" "\<not> committed err" by (auto simp: PayWithFence_def fail_def)
        then show thesis by (intro failed [of "w_crashBeforeCommit w"]) auto
      qed
    next
      case None
      show thesis
      proof (cases "dget (w_effects w) (pay_effect i)")
        case (Some x)
        show thesis
        proof (cases "ef_fingerprint x = ?f")
          case True
          have "r = (ef_receipt x)\<lparr>rc_IdempotencyKey := key, rc_Duplicate := True\<rparr>" "err = None"
            "w' = recordIdempotency key ?f r w"
            using st None pay Some True by (auto simp: PayWithFence_def replayEffectLocked_def Let_def)
          then show thesis by (rule replayed [OF Some])
        next
          case False
          have "w' = w" "\<not> committed err"
            using st None pay Some False by (auto simp: PayWithFence_def replayEffectLocked_def Let_def)
          then show thesis by (intro failed [of "w_crashBeforeCommit w"]) auto
        qed
      next
        case fresh: None
        obtain crash c where c: "consumeCounter (w_crashBeforeCommit w) key = (crash, c)" by fastforce
        let ?w = "w\<lparr>w_crashBeforeCommit := c\<rparr>"
        show thesis
        proof (cases crash)
          case True
          with st None fresh c pay show thesis
            by (intro crashed [of c]) (auto simp: PayWithFence_def replayEffectLocked_def Let_def)
        next
          case False
          with st None fresh c pay have "commitPayment fence key i a st ?f ?w = (w', r, err)"
            by (auto simp: PayWithFence_def replayEffectLocked_def Let_def)
          moreover have "dget (w_effects ?w) (pay_effect i) = None" using fresh by simp
          ultimately show thesis
          proof (cases rule: commitPayment_cases)
            case (paid w1 r0)
            have "payment_lines (fence_Region fence) a ?w = payment_lines (fence_Region fence) a w"
              by (simp add: payment_lines_def)
            with paid st None show thesis by (intro that(5) [where st = st and c = c and ?w1.0 = w1 and ?r0.0 = r0]) simp_all
          next
            case failed
            then show thesis by (rule that(1))
          qed
        qed
      qed
    qed
  qed
qed

end
