(* ===== verification/Sim_Audit.thy ===== *)
theory Sim_Audit
  imports Sim_Journal
begin

text \<open>
  What a successful \<^verbatim>\<open>AssertAllFinancialInvariants\<close> establishes, of any state whatsoever: the journal is a hash
  chain of balanced transactions with distinct effects, the balances are its replay, and the spending
  rights add up to the spendable balance.
\<close>

section \<open>Vocabulary\<close>

definition asset_delta :: "JournalLine list \<Rightarrow> string \<Rightarrow> int" where
  "asset_delta ls x = sum_list (map (\<lambda>l. if jl_Asset l = x
     then (if jl_Side l = Credit then jl_Amount l else - jl_Amount l) else 0) ls)"

fun chained :: "bytes \<Rightarrow> JournalTransaction list \<Rightarrow> bool" where
  "chained h [] = True"
| "chained h (t # ts) \<longleftrightarrow> jt_PreviousHash t = h \<and> jt_Hash t = hashTransaction t \<and> chained (jt_Hash t) ts"

definition replayed :: "JournalTransaction list \<Rightarrow> string \<Rightarrow> int" where
  "replayed j a = sum_list (map (\<lambda>t. lines_delta (jt_Lines t) a) j)"

section \<open>The journal\<close>

lemma not_Some_unit [simp]: "x \<noteq> Some () \<longleftrightarrow> x = None"
  by (cases x) auto

lemma audit_lines_Cons:
  assumes "audit_lines i (l # ls) P F = Inr R"
  obtains d c where "d + c = jl_Amount l" "if jl_Side l = Credit then d = 0 else c = 0"
    "audit_lines i ls
       (dset (jl_Asset l) (fst (dget_or (0, 0) P (jl_Asset l)) + d, snd (dget_or (0, 0) P (jl_Asset l)) + c) P)
       (dset (jl_Account l) (dget_or 0 F (jl_Account l) + line_delta l (jl_Account l)) F) = Inr R"
proof -
  have "Debit \<noteq> Credit" by (simp add: Debit_def Credit_def)
  then show thesis
    using assms that [of "jl_Amount l" 0] that [of 0 "jl_Amount l"]
    by (auto simp: Let_def sum_error_def sum_value_def addChecked_def subtractChecked_def line_delta_def
        Amount_Add_Inr Amount_Sub_Inr split: if_splits sum.splits option.splits)
qed

lemma audit_lines_folded:
  "audit_lines i ls P F = Inr (P', F') \<Longrightarrow> dget_or 0 F' a = dget_or 0 F a + lines_delta ls a"
proof (induction ls arbitrary: P F)
  case (Cons l ls)
  from Cons.prems show ?case by (rule audit_lines_Cons) (auto simp: line_delta_def dest!: Cons.IH)
qed simp

lemma audit_lines_totals:
  "audit_lines i ls P F = Inr (P', F') \<Longrightarrow>
   snd (dget_or (0, 0) P' x) - fst (dget_or (0, 0) P' x)
     = snd (dget_or (0, 0) P x) - fst (dget_or (0, 0) P x) + asset_delta ls x"
proof (induction ls arbitrary: P F)
  case (Cons l ls)
  from Cons.prems show ?case
    by (rule audit_lines_Cons) (auto simp: asset_delta_def dest!: Cons.IH split: if_splits)
qed (simp add: asset_delta_def)

lemma balanced_totals:
  assumes "first_error unbalanced_asset (entries P) = None"
  shows "snd (dget_or (0, 0) P x) = fst (dget_or (0, 0) P x)"
proof (cases "dget P x")
  case (Some t)
  then have "unbalanced_asset (x, t) = None" using assms unfolding first_error_entries by blast
  with Some show ?thesis by (simp add: dget_or_def unbalanced_asset_def case_prod_unfold split: if_splits)
qed (simp add: dget_or_def)

lemma audit_transaction_sound:
  assumes "audit_transaction k t au = Inr au'"
  shows "dget_or 0 (au_folded au') a = dget_or 0 (au_folded au) a + lines_delta (jt_Lines t) a"
    "asset_delta (jt_Lines t) x = 0" "jt_PreviousHash t = au_previousHash au" "jt_Hash t = hashTransaction t"
    "au_previousHash au' = jt_Hash t" "dget (au_seenEffects au) (jt_EffectID t) = None"
    "au_seenEffects au' = dset (jt_EffectID t) () (au_seenEffects au)"
proof -
  obtain P F where l: "audit_lines (jt_ID t) (jt_Lines t) dempty (au_folded au) = Inr (P, F)"
      "first_error unbalanced_asset (entries P) = None"
    and rest: "au_folded au' = F" "jt_PreviousHash t = au_previousHash au" "jt_Hash t = hashTransaction t"
      "au_previousHash au' = jt_Hash t" "dget (au_seenEffects au) (jt_EffectID t) = None"
      "au_seenEffects au' = dset (jt_EffectID t) () (au_seenEffects au)"
    using assms by (auto simp: audit_transaction_def split: if_splits sum.splits option.splits prod.splits)
  show "dget_or 0 (au_folded au') a = dget_or 0 (au_folded au) a + lines_delta (jt_Lines t) a"
    using audit_lines_folded [OF l(1)] rest(1) by simp
  show "asset_delta (jt_Lines t) x = 0"
    using audit_lines_totals [OF l(1), of x] balanced_totals [OF l(2), of x] by simp
qed (use assms in \<open>auto simp: audit_transaction_def split: if_splits sum.splits option.splits prod.splits\<close>)

lemma audit_journal_sound:
  "audit_journal k j au = Inr au' \<Longrightarrow>
     dget_or 0 (au_folded au') a = dget_or 0 (au_folded au) a + replayed j a
     \<and> list_all (\<lambda>t. asset_delta (jt_Lines t) x = 0) j \<and> chained (au_previousHash au) j
     \<and> au_previousHash au' = (if j = [] then au_previousHash au else jt_Hash (last j))
     \<and> distinct (map jt_EffectID j) \<and> (\<forall>t \<in> set j. dget (au_seenEffects au) (jt_EffectID t) = None)"
proof (induction j arbitrary: k au)
  case (Cons t j)
  then obtain au1 where au1: "audit_transaction k t au = Inr au1" "audit_journal (Suc k) j au1 = Inr au'"
    by (auto split: sum.splits)
  show ?case
    using audit_transaction_sound [OF au1(1)] Cons.IH [OF au1(2)]
    by (auto simp: replayed_def DAList.lookup_update split: if_splits)
qed (simp add: replayed_def)

section \<open>Escrow\<close>

lemma sum_rights_sound:
  "sum_rights w rs acc = Inr v \<Longrightarrow>
     v = acc + sum_list (map (\<lambda>(n, r). rs_rights r) rs) \<and> (\<forall>(n, r) \<in> set rs. 0 \<le> rs_rights r)"
proof (induction rs arbitrary: acc)
  case (Cons p rs)
  obtain n r where "p = (n, r)" by (cases p)
  with Cons show ?case by (fastforce simp: Amount_Add_Inr split: if_splits sum.splits)
qed simp

lemma sum_transit_sound:
  "sum_transit w ts acc = Inr v \<Longrightarrow>
     v = acc + sum_list (map (\<lambda>(i, t). if tr_inTransit t then tc_Amount (tr_certificate t) else 0) ts)"
proof (induction ts arbitrary: acc)
  case (Cons p ts)
  obtain i t where p: "p = (i, t)" by (cases p)
  with Cons.prems obtain u where u: "check_transfer w i t acc = Inr u" "sum_transit w ts u = Inr v"
    by (auto split: sum.splits)
  have "u = acc + (if tr_inTransit t then tc_Amount (tr_certificate t) else 0)"
    using u(1) by (auto simp: check_transfer_def Amount_Add_Inr split: if_splits sum.splits)
  with Cons.IH [OF u(2)] show ?case by (simp add: p)
qed simp

lemma first_some_None: "first_some xs = None \<longleftrightarrow> (\<forall>x \<in> set xs. x = None)"
  by (induction xs) (auto split: option.splits)

lemma AssertAll_parts:
  assumes "AssertAllFinancialInvariants w = None"
  obtains au where "audit_journal 0 (w_journal w) audit_start = Inr au" "check_head w au = None"
    "check_folded w au = None" "check_balances w au = None" "check_available w = None" "check_escrow w = None"
  using assms
  by (auto simp: AssertAllFinancialInvariants_def first_some_None simp del: first_some.simps split: sum.splits)

lemma balances_replayed:
  assumes "audit_journal 0 (w_journal w) audit_start = Inr au" "check_folded w au = None" "check_balances w au = None"
  shows "dget_or 0 (w_balances w) a = replayed (w_journal w) a"
proof -
  have folded: "dget_or 0 (w_balances w) a = v" if "dget (au_folded au) a = Some v" for v
    using assms(2) that unfolding check_folded_def first_error_entries by (auto split: if_splits)
  have balance: "v = dget_or 0 (au_folded au) a" if "dget (w_balances w) a = Some v" for v
    using assms(3) that unfolding check_balances_def first_error_entries by (auto split: if_splits)
  have "dget_or 0 (w_balances w) a = dget_or 0 (au_folded au) a"
    using folded balance by (cases "dget (au_folded au) a"; cases "dget (w_balances w) a") (auto simp: dget_or_def)
  then show ?thesis using audit_journal_sound [OF assms(1)] by (simp add: audit_start_def)
qed

lemma filter_distinct: "distinct xs \<Longrightarrow> length (filter (\<lambda>x. x = e) xs) \<le> 1"
  by (induction xs) (auto simp: filter_empty_conv)

lemma EffectCount_distinct: "distinct (map jt_EffectID (w_journal w)) \<Longrightarrow> EffectCount e w \<le> 1"
proof -
  assume "distinct (map jt_EffectID (w_journal w))"
  then have "length (filter (\<lambda>x. x = e) (map jt_EffectID (w_journal w))) \<le> 1"
    by (rule filter_distinct)
  then show ?thesis by (simp add: EffectCount_def filter_map comp_def)
qed

lemma escrow_sound:
  assumes "check_escrow w = None" "check_available w = None"
  shows "World_Balance UserAccount w + w_creditLimit w = w_unallocated w
      + dict_sum (\<lambda>_ r. rs_rights r) (w_regions w)
      + dict_sum (\<lambda>_ t. if tr_inTransit t then tc_Amount (tr_certificate t) else 0) (w_transfers w)"
    "0 \<le> World_Balance UserAccount w + w_creditLimit w" "0 \<le> World_Rights n w"
proof -
  obtain e i where e: "sum_rights w (entries (w_regions w)) (w_unallocated w) = Inr e"
      "sum_transit w (entries (w_transfers w)) 0 = Inr i" "e + i = w_authorityTotal w"
    using assms(1) by (auto simp: check_escrow_def Amount_Add_Inr split: sum.splits if_splits)
  have a: "World_Balance UserAccount w + w_creditLimit w = w_authorityTotal w"
      "0 \<le> World_Balance UserAccount w + w_creditLimit w"
    using assms(2) by (auto simp: check_available_def World_Balance_def Amount_Add_Inr split: sum.splits if_splits)
  show "World_Balance UserAccount w + w_creditLimit w = w_unallocated w
      + dict_sum (\<lambda>_ r. rs_rights r) (w_regions w)
      + dict_sum (\<lambda>_ t. if tr_inTransit t then tc_Amount (tr_certificate t) else 0) (w_transfers w)"
    using sum_rights_sound [OF e(1)] sum_transit_sound [OF e(2)] e(3) a(1) by (simp add: dict_sum_def)
  show "0 \<le> World_Balance UserAccount w + w_creditLimit w" by (rule a(2))
  show "0 \<le> World_Rights n w"
    using sum_rights_sound [OF e(1)] by (auto simp: World_Rights_def mem_entries_iff split: option.splits)
qed

end
