(* ===== verification/Sim_Properties.thy ===== *)
theory Sim_Properties
  imports Sim_Retry Sim_Audit
begin

text \<open>
  The properties of the failure simulator: what the auditor accepts, conservation of money and rights,
  exactly-once effects, idempotent retries, and what a payment does on each of its outcomes.
\<close>

section \<open>An example\<close>

definition example_config :: Config where
  "example_config = \<lparr>cfg_Asset = ''USD'', cfg_InitialBalance = 100, cfg_CreditLimit = 20, cfg_Unallocated = 30,
     cfg_RegionalRights = dset ''A'' 90 dempty, cfg_CertificateKey = ''key''\<rparr>"

definition example_regions :: "(string, regionState) dict" where
  "example_regions = dset ''A'' \<lparr>rs_epoch = 1, rs_running = True, rs_rights = 90\<rparr> default_regions"

definition example_world :: World where
  "example_world = fst (postLocked ''genesis'' ''GENESIS''
     (requestFingerprint [''GENESIS'', ''USD'', Amount_String 100, Amount_String 20])
     (genesis_lines ''USD'' 100 120 30 example_regions) (empty_world example_config 7 120 example_regions))"

definition example_fence :: WFence where
  "example_fence = \<lparr>fence_Region = ''A'', fence_Epoch = 1\<rparr>"

text \<open>The client pays, the response is lost, the region crashes and restarts, and the client tries again.\<close>

definition example_ops :: "sim_op list" where
  "example_ops = [OpLoseResponse ''k'', OpPay example_fence ''k'' ''p1'' 40, OpCrashRegion ''A'', OpRestartRegion ''A'',
     OpPay \<lparr>fence_Region = ''A'', fence_Epoch = 2\<rparr> ''k'' ''p1'' 40]"

lemma example_lines:
  "case post_lines dempty (genesis_lines ''USD'' 100 120 30 example_regions) dempty dempty of
     Inl e \<Rightarrow> False | Inr (P, Q) \<Rightarrow> first_error unbalanced_asset (entries P) = None"
  "2 \<le> length (genesis_lines ''USD'' 100 120 30 example_regions)"
  by code_simp+

lemma example_init:
  "init_regions (entries (cfg_RegionalRights example_config)) 30 default_regions = Inr (120, example_regions)"
  by (simp add: example_config_def example_regions_def DAList.empty.rep_eq DAList.update.rep_eq fitsDecimal38_iff)

lemma example_posted:
  obtains r where "postLocked ''genesis'' ''GENESIS''
      (requestFingerprint [''GENESIS'', ''USD'', Amount_String 100, Amount_String 20])
      (genesis_lines ''USD'' 100 120 30 example_regions) (empty_world example_config 7 120 example_regions) = (example_world, Inr r)"
proof -
  obtain P Q where "post_lines dempty (genesis_lines ''USD'' 100 120 30 example_regions) dempty dempty = Inr (P, Q)"
      "first_error unbalanced_asset (entries P) = None"
    using example_lines(1) by (auto split: sum.splits)
  then show thesis
    using example_lines(2) that by (auto simp: example_world_def postLocked_def empty_world_def Let_def)
qed

lemma example_NewWorld: "valid_config example_config" "NewWorld example_config 7 = Inr example_world"
proof -
  have c: "cfg_Asset example_config = ''USD''" "cfg_InitialBalance example_config = 100" "cfg_CreditLimit example_config = 20"
    "cfg_Unallocated example_config = 30" by (simp_all add: example_config_def)
  have "genesis_lines ''USD'' 100 120 30 example_regions \<noteq> []" using example_lines(2) by auto
  moreover obtain r where "postLocked ''genesis'' ''GENESIS''
      (requestFingerprint [''GENESIS'', ''USD'', Amount_String 100, Amount_String 20])
      (genesis_lines ''USD'' 100 120 30 example_regions) (empty_world example_config 7 120 example_regions) = (example_world, Inr r)"
    by (rule example_posted)
  ultimately show "NewWorld example_config 7 = Inr example_world"
    by (simp add: NewWorld_def c example_init fitsDecimal38_iff Let_def)
  show "valid_config example_config"
    by (simp add: valid_config_def example_config_def valid_utf8_all_ascii DAList.empty.rep_eq DAList.update.rep_eq)
qed

lemma example_world_facts:
  "length (w_journal example_world) = 1" "w_regions example_world = example_regions" "w_idempotency example_world = dempty"
  "w_payments example_world = dempty" "w_creditLimit example_world = 20" "w_authorityTotal example_world = 120"
  "w_crashBeforeCommit example_world = dempty" "hasQuorumLocked example_world" "w_asset example_world = ''USD''"
  "w_authorityAsset example_world = ''AUTHORITY/USD''" "dget_or 0 (w_balances example_world) UserAccount = 100"
  "dget_or 0 (w_balances example_world) MerchantAccount = 0" "dget_or 0 (w_balances example_world) AuthorityConsumedAccount = 0"
  "dget_or 0 (w_balances example_world) (RegionalAuthorityAccount ''A'') = 90"
  "w_crashAfterCommit example_world = dempty" "w_loseResponses example_world = dempty"
  "dget (w_effects example_world) (pay_effect i) = None"
proof -
  have fresh: "dget (w_effects (empty_world example_config 7 120 example_regions)) ''genesis'' = None"
    by (simp add: empty_world_def)
  obtain r where p: "posted ''genesis'' (requestFingerprint [''GENESIS'', ''USD'', Amount_String 100, Amount_String 20])
      (genesis_lines ''USD'' 100 120 30 example_regions) r (empty_world example_config 7 120 example_regions) example_world"
    by (rule example_posted) (rule that, erule postLocked_posted [OF _ fresh])
  let ?w = "empty_world example_config 7 120 example_regions"
  obtain b t x where b: "\<And>a. dget_or 0 b a = dget_or 0 (w_balances ?w) a
        + lines_delta (genesis_lines ''USD'' 100 120 30 example_regions) a"
      "example_world = ?w\<lparr>w_balances := b, w_sequence := w_sequence ?w + 1, w_headHash := jt_Hash t,
        w_journal := w_journal ?w @ [t], w_effects := dset ''genesis'' x (w_effects ?w)\<rparr>"
    by (rule postedE [OF p]) blast
  show "length (w_journal example_world) = 1" "w_regions example_world = example_regions"
    "w_idempotency example_world = dempty"
    "w_payments example_world = dempty" "w_creditLimit example_world = 20" "w_authorityTotal example_world = 120"
    "w_crashBeforeCommit example_world = dempty" "w_crashAfterCommit example_world = dempty"
    "w_loseResponses example_world = dempty" "w_asset example_world = ''USD''"
    "w_authorityAsset example_world = ''AUTHORITY/USD''" "dget (w_effects example_world) (pay_effect i) = None"
    by (simp_all add: b(2) empty_world_def example_config_def authorityAssetPrefix_def DAList.lookup_update)
  have "hasQuorumLocked ?w" by code_simp
  then show "hasQuorumLocked example_world" by (simp add: b(2) hasQuorumLocked_def)
  have "lines_delta (genesis_lines ''USD'' 100 120 30 example_regions) UserAccount = 100"
    "lines_delta (genesis_lines ''USD'' 100 120 30 example_regions) MerchantAccount = 0"
    "lines_delta (genesis_lines ''USD'' 100 120 30 example_regions) AuthorityConsumedAccount = 0"
    "lines_delta (genesis_lines ''USD'' 100 120 30 example_regions) (RegionalAuthorityAccount ''A'') = 90"
    by code_simp+
  then show "dget_or 0 (w_balances example_world) UserAccount = 100"
    "dget_or 0 (w_balances example_world) MerchantAccount = 0" "dget_or 0 (w_balances example_world) AuthorityConsumedAccount = 0"
    "dget_or 0 (w_balances example_world) (RegionalAuthorityAccount ''A'') = 90"
    by (simp_all add: b empty_world_def)
qed

lemma example_payment_lines:
  obtains P Q where "post_lines (w_balances example_world) (payment_lines ''A'' 40 example_world) dempty dempty = Inr (P, Q)"
    "first_error unbalanced_asset (entries P) = None"
proof -
  have acc: "UserAccount \<noteq> []" "MerchantAccount \<noteq> []" "AuthorityConsumedAccount \<noteq> []" "RegionalAuthorityAccount n \<noteq> []"
    "MerchantAccount \<noteq> UserAccount" "AuthorityConsumedAccount \<noteq> UserAccount" "RegionalAuthorityAccount n \<noteq> UserAccount"
    "AuthorityConsumedAccount \<noteq> MerchantAccount" "RegionalAuthorityAccount n \<noteq> MerchantAccount"
    "AuthorityConsumedAccount \<noteq> RegionalAuthorityAccount n" "Debit \<noteq> Credit" "Credit \<noteq> Debit" for n
    by (simp_all add: account_defs Debit_def Credit_def)
  show thesis
    using that acc
    by (simp add: payment_lines_def mk_line_def example_world_facts fitsDecimal38_iff DAList.lookup_update
        DAList.update.rep_eq DAList.empty.rep_eq unbalanced_asset_def)
qed

lemma example_payment:
  obtains w1 r1 where "PayWithFence example_fence ''k'' ''p1'' 40 example_world = (w1, r1, None)" "\<not> rc_Duplicate r1"
    "requireWriterLocked example_fence w1 = Inr \<lparr>rs_epoch = 1, rs_running = True, rs_rights = 50\<rparr>"
    "w_loseResponses w1 = dempty"
proof -
  have reg: "dget example_regions ''A'' = Some \<lparr>rs_epoch = 1, rs_running = True, rs_rights = 90\<rparr>"
    by (simp add: example_regions_def)
  then have st: "requireWriterLocked example_fence example_world = Inr \<lparr>rs_epoch = 1, rs_running = True, rs_rights = 90\<rparr>"
    by (simp add: requireWriterLocked_def example_fence_def example_world_facts)
  let ?f = "requestFingerprint [''PAYMENT'', ''p1'', Amount_String 40]"
  obtain P Q where "post_lines (w_balances example_world) (payment_lines ''A'' 40 example_world) dempty dempty = Inr (P, Q)"
    "first_error unbalanced_asset (entries P) = None" by (rule example_payment_lines)
  then obtain w1 r1 where p: "postLocked (pay_effect ''p1'') ''PAYMENT_CAPTURE'' ?f (payment_lines ''A'' 40 example_world)
      example_world = (w1, Inr r1)"
    using example_world_facts(17) [of "''p1''"] by (simp add: postLocked_def payment_lines_def Let_def)
  have new: "posted (pay_effect ''p1'') ?f (payment_lines ''A'' 40 example_world) r1 example_world w1"
    using p example_world_facts(17) by (rule postLocked_posted)
  have counters: "consumeCounter dempty key = (False, dempty)" for key by (simp add: consumeCounter_def)
  have w1: "w_crashAfterCommit w1 = dempty" "w_loseResponses w1 = dempty" "w_regions w1 = example_regions"
    "hasQuorumLocked w1" "\<not> rc_Duplicate r1"
    using new example_world_facts(2,8,15,16) by (auto simp: posted_def hasQuorumLocked_def)
  have same: "example_world\<lparr>w_crashBeforeCommit := dempty\<rparr> = example_world"
    by (subst example_world_facts(7) [symmetric]) simp
  have "PayWithFence example_fence ''k'' ''p1'' 40 example_world = finishPayment example_fence ''k'' ''p1'' 40 50 80 ?f r1 w1"
    using st p example_world_facts(17) [of "''p1''"]
    by (simp add: PayWithFence_def commitPayment_def replayEffectLocked_def example_world_facts counters fitsDecimal38_iff
        example_fence_def same Let_def)
  then show thesis
    using w1 reg that
    by (simp add: finishPayment_def Let_def counters recordIdempotency_def addOutboxLocked_def setRights_def
        requireWriterLocked_def example_fence_def dget_dmodify hasQuorumLocked_def)
qed

lemma PayWithFence_len: "length (w_journal (fst (PayWithFence fence key i a w))) \<le> Suc (length (w_journal w))"
proof -
  obtain w' r err where p: "PayWithFence fence key i a w = (w', r, err)" by (metis prod.collapse)
  then show ?thesis
  proof (cases rule: PayWithFence_cases)
    case (paid st c w1 r0)
    have "w_journal w' = w_journal w1"
      using finishPayment_journal [of fence key i a "rs_rights st - a" "w_authorityTotal w - a"] paid(9)
      by (metis fst_conv)
    then show ?thesis using posted_journal [OF paid(6)] p by simp
  qed (simp_all add: p)
qed

lemma example_run:
  obtains w where "sim_steps example_ops example_world = Some w" "length (w_journal w) < 2 ^ 64"
    "inj_on requestFingerprint (requests example_ops)" "list_all op_valid example_ops" "Suc (length example_ops) < 2 ^ 64"
proof -
  let ?f2 = "\<lparr>fence_Region = ''A'', fence_Epoch = 2\<rparr> :: WFence"
  define w1 where "w1 = fst (PayWithFence example_fence ''k'' ''p1'' 40 (World_LoseResponse ''k'' example_world))"
  define w2 where "w2 = fst (RestartRegion ''A'' (fst (CrashRegion ''A'' w1)))"
  have j1: "length (w_journal w1) \<le> 2"
    using PayWithFence_len [of example_fence "''k''" "''p1''" 40 "World_LoseResponse ''k'' example_world"] example_world_facts(1)
    by (simp add: w1_def World_LoseResponse_def)
  have "w_journal w2 = w_journal w1" by (simp add: w2_def RestartRegion_def CrashRegion_def)
  with j1 PayWithFence_len [of ?f2 "''k''" "''p1''" 40 w2]
  have "length (w_journal (fst (PayWithFence ?f2 ''k'' ''p1'' 40 w2))) < 2 ^ 64" by simp
  moreover have "sim_steps example_ops example_world = Some (fst (PayWithFence ?f2 ''k'' ''p1'' 40 w2))"
    by (simp add: sim_steps_def example_ops_def w1_def w2_def)
  moreover have "requests example_ops = {[''PAYMENT'', ''p1'', Amount_String 40]}"
    by (auto simp: requests_def example_ops_def)
  ultimately show thesis by (intro that) (auto simp: example_ops_def)
qed

lemma example_AssertAll: "AssertAllFinancialInvariants example_world = None"
  by (rule good_AssertAll [OF NewWorld_good [OF example_NewWorld(2,1)]])

section \<open>The auditor\<close>

text \<open>
  C3: \<^verbatim>\<open>AssertAllFinancialInvariants\<close> returns nil after every run. The run starts in a state \<^verbatim>\<open>NewWorld\<close> made,
  executes any list of operations and faults in any order, under any fences, stale ones included, and
  the journal has not exhausted the 64-bit commit sequence. The only assumption on SHA-256 is that it
  separates the requests that occur in the run; names that travel through JSON are valid UTF-8.
\<close>
theorem audit_accepts_every_run:
  assumes "valid_config config" "NewWorld config seed = Inr w0"
    and "list_all op_valid ops" "inj_on requestFingerprint (requests ops)" "Suc (length ops) < 2 ^ 64"
    and "sim_steps ops w0 = Some w" "length (w_journal w) < 2 ^ 64"
  shows "AssertAllFinancialInvariants w = None"
  using run_good [OF assms] by (rule good_AssertAll)

theorem audit_accepts_every_run_witness:
  "valid_config example_config \<and> NewWorld example_config 7 = Inr example_world
   \<and> (\<exists>w. sim_steps example_ops example_world = Some w \<and> AssertAllFinancialInvariants w = None)"
proof -
  obtain w where w: "sim_steps example_ops example_world = Some w" "length (w_journal w) < 2 ^ 64"
    "inj_on requestFingerprint (requests example_ops)" "list_all op_valid example_ops" "Suc (length example_ops) < 2 ^ 64"
    by (rule example_run)
  with audit_accepts_every_run [OF example_NewWorld w(4,3,5,1,2)] example_NewWorld show ?thesis by blast
qed

text \<open>
  C16: No operation panics in a reachable state: \<^verbatim>\<open>AdvanceSaga\<close> and \<^verbatim>\<open>AdvanceLogicalTicks\<close>, the two operations
  that dereference a pointer read from a map without a test, find it non-nil after every run.
\<close>
theorem run_never_panics:
  assumes "valid_config config" "NewWorld config seed = Inr w0"
    and "list_all op_valid ops" "inj_on requestFingerprint (requests ops)" "Suc (length ops) < 2 ^ 64"
    and "sim_steps ops w0 = Some w" "length (w_journal w) < 2 ^ 64"
  shows "AdvanceSaga sagaID w \<noteq> None \<and> AdvanceLogicalTicks ticks w \<noteq> None"
proof
  show "AdvanceSaga sagaID w \<noteq> None" by (rule AdvanceSaga_adv [OF assms(4), of sagaID w]) simp
  show "AdvanceLogicalTicks ticks w \<noteq> None"
    by (rule AdvanceLogicalTicks_adv [OF good_homed [OF run_good [OF assms]], of ticks]) simp
qed

theorem run_never_panics_witness:
  "\<exists>w. sim_steps example_ops example_world = Some w \<and> AdvanceSaga ''s'' w \<noteq> None \<and> AdvanceLogicalTicks 3 w \<noteq> None"
proof -
  obtain w where w: "sim_steps example_ops example_world = Some w" "length (w_journal w) < 2 ^ 64"
    "inj_on requestFingerprint (requests example_ops)" "list_all op_valid example_ops" "Suc (length example_ops) < 2 ^ 64"
    by (rule example_run)
  with run_never_panics [OF example_NewWorld w(4,3,5,1,2), of "''s''" 3] show ?thesis by blast
qed

text \<open>
  C14: What a nil result of \<^verbatim>\<open>AssertAllFinancialInvariants\<close> says of the journal, in an arbitrary state. The
  materialised balance of every account is the replay of the journal; the transactions form a hash
  chain from the zero hash to the head hash; every transaction is balanced in every asset; and no
  economic effect occurs twice.
\<close>
theorem auditor_journal_sound:
  assumes "AssertAllFinancialInvariants w = None"
  shows "World_Balance a w = replayed (World_Journal w) a
    \<and> chained zero_hash (World_Journal w)
    \<and> w_headHash w = (if World_Journal w = [] then zero_hash else jt_Hash (last (World_Journal w)))
    \<and> list_all (\<lambda>t. asset_delta (jt_Lines t) x = 0) (World_Journal w)
    \<and> EffectCount e w \<le> 1"
proof -
  obtain au where au: "audit_journal 0 (w_journal w) audit_start = Inr au" "check_head w au = None"
    "check_folded w au = None" "check_balances w au = None" "check_available w = None" "check_escrow w = None"
    using assms by (rule AssertAll_parts)
  show ?thesis
    using balances_replayed [OF au(1,3,4), of a] audit_journal_sound [OF au(1), of a x] EffectCount_distinct au(2)
    by (auto simp: World_Balance_def World_Journal_def audit_start_def check_head_def split: if_splits)
qed

theorem auditor_journal_sound_witness:
  "World_Balance UserAccount example_world = replayed (World_Journal example_world) UserAccount
   \<and> EffectCount ''genesis'' example_world \<le> 1"
  using auditor_journal_sound [OF example_AssertAll, of UserAccount "''USD''" "''genesis''"] by blast

text \<open>
  C15: What a nil result of \<^verbatim>\<open>AssertAllFinancialInvariants\<close> says of the spending rights: no region holds
  negative rights, the customer is never below the credit limit, and the unallocated authority, the
  rights of all regions and the amounts in transit add up to the spendable balance, so no right is
  lost or created by a transfer.
\<close>
theorem auditor_escrow_sound:
  assumes "AssertAllFinancialInvariants w = None"
  shows "0 \<le> World_Rights region w \<and> 0 \<le> World_Balance UserAccount w + w_creditLimit w
    \<and> World_Balance UserAccount w + w_creditLimit w = w_unallocated w
      + dict_sum (\<lambda>_ r. rs_rights r) (w_regions w)
      + dict_sum (\<lambda>_ t. if tr_inTransit t then tc_Amount (tr_certificate t) else 0) (w_transfers w)"
  using assms by (rule AssertAll_parts) (use escrow_sound in blast)

theorem auditor_escrow_sound_witness:
  "0 \<le> World_Rights ''A'' example_world \<and> 0 \<le> World_Balance UserAccount example_world + w_creditLimit example_world"
  using auditor_escrow_sound [OF example_AssertAll, of "''A''"] by blast

section \<open>Payments\<close>

lemma finishPayment_record:
  assumes "finishPayment fence key i a nr na f r0 w1 = (w', r, err)"
  shows "dget (w_idempotency w') key = Some \<lparr>id_requestHash = f, id_receipt = r\<rparr>" "r = r0\<lparr>rc_IdempotencyKey := key\<rparr>"
    "committed err"
  using assms
  by (auto simp: finishPayment_def Let_def recordIdempotency_def onNetwork_def setRunning_def split: prod.splits if_splits)

lemma PayWithFence_record:
  assumes "PayWithFence fence key i a w = (w', r, err)" "committed err"
  shows "\<exists>x. dget (w_idempotency w') key = Some x \<and> id_requestHash x = requestFingerprint [''PAYMENT'', i, Amount_String a]
    \<and> (id_receipt x)\<lparr>rc_Duplicate := True\<rparr> = r\<lparr>rc_Duplicate := True\<rparr>"
  using assms(1)
proof (cases rule: PayWithFence_cases)
  case (paid st c w1 r0)
  from finishPayment_record [OF paid(9)] show ?thesis by simp
qed (use assms(2) in \<open>simp_all add: recordIdempotency_def\<close>)

lemma PayWithFence_valid:
  assumes "PayWithFence fence key i a w = (w', r, err)" "committed err"
  shows "key \<noteq> [] \<and> i \<noteq> [] \<and> 0 < a"
proof (rule ccontr)
  assume "\<not> (key \<noteq> [] \<and> i \<noteq> [] \<and> 0 < a)"
  with assms show False
    by (auto simp: PayWithFence_def Let_def fail_def requireWriterLocked_def split: sum.splits option.splits if_splits)
qed

text \<open>
  C11: Retrying a payment is safe across faults. When a payment has committed, whatever was returned to the
  client (a receipt, a lost response or a crash after the commit), and after any further operations and
  faults the client repeats the request under the same key at a writable region, then it gets the whole
  receipt of the first attempt, marked as a duplicate, and the state of the world is the one before the retry in
  every component. The one exception is an injected loss of the response: it is used up, and the client
  gets \<^verbatim>\<open>ErrResponseLost\<close> beside the receipt.
\<close>
theorem retry_returns_original_receipt:
  assumes "PayWithFence fence key i a w = (w1, r1, e1)"
    and "e1 = None \<or> e1 = Some ErrResponseLost \<or> e1 = Some ErrCrashAfterCommit"
    and "sim_steps ops w1 = Some w2" "requireWriterLocked fence' w2 = Inr st"
  shows "PayWithFence fence' key i a w2 =
    (if 0 <s dget_or 0 (w_loseResponses w2) key
     then (w2\<lparr>w_loseResponses := dset key (dget_or 0 (w_loseResponses w2) key - 1) (w_loseResponses w2)\<rparr>,
           r1\<lparr>rc_Duplicate := True\<rparr>, Some ErrResponseLost)
     else (w2, r1\<lparr>rc_Duplicate := True\<rparr>, None))"
proof -
  have c: "committed e1" using assms(2) by auto
  obtain x where x: "dget (w_idempotency w1) key = Some x" "id_requestHash x = requestFingerprint [''PAYMENT'', i, Amount_String a]"
      "(id_receipt x)\<lparr>rc_Duplicate := True\<rparr> = r1\<lparr>rc_Duplicate := True\<rparr>"
    using PayWithFence_record [OF assms(1) c] by blast
  have "dget (w_idempotency w2) key = Some x"
    using sim_steps_kept [OF assms(3)] x(1) by (simp add: idem_kept_def)
  with assms(4) PayWithFence_valid [OF assms(1) c] x show ?thesis
    by (simp add: PayWithFence_def consumeCounter_def Let_def word_sless_alt word_sle_eq not_le)
qed

text \<open>The first retry meets a lost response, the second one does not and leaves the world alone.\<close>

theorem retry_returns_original_receipt_witness:
  "\<exists>w1 r1 w2 w3. PayWithFence example_fence ''k'' ''p1'' 40 example_world = (w1, r1, None)
     \<and> sim_steps [OpLoseResponse ''k''] w1 = Some w2
     \<and> PayWithFence example_fence ''k'' ''p1'' 40 w2 = (w3, r1\<lparr>rc_Duplicate := True\<rparr>, Some ErrResponseLost)
     \<and> PayWithFence example_fence ''k'' ''p1'' 40 w1 = (w1, r1\<lparr>rc_Duplicate := True\<rparr>, None)"
proof -
  obtain w1 r1 where p: "PayWithFence example_fence ''k'' ''p1'' 40 example_world = (w1, r1, None)"
    and w1: "requireWriterLocked example_fence w1 = Inr \<lparr>rs_epoch = 1, rs_running = True, rs_rights = 50\<rparr>"
    and none: "w_loseResponses w1 = dempty"
    by (rule example_payment)
  let ?w2 = "World_LoseResponse ''k'' w1"
  have step: "sim_steps [OpLoseResponse ''k''] w1 = Some ?w2" "sim_steps [] w1 = Some w1" by (simp_all add: sim_steps_def)
  have "requireWriterLocked example_fence ?w2 = Inr \<lparr>rs_epoch = 1, rs_running = True, rs_rights = 50\<rparr>"
    using w1 by (auto simp: requireWriterLocked_def World_LoseResponse_def hasQuorumLocked_def
        split: option.splits if_splits)
  moreover have "0 <s dget_or 0 (w_loseResponses ?w2) ''k''" "\<not> 0 <s dget_or 0 (w_loseResponses w1) ''k''"
    using none by (simp_all add: World_LoseResponse_def bump_def word_sless_alt)
  ultimately show ?thesis
    using p step retry_returns_original_receipt [OF p _ step(1)] retry_returns_original_receipt [OF p _ step(2) w1] by auto
qed

text \<open>
  C13: A payment that returns an error other than a lost response or a crash after the commit has no
  financial effect: journal, balances, effects, payments, idempotency records, outbox, the authority
  total and the rights of every region are as before.
\<close>
theorem failed_payment_changes_no_money:
  assumes "PayWithFence fence key i a w = (w', r, Some e)" "\<not> committedDespiteResponseError e"
  shows "w_journal w' = w_journal w \<and> w_balances w' = w_balances w \<and> w_effects w' = w_effects w
    \<and> w_payments w' = w_payments w \<and> w_idempotency w' = w_idempotency w \<and> w_outbox w' = w_outbox w
    \<and> w_authorityTotal w' = w_authorityTotal w \<and> World_Rights region w' = World_Rights region w"
  using assms(1)
proof (cases rule: PayWithFence_cases)
  case (crashed c)
  then show ?thesis
    by (simp add: onNetwork_def setRunning_def World_Rights_def dget_dmodify split: option.split)
next
  case (paid st c w1 r0)
  with assms(2) finishPayment_record(3) [OF paid(9)] show ?thesis by (simp add: committed_def)
qed (use assms(2) in \<open>simp_all add: committed_def World_Rights_def\<close>)

theorem failed_payment_changes_no_money_witness:
  "\<exists>w'. PayWithFence example_fence ''k'' ''p1'' 95 example_world = (w', zeroReceipt, Some ErrInsufficientRights)
     \<and> w_balances w' = w_balances example_world \<and> World_Rights ''A'' w' = World_Rights ''A'' example_world"
proof -
  have "requireWriterLocked example_fence example_world = Inr \<lparr>rs_epoch = 1, rs_running = True, rs_rights = 90\<rparr>"
    by (simp add: requireWriterLocked_def example_fence_def example_world_facts example_regions_def)
  then obtain w' where w': "PayWithFence example_fence ''k'' ''p1'' 95 example_world = (w', zeroReceipt, Some ErrInsufficientRights)"
    using example_world_facts(17) [of "''p1''"]
    by (simp add: PayWithFence_def commitPayment_def replayEffectLocked_def example_world_facts fitsDecimal38_iff
        consumeCounter_def fail_def Let_def)
  with failed_payment_changes_no_money [OF w', of "''A''"] show ?thesis by (simp add: committedDespiteResponseError_def)
qed

text \<open>
  C12: What a new payment does. When \<^verbatim>\<open>PayWithFence\<close> commits and the receipt is not a duplicate, the amount
  was covered by the spendable balance and by the rights of the region; it leaves the customer's
  account and the rights of that region and enters the merchant's account; nothing else of the rights
  changes; one journal transaction with the effect of this operation is appended, and the payment is
  recorded as captured with this receipt.
\<close>
theorem payment_moves_money:
  assumes "PayWithFence fence key i a w = (w', r, err)" "err = None \<or> committedDespiteResponseError (the err)"
    and "\<not> rc_Duplicate r"
  shows "0 < a \<and> a \<le> World_Balance UserAccount w + w_creditLimit w \<and> a \<le> World_Rights (fence_Region fence) w
    \<and> World_Balance UserAccount w' = World_Balance UserAccount w - a
    \<and> World_Balance MerchantAccount w' = World_Balance MerchantAccount w + a
    \<and> World_Rights region w' = World_Rights region w - (if region = fence_Region fence then a else 0)
    \<and> (\<exists>t. World_Journal w' = World_Journal w @ [t] \<and> jt_EffectID t = ''payment:'' @ i \<and> jt_ID t = rc_TransactionID r)
    \<and> map_option (\<lambda>p. (pm_captured p, pm_refunded p, pm_state p)) (World_Payment i w') = Some (a, 0, PaymentCaptured)"
  using assms(1)
proof (cases rule: PayWithFence_cases)
  case (failed c)
  then show ?thesis using assms(2) by (cases err) (auto simp: committed_def)
next
  case (crashed c)
  then show ?thesis using assms(2) by (simp add: committedDespiteResponseError_def)
next
  case (paid st c w1 r0)
  let ?ls = "payment_lines (fence_Region fence) a w"
  obtain b t where b: "\<And>x. dget_or 0 b x = dget_or 0 (w_balances w) x + lines_delta ?ls x"
      "jt_ID t = rc_TransactionID r0" "jt_EffectID t = pay_effect i" "w_balances w1 = b" "w_journal w1 = w_journal w @ [t]"
      "w_regions w1 = w_regions w" "\<not> rc_Duplicate r0"
    using paid(6) by (rule postedE) (use paid(6) in \<open>auto simp: posted_def\<close>)
  have st: "dget (w_regions w) (fence_Region fence) = Some st" by (rule requireWriter_region [OF paid(1)])
  have w': "w_balances w' = b" "w_journal w' = w_journal w @ [t]"
      "World_Rights region w' = (if region = fence_Region fence then rs_rights st - a else World_Rights region w)"
      "World_Payment i w' = Some (newPayment i (fence_Region fence) a r0)" "r = r0\<lparr>rc_IdempotencyKey := key\<rparr>"
    using paid(9) b st
    by (auto simp: finishPayment_def Let_def recordIdempotency_def addOutboxLocked_def setRights_def onNetwork_def
        setRunning_def World_Rights_def World_Payment_def dget_dmodify split: prod.splits if_splits option.splits)
  have "lines_delta ?ls UserAccount = - a" "lines_delta ?ls MerchantAccount = a"
    by (simp_all add: payment_lines_def account_defs)
  with w' b(1) st paid(2,7,8) b(2,3) show ?thesis
    by (simp add: World_Balance_def World_Journal_def World_Rights_def newPayment_def)
qed (use assms(3) in simp_all)

theorem payment_moves_money_witness:
  "\<exists>w1 r1. PayWithFence example_fence ''k'' ''p1'' 40 example_world = (w1, r1, None)
     \<and> World_Balance UserAccount w1 = 60 \<and> World_Rights ''A'' w1 = World_Rights ''A'' example_world - 40"
proof -
  obtain w1 r1 where p: "PayWithFence example_fence ''k'' ''p1'' 40 example_world = (w1, r1, None)" "\<not> rc_Duplicate r1"
    by (rule example_payment)
  from payment_moves_money [OF p(1) _ p(2), of "''A''"] p(1) show ?thesis
    by (simp add: World_Balance_def example_world_facts example_fence_def)
qed

section \<open>Fraud verdicts and the external processor\<close>

text \<open>
  \<^verbatim>\<open>sortStrings\<close>, the insertion sort in place that orders the due fraud verdicts, computes the sorted
  list of the library.
\<close>
theorem sortStrings_sorts: "sortStrings xs = sort xs"
  by (rule sortStrings_sort)

text \<open>The calls a client makes to the external processor.\<close>

datatype charge_op = DoCharge string amount | DoTimeout string

fun charge_step :: "charge_op \<Rightarrow> ExternalProcessor \<Rightarrow> ExternalProcessor" where
  "charge_step (DoCharge i a) p = fst (Charge i a p)"
| "charge_step (DoTimeout i) p = SucceedThenTimeout i p"

lemma charge_steps_keep:
  "dget (xp_results p) i = Some x \<Longrightarrow> dget (xp_results (fold charge_step ops p)) i = Some x"
proof (induction ops arbitrary: p)
  case (Cons op ops)
  have "dget (xp_results (charge_step op p)) i = Some x"
    using Cons.prems
    by (cases op) (auto simp: Charge_def SucceedThenTimeout_def Let_def DAList.lookup_update split: prod.splits option.splits)
  with Cons.IH show ?case by simp
qed simp

text \<open>
  C17: The external processor charges an operation once. When \<^verbatim>\<open>Charge\<close> has succeeded, even if the client saw
  a timeout, then after any other calls the same request returns the same amount and proof, marked as a
  duplicate, and changes nothing, and a request with another amount is refused as a conflict.
\<close>
theorem external_charge_once:
  assumes "Charge i a p = (p1, r, e)" "e = None \<or> e = Some ErrExternalTimeout" "p2 = fold charge_step ops p1"
  shows "(\<exists>r'. Charge i a p2 = (p2, r', None) \<and> xr_Duplicate r' \<and> xr_Amount r' = a \<and> xr_Proof r' = xr_Proof r
      \<and> xr_Succeeded r' = xr_Succeeded r)
    \<and> (b \<noteq> a \<longrightarrow> (\<forall>p3 r' e'. Charge i b p2 = (p3, r', e') \<longrightarrow> p3 = p2 \<and> e' \<noteq> None))"
proof -
  have v: "i \<noteq> []" "0 < a" using assms(1,2) by (auto simp: Charge_def split: if_splits)
  obtain x where x: "dget (xp_results p1) i = Some x" "xr_Amount x = a" "xr_Proof x = xr_Proof r"
      "xr_Succeeded x = xr_Succeeded r"
    using assms(1,2) v by (auto simp: Charge_def Let_def split: if_splits option.splits prod.splits)
  have "dget (xp_results p2) i = Some x" unfolding assms(3) by (rule charge_steps_keep [OF x(1)])
  with v x show ?thesis by (auto simp: Charge_def)
qed

theorem external_charge_once_witness:
  "\<exists>p1 r. Charge ''op'' 5 (SucceedThenTimeout ''op'' NewExternalProcessor) = (p1, r, Some ErrExternalTimeout)
     \<and> (\<exists>r'. Charge ''op'' 5 (fold charge_step [DoCharge ''other'' 1] p1)
          = (fold charge_step [DoCharge ''other'' 1] p1, r', None) \<and> xr_Duplicate r' \<and> xr_Proof r' = xr_Proof r)"
proof -
  obtain p1 r where p: "Charge ''op'' 5 (SucceedThenTimeout ''op'' NewExternalProcessor) = (p1, r, Some ErrExternalTimeout)"
    by (simp add: Charge_def SucceedThenTimeout_def NewExternalProcessor_def bump_def consumeCounter_def word_sless_alt
        word_sle_eq Let_def)
  with external_charge_once [OF p _ refl, where ops = "[DoCharge ''other'' 1]" and b = 5] show ?thesis by blast
qed

end
