(* ===== verification/Offline_Types.thy ===== *)
theory Offline_Types
  imports Hashing Ledger_Amount
begin

text \<open>
  The data of \<^verbatim>\<open>internal/offline\<close>: the types and validators of \<^verbatim>\<open>types.go\<close> and the canonical payloads and
  hashes of \<^verbatim>\<open>canonical.go\<close>. Signers and verifiers only ever see canonical payloads, so the lemmas show
  that a payload determines every field it is built from, that payloads of different kinds are
  different, and what the conservation check on a snapshot of the authority buckets accepts.

  A \<^verbatim>\<open>[32]byte\<close> is a string; \<open>array32\<close> says that it has the length its Go type gives it.
\<close>

section \<open>Constants and errors\<close>

definition AllowanceVersion :: uint16 where "AllowanceVersion = 1"

definition PresentationVersion :: uint16 where "PresentationVersion = 1"

definition ClosureVersion :: uint16 where "ClosureVersion = 1"

datatype offline_error =
    ErrInvalidArgument | ErrInvalidSignature | ErrInvalidPresentation | ErrInvalidClosure
  | ErrVerifierUnavailable | ErrAllowanceNotFound | ErrAllowanceConflict | ErrInsufficientRights
  | ErrNotIssued | ErrAlreadyRedeemed | ErrRedemptionConflict | ErrPostingMismatch
  | ErrAllowanceTerminal | ErrFenceConflict | ErrIncompleteClosure | ErrAcceptanceDomain
  | ErrPresentationSpent | ErrDeviceConflict | ErrCounterExhausted | ErrConservationViolation
  | ErrKeyLifecycleConflict

definition MaxInt64 :: uint64 where "MaxInt64 = 9223372036854775807"

definition validText :: "string \<Rightarrow> bool" where
  "validText value \<longleftrightarrow> value \<noteq> [] \<and> length value \<le> 1024"

definition checkedInt64 :: "uint64 \<Rightarrow> offline_error + 64 word" where
  "checkedInt64 value = (if value = 0 \<or> value > MaxInt64 then Inl ErrInvalidArgument else Inr value)"

section \<open>Types and their validators\<close>

record PresentationKeyBinding =
  pb_DeviceIdentityHash :: bytes
  pb_DeviceKeyID :: string

record ClosureKeyBinding =
  cb_AcceptanceDomain :: string
  cb_KeyID :: string

record Device =
  dev_AccountID :: string
  dev_AssetID :: string
  dev_OriginRegion :: string
  dev_DeviceIdentityHash :: bytes
  dev_IssuerEpoch :: uint64

definition Device_validate :: "Device \<Rightarrow> offline_error option" where
  "Device_validate d =
     (if \<not> validText (dev_AccountID d) \<or> \<not> validText (dev_AssetID d) \<or> \<not> validText (dev_OriginRegion d)
         \<or> dev_DeviceIdentityHash d = zero_hash \<or> dev_IssuerEpoch d = 0 \<or> dev_IssuerEpoch d > MaxInt64
      then Some ErrInvalidArgument else None)"

record IssueRequest =
  ir_AllowanceID :: string
  ir_AccountID :: string
  ir_AssetID :: string
  ir_OriginRegion :: string
  ir_DeviceIdentityHash :: bytes
  ir_Amount :: amount

definition IssueRequest_validate :: "IssueRequest \<Rightarrow> offline_error option" where
  "IssueRequest_validate r =
     (if \<not> validText (ir_AllowanceID r) \<or> \<not> validText (ir_AccountID r) \<or> \<not> validText (ir_AssetID r)
         \<or> \<not> validText (ir_OriginRegion r) \<or> ir_DeviceIdentityHash r = zero_hash \<or> Amount_Sign (ir_Amount r) \<le> 0
      then Some ErrInvalidArgument else None)"

record Allowance =
  al_Version :: uint16
  al_AllowanceID :: string
  al_AccountID :: string
  al_AssetID :: string
  al_OriginRegion :: string
  al_DeviceIdentityHash :: bytes
  al_Counter :: uint64
  al_Amount :: amount
  al_IssuerEpoch :: uint64
  al_KeyID :: string
  al_Signature :: bytes

definition Allowance_ValidatePayload :: "Allowance \<Rightarrow> offline_error option" where
  "Allowance_ValidatePayload a =
     (if al_Version a \<noteq> AllowanceVersion \<or> \<not> validText (al_AllowanceID a)
         \<or> \<not> validText (al_AccountID a) \<or> \<not> validText (al_AssetID a) \<or> \<not> validText (al_OriginRegion a)
         \<or> al_DeviceIdentityHash a = zero_hash \<or> al_Counter a = 0 \<or> al_Counter a > MaxInt64
         \<or> Amount_Sign (al_Amount a) \<le> 0 \<or> al_IssuerEpoch a = 0 \<or> al_IssuerEpoch a > MaxInt64
         \<or> \<not> validText (al_KeyID a)
      then Some ErrInvalidArgument else None)"

record VerifiedAllowance =
  va_allowance :: Allowance
  va_payload :: bytes
  va_payloadHash :: bytes

definition VerifiedAllowance_AllowanceID :: "VerifiedAllowance \<Rightarrow> string" where
  "VerifiedAllowance_AllowanceID v = al_AllowanceID (va_allowance v)"

record Presentation =
  ps_Version :: uint16
  ps_Allowance :: Allowance
  ps_AllowancePayloadHash :: bytes
  ps_MerchantAccountID :: string
  ps_AcceptanceDomain :: string
  ps_MerchantChallenge :: bytes
  ps_SettlementEpoch :: uint64
  ps_UploadFence :: uint64
  ps_PresentationCounter :: uint64
  ps_DeviceKeyID :: string
  ps_Signature :: bytes

definition Presentation_ValidatePayload :: "Presentation \<Rightarrow> offline_error option" where
  "Presentation_ValidatePayload p =
     (if ps_Version p \<noteq> PresentationVersion \<or> Allowance_ValidatePayload (ps_Allowance p) \<noteq> None
         \<or> ps_AllowancePayloadHash p = zero_hash \<or> \<not> validText (ps_MerchantAccountID p)
         \<or> \<not> validText (ps_AcceptanceDomain p) \<or> ps_MerchantChallenge p = zero_hash
         \<or> ps_SettlementEpoch p = 0 \<or> ps_SettlementEpoch p > MaxInt64
         \<or> ps_UploadFence p = 0 \<or> ps_UploadFence p > MaxInt64
         \<or> ps_PresentationCounter p = 0 \<or> ps_PresentationCounter p > MaxInt64
         \<or> \<not> validText (ps_DeviceKeyID p)
      then Some ErrInvalidArgument else None)"

record VerifiedPresentation =
  vp_presentation :: Presentation
  vp_allowance :: VerifiedAllowance
  vp_payload :: bytes
  vp_payloadHash :: bytes
  vp_presentationHash :: bytes
  vp_challengeHash :: bytes

definition VerifiedPresentation_AllowanceID :: "VerifiedPresentation \<Rightarrow> string" where
  "VerifiedPresentation_AllowanceID v = al_AllowanceID (ps_Allowance (vp_presentation v))"

definition VerifiedPresentation_MerchantAccountID :: "VerifiedPresentation \<Rightarrow> string" where
  "VerifiedPresentation_MerchantAccountID v = ps_MerchantAccountID (vp_presentation v)"

record RedemptionEffect =
  re_EffectID :: string
  re_LedgerTransactionID :: string
  re_PostingRequestHash :: bytes

definition RedemptionEffect_validate :: "RedemptionEffect \<Rightarrow> offline_error option" where
  "RedemptionEffect_validate e =
     (if \<not> validText (re_EffectID e) \<or> \<not> validText (re_LedgerTransactionID e)
         \<or> re_PostingRequestHash e = zero_hash
      then Some ErrInvalidArgument else None)"

record Redemption =
  rd_AllowanceID :: string
  rd_EffectHash :: bytes
  rd_Duplicate :: bool

type_synonym TerminalKind = string

definition Revoked :: TerminalKind where "Revoked = ''REVOKED''"

definition Expired :: TerminalKind where "Expired = ''EXPIRED''"

record DomainClosure =
  dc_Version :: uint16
  dc_AcceptanceDomain :: string
  dc_AccountID :: string
  dc_AssetID :: string
  dc_OriginRegion :: string
  dc_DeviceIdentityHash :: bytes
  dc_ClosedSettlementEpoch :: uint64
  dc_ClosedUploadFence :: uint64
  dc_KeyID :: string
  dc_Signature :: bytes

definition DomainClosure_ValidatePayload :: "DomainClosure \<Rightarrow> offline_error option" where
  "DomainClosure_ValidatePayload c =
     (if dc_Version c \<noteq> ClosureVersion \<or> \<not> validText (dc_AcceptanceDomain c)
         \<or> \<not> validText (dc_AccountID c) \<or> \<not> validText (dc_AssetID c) \<or> \<not> validText (dc_OriginRegion c)
         \<or> dc_DeviceIdentityHash c = zero_hash
         \<or> dc_ClosedSettlementEpoch c = 0 \<or> dc_ClosedSettlementEpoch c > MaxInt64
         \<or> dc_ClosedUploadFence c > MaxInt64 \<or> \<not> validText (dc_KeyID c)
      then Some ErrInvalidArgument else None)"

record FenceRequest =
  fr_AllowanceID :: string
  fr_ExpectedPayloadHash :: bytes
  fr_ExpectedIssuerEpoch :: uint64
  fr_ExpectedDeviceCounter :: uint64
  fr_Kind :: TerminalKind
  fr_PolicyEvidenceHash :: bytes
  fr_DomainClosures :: "DomainClosure list"

definition FenceRequest_validate :: "FenceRequest \<Rightarrow> offline_error option" where
  "FenceRequest_validate r =
     (if \<not> validText (fr_AllowanceID r) \<or> fr_ExpectedPayloadHash r = zero_hash
         \<or> fr_ExpectedIssuerEpoch r = 0 \<or> fr_ExpectedIssuerEpoch r > MaxInt64
         \<or> fr_ExpectedDeviceCounter r = 0 \<or> fr_ExpectedDeviceCounter r > MaxInt64
         \<or> fr_Kind r \<noteq> Revoked \<and> fr_Kind r \<noteq> Expired \<or> fr_PolicyEvidenceHash r = zero_hash
         \<or> fr_DomainClosures r = []
      then Some ErrInvalidArgument else None)"

record AcceptanceDomain =
  ad_Name :: string
  ad_ClosureKeyID :: string
  ad_FirstSettlementEpoch :: uint64
  ad_LastSettlementEpoch :: uint64

definition AcceptanceDomain_validate :: "AcceptanceDomain \<Rightarrow> offline_error option" where
  "AcceptanceDomain_validate d =
     (if \<not> validText (ad_Name d) \<or> \<not> validText (ad_ClosureKeyID d)
         \<or> ad_FirstSettlementEpoch d = 0 \<or> ad_FirstSettlementEpoch d > MaxInt64
         \<or> ad_LastSettlementEpoch d > MaxInt64
         \<or> ad_LastSettlementEpoch d \<noteq> 0 \<and> ad_LastSettlementEpoch d < ad_FirstSettlementEpoch d
      then Some ErrInvalidArgument else None)"

type_synonym KeyTerminationReason = string

definition KeyRetired :: KeyTerminationReason where "KeyRetired = ''RETIRED''"

definition KeyRevoked :: KeyTerminationReason where "KeyRevoked = ''REVOKED''"

record AcceptanceDomainKeyRotation =
  kr_AcceptanceDomain :: string
  kr_ExpectedKeyID :: string
  kr_NewKeyID :: string
  kr_EffectiveEpoch :: uint64
  kr_PriorKeyReason :: KeyTerminationReason

definition AcceptanceDomainKeyRotation_validate :: "AcceptanceDomainKeyRotation \<Rightarrow> offline_error option" where
  "AcceptanceDomainKeyRotation_validate r =
     (if \<not> validText (kr_AcceptanceDomain r) \<or> \<not> validText (kr_ExpectedKeyID r)
         \<or> \<not> validText (kr_NewKeyID r) \<or> kr_ExpectedKeyID r = kr_NewKeyID r
         \<or> kr_EffectiveEpoch r = 0 \<or> kr_EffectiveEpoch r > MaxInt64
         \<or> kr_PriorKeyReason r \<noteq> KeyRetired \<and> kr_PriorKeyReason r \<noteq> KeyRevoked
      then Some ErrInvalidArgument else None)"

record AcceptanceDomainKeyTermination =
  kt_AcceptanceDomain :: string
  kt_ExpectedKeyID :: string
  kt_EffectiveEpoch :: uint64
  kt_Reason :: KeyTerminationReason

definition AcceptanceDomainKeyTermination_validate :: "AcceptanceDomainKeyTermination \<Rightarrow> offline_error option" where
  "AcceptanceDomainKeyTermination_validate r =
     (if \<not> validText (kt_AcceptanceDomain r) \<or> \<not> validText (kt_ExpectedKeyID r)
         \<or> kt_EffectiveEpoch r = 0 \<or> kt_EffectiveEpoch r > MaxInt64
         \<or> kt_Reason r \<noteq> KeyRetired \<and> kt_Reason r \<noteq> KeyRevoked
      then Some ErrInvalidArgument else None)"

record verifiedClosure =
  vc_closure :: DomainClosure
  vc_payload :: bytes
  vc_payloadHash :: bytes
  vc_evidenceHash :: bytes

record verifiedClosureSet =
  cs_byDomain :: "(string, verifiedClosure) dict"
  cs_setHash :: bytes

record NonRedemptionProof =
  np_AllowanceID :: string
  np_Kind :: TerminalKind
  np_PayloadHash :: bytes
  np_IssuerEpoch :: uint64
  np_DeviceCounter :: uint64
  np_FenceVersion :: uint64
  np_PolicyEvidenceHash :: bytes
  np_ClosureSetHash :: bytes
  np_ProofHash :: bytes
  np_Duplicate :: bool

record ConservationSnapshot =
  sn_AccountID :: string
  sn_AssetID :: string
  sn_TotalAuthority :: amount
  sn_Unallocated :: amount
  sn_Regional :: amount
  sn_InTransit :: amount
  sn_OfflineIssued :: amount
  sn_FoldedOutstanding :: amount

definition ConservationSnapshot_Conserved :: "ConservationSnapshot \<Rightarrow> bool" where
  "ConservationSnapshot_Conserved s =
     (if Amount_Sign (sn_TotalAuthority s) < 0 \<or> Amount_Sign (sn_Unallocated s) < 0
         \<or> Amount_Sign (sn_Regional s) < 0 \<or> Amount_Sign (sn_InTransit s) < 0
         \<or> Amount_Sign (sn_OfflineIssued s) < 0 \<or> Amount_Sign (sn_FoldedOutstanding s) < 0
         \<or> Amount_Cmp (sn_OfflineIssued s) (sn_FoldedOutstanding s) \<noteq> 0
      then False
      else case Amount_Add (sn_Unallocated s) (sn_Regional s) of
        Inl _ \<Rightarrow> False
      | Inr acc \<Rightarrow>
        (case Amount_Add acc (sn_InTransit s) of
           Inl _ \<Rightarrow> False
         | Inr acc \<Rightarrow>
           (case Amount_Add acc (sn_OfflineIssued s) of
              Inl _ \<Rightarrow> False
            | Inr acc \<Rightarrow> Amount_Cmp acc (sn_TotalAuthority s) = 0)))"

section \<open>Canonical payloads\<close>

definition appendUint16 :: "bytes \<Rightarrow> uint16 \<Rightarrow> bytes" where
  "appendUint16 out value = out @ put_uint16 value"

definition appendUint32 :: "bytes \<Rightarrow> uint32 \<Rightarrow> bytes" where
  "appendUint32 out value = out @ put_uint32 value"

definition appendUint64 :: "bytes \<Rightarrow> uint64 \<Rightarrow> bytes" where
  "appendUint64 out value = out @ put_uint64 value"

definition appendBytes :: "bytes \<Rightarrow> bytes \<Rightarrow> bytes" where
  "appendBytes out value = appendUint32 out (word_of_nat (length value)) @ value"

definition appendString :: "bytes \<Rightarrow> string \<Rightarrow> bytes" where
  "appendString out value = appendUint32 out (word_of_nat (length value)) @ value"

definition allowanceDomain :: bytes where
  "allowanceDomain = ''payment-platform/offline-allowance/v1'' @ [CHR 0x00]"

definition effectDomain :: bytes where
  "effectDomain = ''payment-platform/offline-redemption-effect/v1'' @ [CHR 0x00]"

definition proofDomain :: bytes where
  "proofDomain = ''payment-platform/offline-non-redemption-proof/v1'' @ [CHR 0x00]"

definition presentationDomain :: bytes where
  "presentationDomain = ''payment-platform/offline-presentation/v1'' @ [CHR 0x00]"

definition presentationEnvelopeDomain :: bytes where
  "presentationEnvelopeDomain = ''payment-platform/offline-presentation-envelope/v1'' @ [CHR 0x00]"

definition closureDomain :: bytes where
  "closureDomain = ''payment-platform/offline-acceptance-domain-closure/v1'' @ [CHR 0x00]"

definition closureEvidenceDomain :: bytes where
  "closureEvidenceDomain = ''payment-platform/offline-closure-evidence/v1'' @ [CHR 0x00]"

definition closureSetDomain :: bytes where
  "closureSetDomain = ''payment-platform/offline-closure-set/v1'' @ [CHR 0x00]"

definition Allowance_CanonicalPayload :: "Allowance \<Rightarrow> offline_error + bytes" where
  "Allowance_CanonicalPayload a =
     (case Allowance_ValidatePayload a of
        Some err \<Rightarrow> Inl err
      | None \<Rightarrow>
          let out = allowanceDomain;
              out = appendUint16 out (al_Version a);
              out = foldl appendString out [al_AccountID a, al_AssetID a, al_OriginRegion a];
              out = out @ al_DeviceIdentityHash a;
              out = appendUint64 out (al_Counter a);
              out = appendString out (Amount_String (al_Amount a));
              out = appendUint64 out (al_IssuerEpoch a);
              out = appendString out (al_AllowanceID a);
              out = appendString out (al_KeyID a)
          in Inr out)"

definition Allowance_PayloadHash :: "Allowance \<Rightarrow> offline_error + bytes" where
  "Allowance_PayloadHash a =
     (case Allowance_CanonicalPayload a of Inl err \<Rightarrow> Inl err | Inr payload \<Rightarrow> Inr (sha256 payload))"

definition Presentation_CanonicalPayload :: "Presentation \<Rightarrow> offline_error + bytes" where
  "Presentation_CanonicalPayload p =
     (case Presentation_ValidatePayload p of
        Some err \<Rightarrow> Inl err
      | None \<Rightarrow>
        (case Allowance_PayloadHash (ps_Allowance p) of
           Inl _ \<Rightarrow> Inl ErrInvalidPresentation
         | Inr allowanceHash \<Rightarrow>
           if allowanceHash \<noteq> ps_AllowancePayloadHash p
              \<or> ps_SettlementEpoch p \<noteq> al_IssuerEpoch (ps_Allowance p)
              \<or> ps_UploadFence p \<noteq> al_Counter (ps_Allowance p)
           then Inl ErrInvalidPresentation
           else
             let out = presentationDomain;
                 out = appendUint16 out (ps_Version p);
                 out = out @ ps_AllowancePayloadHash p;
                 out = appendString out (ps_MerchantAccountID p);
                 out = appendString out (ps_AcceptanceDomain p);
                 out = out @ ps_MerchantChallenge p;
                 out = appendUint64 out (ps_SettlementEpoch p);
                 out = appendUint64 out (ps_UploadFence p);
                 out = appendUint64 out (ps_PresentationCounter p);
                 out = appendString out (ps_DeviceKeyID p)
             in Inr out))"

definition Presentation_PayloadHash :: "Presentation \<Rightarrow> offline_error + bytes" where
  "Presentation_PayloadHash p =
     (case Presentation_CanonicalPayload p of Inl err \<Rightarrow> Inl err | Inr payload \<Rightarrow> Inr (sha256 payload))"

definition presentationEnvelopeHash :: "bytes \<Rightarrow> bytes \<Rightarrow> bytes" where
  "presentationEnvelopeHash payload signature =
     sha256 (appendBytes (appendBytes presentationEnvelopeDomain payload) signature)"

definition DomainClosure_CanonicalPayload :: "DomainClosure \<Rightarrow> offline_error + bytes" where
  "DomainClosure_CanonicalPayload c =
     (case DomainClosure_ValidatePayload c of
        Some err \<Rightarrow> Inl err
      | None \<Rightarrow>
          let out = closureDomain;
              out = appendUint16 out (dc_Version c);
              out = appendString out (dc_AcceptanceDomain c);
              out = foldl appendString out [dc_AccountID c, dc_AssetID c, dc_OriginRegion c];
              out = out @ dc_DeviceIdentityHash c;
              out = appendUint64 out (dc_ClosedSettlementEpoch c);
              out = appendUint64 out (dc_ClosedUploadFence c);
              out = appendString out (dc_KeyID c)
          in Inr out)"

definition closureEnvelopeHash :: "bytes \<Rightarrow> bytes \<Rightarrow> bytes" where
  "closureEnvelopeHash payload signature =
     sha256 (appendBytes (appendBytes closureEvidenceDomain payload) signature)"

text \<open>
  The keys come from the map itself, so the lookup in the loop always finds an entry.
\<close>

definition closureSetPayload :: "(string, verifiedClosure) dict \<Rightarrow> bytes" where
  "closureSetPayload closures =
     (let domains = sort (map fst (entries closures)) in
      foldl (\<lambda>out domain.
               case dget closures domain of
                 None \<Rightarrow> out
               | Some value \<Rightarrow> appendString out domain @ vc_evidenceHash value)
        (appendUint32 closureSetDomain (word_of_nat (length domains))) domains)"

definition closureSetHash :: "(string, verifiedClosure) dict \<Rightarrow> bytes" where
  "closureSetHash closures = sha256 (closureSetPayload closures)"

definition RedemptionEffect_Hash :: "RedemptionEffect \<Rightarrow> offline_error + bytes" where
  "RedemptionEffect_Hash e =
     (case RedemptionEffect_validate e of
        Some err \<Rightarrow> Inl err
      | None \<Rightarrow>
          Inr (sha256 (appendString (appendString effectDomain (re_EffectID e)) (re_LedgerTransactionID e)
                 @ re_PostingRequestHash e)))"

definition hashProof :: "FenceRequest \<Rightarrow> uint64 \<Rightarrow> bytes \<Rightarrow> bytes" where
  "hashProof request fenceVersion closureHash =
     (let out = proofDomain;
          out = appendString out (fr_AllowanceID request);
          out = out @ fr_ExpectedPayloadHash request;
          out = appendUint64 out (fr_ExpectedIssuerEpoch request);
          out = appendUint64 out (fr_ExpectedDeviceCounter request);
          out = appendString out (fr_Kind request);
          out = appendUint64 out fenceVersion;
          out = out @ fr_PolicyEvidenceHash request;
          out = out @ closureHash
      in sha256 out)"

section \<open>Lemmas\<close>

named_theorems wire_simps \<open>the encoders as concatenations of self-delimiting fields\<close>

lemma appendString_framed [wire_simps]:
  "length v \<le> 1024 \<Longrightarrow> appendString out v = out @ framed 4 v"
  by (simp add: appendString_def appendUint32_def frame32)

lemma validText_length: "validText v \<Longrightarrow> length v \<le> 1024"
  by (simp add: validText_def)

lemma validText_int: "validText v \<Longrightarrow> int (length v) < 4294967296"
  by (simp add: validText_def)

text \<open>What the Go types of the fields guarantee.\<close>

definition Allowance_typed :: "Allowance \<Rightarrow> bool" where
  "Allowance_typed a \<longleftrightarrow> array32 (al_DeviceIdentityHash a) \<and> fitsDecimal38 (al_Amount a)"

definition Presentation_typed :: "Presentation \<Rightarrow> bool" where
  "Presentation_typed p \<longleftrightarrow>
     Allowance_typed (ps_Allowance p) \<and> array32 (ps_AllowancePayloadHash p) \<and> array32 (ps_MerchantChallenge p)"

definition DomainClosure_typed :: "DomainClosure \<Rightarrow> bool" where
  "DomainClosure_typed c \<longleftrightarrow> array32 (dc_DeviceIdentityHash c)"

lemma Allowance_CanonicalPayload_Inr:
  assumes "fitsDecimal38 (al_Amount a)"
  shows "Allowance_CanonicalPayload a = Inr p \<longleftrightarrow>
    Allowance_ValidatePayload a = None \<and>
    p = allowanceDomain @ put_uint16 (al_Version a) @ framed 4 (al_AccountID a) @ framed 4 (al_AssetID a)
          @ framed 4 (al_OriginRegion a) @ al_DeviceIdentityHash a @ put_uint64 (al_Counter a)
          @ framed 4 (Amount_String (al_Amount a)) @ put_uint64 (al_IssuerEpoch a)
          @ framed 4 (al_AllowanceID a) @ framed 4 (al_KeyID a)"
proof (cases "Allowance_ValidatePayload a = None")
  case True
  then have "length (al_AccountID a) \<le> 1024" "length (al_AssetID a) \<le> 1024" "length (al_OriginRegion a) \<le> 1024"
    "length (al_AllowanceID a) \<le> 1024" "length (al_KeyID a) \<le> 1024" "length (Amount_String (al_Amount a)) \<le> 1024"
    using length_Amount_String [OF assms]
    by (auto simp: Allowance_ValidatePayload_def validText_def split: if_splits)
  with True show ?thesis
    by (auto simp: Allowance_CanonicalPayload_def Let_def wire_simps appendUint16_def appendUint64_def)
qed (auto simp: Allowance_CanonicalPayload_def)

lemma Allowance_payload_inject:
  assumes "Allowance_typed a" "Allowance_typed b"
    and "Allowance_CanonicalPayload a = Inr p" "Allowance_CanonicalPayload b = Inr p"
  shows "a\<lparr>al_Signature := []\<rparr> = b\<lparr>al_Signature := []\<rparr>"
proof -
  have fits: "fitsDecimal38 (al_Amount a)" "fitsDecimal38 (al_Amount b)"
    using assms(1,2) by (simp_all add: Allowance_typed_def)
  note pa = Allowance_CanonicalPayload_Inr [OF fits(1), THEN iffD1, OF assms(3)]
    and pb = Allowance_CanonicalPayload_Inr [OF fits(2), THEN iffD1, OF assms(4)]
  have arr: "array32 (al_DeviceIdentityHash a)" "array32 (al_DeviceIdentityHash b)"
    using assms(1,2) by (simp_all add: Allowance_typed_def)
  have texts: "length (al_AccountID x) \<le> 1024 \<and> length (al_AssetID x) \<le> 1024 \<and> length (al_OriginRegion x) \<le> 1024
      \<and> length (al_AllowanceID x) \<le> 1024 \<and> length (al_KeyID x) \<le> 1024 \<and> al_Version x = AllowanceVersion"
    if "Allowance_ValidatePayload x = None" for x
    using that by (auto simp: Allowance_ValidatePayload_def validText_def split: if_splits)
  have amt: "length (Amount_String (al_Amount a)) \<le> 1024" "length (Amount_String (al_Amount b)) \<le> 1024"
    using length_Amount_String [OF fits(1)] length_Amount_String [OF fits(2)] by simp_all
  show ?thesis
    using pa pb texts [of a] texts [of b] amt arr
    by (simp add: framed4_append_inject framed4_inject array32_append_inject Amount_String_def
        inj_show_int)
qed

lemma Presentation_CanonicalPayload_Inr:
  "Presentation_CanonicalPayload q = Inr p \<longleftrightarrow>
    Presentation_ValidatePayload q = None \<and>
    Allowance_PayloadHash (ps_Allowance q) = Inr (ps_AllowancePayloadHash q) \<and>
    ps_SettlementEpoch q = al_IssuerEpoch (ps_Allowance q) \<and> ps_UploadFence q = al_Counter (ps_Allowance q) \<and>
    p = presentationDomain @ put_uint16 (ps_Version q) @ ps_AllowancePayloadHash q
          @ framed 4 (ps_MerchantAccountID q) @ framed 4 (ps_AcceptanceDomain q) @ ps_MerchantChallenge q
          @ put_uint64 (ps_SettlementEpoch q) @ put_uint64 (ps_UploadFence q)
          @ put_uint64 (ps_PresentationCounter q) @ framed 4 (ps_DeviceKeyID q)"
proof (cases "Presentation_ValidatePayload q = None")
  case True
  then have "length (ps_MerchantAccountID q) \<le> 1024" "length (ps_AcceptanceDomain q) \<le> 1024"
    "length (ps_DeviceKeyID q) \<le> 1024"
    by (auto simp: Presentation_ValidatePayload_def validText_def split: if_splits)
  with True show ?thesis
    by (auto simp: Presentation_CanonicalPayload_def Let_def wire_simps appendUint16_def appendUint64_def
        split: sum.split)
qed (auto simp: Presentation_CanonicalPayload_def)

lemma DomainClosure_CanonicalPayload_Inr:
  "DomainClosure_CanonicalPayload c = Inr p \<longleftrightarrow>
    DomainClosure_ValidatePayload c = None \<and>
    p = closureDomain @ put_uint16 (dc_Version c) @ framed 4 (dc_AcceptanceDomain c)
          @ framed 4 (dc_AccountID c) @ framed 4 (dc_AssetID c) @ framed 4 (dc_OriginRegion c)
          @ dc_DeviceIdentityHash c @ put_uint64 (dc_ClosedSettlementEpoch c)
          @ put_uint64 (dc_ClosedUploadFence c) @ framed 4 (dc_KeyID c)"
proof (cases "DomainClosure_ValidatePayload c = None")
  case True
  then have "length (dc_AcceptanceDomain c) \<le> 1024" "length (dc_AccountID c) \<le> 1024"
    "length (dc_AssetID c) \<le> 1024" "length (dc_OriginRegion c) \<le> 1024" "length (dc_KeyID c) \<le> 1024"
    by (auto simp: DomainClosure_ValidatePayload_def validText_def split: if_splits)
  with True show ?thesis
    by (auto simp: DomainClosure_CanonicalPayload_def Let_def wire_simps appendUint16_def appendUint64_def)
qed (auto simp: DomainClosure_CanonicalPayload_def)

lemma DomainClosure_payload_inject:
  assumes "DomainClosure_typed a" "DomainClosure_typed b"
    and "DomainClosure_CanonicalPayload a = Inr p" "DomainClosure_CanonicalPayload b = Inr p"
  shows "a\<lparr>dc_Signature := []\<rparr> = b\<lparr>dc_Signature := []\<rparr>"
proof -
  have arr: "array32 (dc_DeviceIdentityHash a)" "array32 (dc_DeviceIdentityHash b)"
    using assms(1,2) by (simp_all add: DomainClosure_typed_def)
  have texts: "length (dc_AcceptanceDomain x) \<le> 1024 \<and> length (dc_AccountID x) \<le> 1024 \<and>
      length (dc_AssetID x) \<le> 1024 \<and> length (dc_OriginRegion x) \<le> 1024 \<and> length (dc_KeyID x) \<le> 1024"
    if "DomainClosure_ValidatePayload x = None" for x
    using that by (auto simp: DomainClosure_ValidatePayload_def validText_def split: if_splits)
  show ?thesis
    using assms(3,4) texts [of a] texts [of b] arr
    by (simp add: DomainClosure_CanonicalPayload_Inr framed4_append_inject framed4_inject
        array32_append_inject)
qed

lemma Presentation_payload_inject:
  assumes "Presentation_typed a" "Presentation_typed b"
    and "Presentation_CanonicalPayload a = Inr p" "Presentation_CanonicalPayload b = Inr p"
  shows "a\<lparr>ps_Signature := [], ps_Allowance := ps_Allowance b\<rparr> = b\<lparr>ps_Signature := []\<rparr>"
proof -
  have arr: "array32 (ps_AllowancePayloadHash a)" "array32 (ps_AllowancePayloadHash b)"
    "array32 (ps_MerchantChallenge a)" "array32 (ps_MerchantChallenge b)"
    using assms(1,2) by (simp_all add: Presentation_typed_def)
  have texts: "length (ps_MerchantAccountID x) \<le> 1024 \<and> length (ps_AcceptanceDomain x) \<le> 1024 \<and>
      length (ps_DeviceKeyID x) \<le> 1024"
    if "Presentation_ValidatePayload x = None" for x
    using that by (auto simp: Presentation_ValidatePayload_def validText_def split: if_splits)
  show ?thesis
    using assms(3,4) texts [of a] texts [of b] arr
    by (simp add: Presentation_CanonicalPayload_Inr framed4_append_inject framed4_inject
        array32_append_inject)
qed

lemma Conserved_iff:
  "ConservationSnapshot_Conserved s \<longleftrightarrow>
     0 \<le> sn_Unallocated s \<and> 0 \<le> sn_Regional s \<and> 0 \<le> sn_InTransit s \<and> 0 \<le> sn_OfflineIssued s \<and>
     sn_OfflineIssued s = sn_FoldedOutstanding s \<and>
     sn_TotalAuthority s = sn_Unallocated s + sn_Regional s + sn_InTransit s + sn_OfflineIssued s \<and>
     fitsDecimal38 (sn_TotalAuthority s)"
proof (cases "0 \<le> sn_Unallocated s \<and> 0 \<le> sn_Regional s \<and> 0 \<le> sn_InTransit s \<and> 0 \<le> sn_OfflineIssued s")
  case True
  have mono: "fitsDecimal38 (sn_Unallocated s + sn_Regional s)
      \<and> fitsDecimal38 (sn_Unallocated s + sn_Regional s + sn_InTransit s)"
    if "fitsDecimal38 (sn_Unallocated s + sn_Regional s + sn_InTransit s + sn_OfflineIssued s)"
    using True by (auto intro: fits_mono [OF that])
  show ?thesis
    using True mono
    by (auto simp: ConservationSnapshot_Conserved_def Amount_Add_Inr split: sum.split) 
qed (auto simp: ConservationSnapshot_Conserved_def)

end
