(* ===== verification/Offline_Verify.thy ===== *)
theory Offline_Verify
  imports Offline_Types Ledger_Posting
begin

text \<open>
  The verification boundary of \<^verbatim>\<open>internal/offline\<close>: \<^verbatim>\<open>crypto.go\<close>, and the checks of \<^verbatim>\<open>service.go\<close> that the
  financial path repeats on the values the boundary returns.

  The signature verifiers are hardware adapters outside the repository. They are parameters: a function
  from key, payload and signature to an optional error, \<open>None\<close> where the adapter is not configured. The
  code hands them copies of its buffers and clones what it returns, so a value is not changed by them; in
  the model values are immutable and the clones are identities.
\<close>

type_synonym Verifier = "string \<Rightarrow> bytes \<Rightarrow> bytes \<Rightarrow> string option"
type_synonym PresentationVerifier = "PresentationKeyBinding \<Rightarrow> bytes \<Rightarrow> bytes \<Rightarrow> string option"
type_synonym ClosureVerifier = "ClosureKeyBinding \<Rightarrow> bytes \<Rightarrow> bytes \<Rightarrow> string option"

section \<open>Definitions\<close>

definition allowanceHash :: "bytes \<Rightarrow> bytes" where
  "allowanceHash payload = sha256 payload"

definition verifyAllowance :: "Verifier option \<Rightarrow> Allowance \<Rightarrow> offline_error + VerifiedAllowance" where
  "verifyAllowance verifier allowance =
     (case verifier of
        None \<Rightarrow> Inl ErrInvalidSignature
      | Some Verify \<Rightarrow>
        if al_Signature allowance = [] then Inl ErrInvalidSignature
        else case Allowance_CanonicalPayload allowance of
          Inl err \<Rightarrow> Inl err
        | Inr payload \<Rightarrow>
          (case Verify (al_KeyID allowance) payload (al_Signature allowance) of
             Some _ \<Rightarrow> Inl ErrInvalidSignature
           | None \<Rightarrow>
             (case Allowance_CanonicalPayload allowance of
                Inl err \<Rightarrow> Inl err
              | Inr payload \<Rightarrow>
                Inr \<lparr>va_allowance = allowance, va_payload = payload, va_payloadHash = allowanceHash payload\<rparr>)))"

definition sameAllowanceEnvelope :: "Allowance \<Rightarrow> Allowance \<Rightarrow> bool" where
  "sameAllowanceEnvelope left right \<longleftrightarrow>
     al_Version left = al_Version right \<and> al_AllowanceID left = al_AllowanceID right \<and>
     al_AccountID left = al_AccountID right \<and> al_AssetID left = al_AssetID right \<and>
     al_OriginRegion left = al_OriginRegion right \<and>
     al_DeviceIdentityHash left = al_DeviceIdentityHash right \<and> al_Counter left = al_Counter right \<and>
     Amount_Cmp (al_Amount left) (al_Amount right) = 0 \<and> al_IssuerEpoch left = al_IssuerEpoch right \<and>
     al_KeyID left = al_KeyID right \<and> al_Signature left = al_Signature right"

definition verifyPresentation ::
  "Verifier option \<Rightarrow> PresentationVerifier option \<Rightarrow> Presentation \<Rightarrow> offline_error + VerifiedPresentation" where
  "verifyPresentation allowanceVerifier presentationVerifier presentation =
     (case presentationVerifier of
        None \<Rightarrow> Inl ErrInvalidPresentation
      | Some VerifyPresentation \<Rightarrow>
        if ps_Signature presentation = [] then Inl ErrInvalidPresentation
        else case verifyAllowance allowanceVerifier (ps_Allowance presentation) of
          Inl err \<Rightarrow> Inl err
        | Inr allowance \<Rightarrow>
          (case Presentation_CanonicalPayload presentation of
             Inl err \<Rightarrow> Inl err
           | Inr payload \<Rightarrow>
             if va_payloadHash allowance \<noteq> ps_AllowancePayloadHash presentation then Inl ErrInvalidPresentation
             else
               let binding = \<lparr>pb_DeviceIdentityHash = al_DeviceIdentityHash (ps_Allowance presentation),
                              pb_DeviceKeyID = ps_DeviceKeyID presentation\<rparr>
               in case VerifyPresentation binding payload (ps_Signature presentation) of
                 Some _ \<Rightarrow> Inl ErrInvalidPresentation
               | None \<Rightarrow>
                 (case Presentation_CanonicalPayload presentation of
                    Inl _ \<Rightarrow> Inl ErrInvalidPresentation
                  | Inr payload \<Rightarrow>
                    if ps_AllowancePayloadHash presentation \<noteq> va_payloadHash allowance
                       \<or> \<not> sameAllowanceEnvelope (ps_Allowance presentation) (va_allowance allowance)
                    then Inl ErrInvalidPresentation
                    else Inr \<lparr>vp_presentation = presentation, vp_allowance = allowance, vp_payload = payload,
                              vp_payloadHash = sha256 payload,
                              vp_presentationHash = presentationEnvelopeHash payload (ps_Signature presentation),
                              vp_challengeHash = sha256 (ps_MerchantChallenge presentation)\<rparr>)))"

definition below_watermark :: "FenceRequest \<Rightarrow> DomainClosure \<Rightarrow> bool" where
  "below_watermark request closure \<longleftrightarrow>
     dc_ClosedSettlementEpoch closure < fr_ExpectedIssuerEpoch request \<or>
     dc_ClosedSettlementEpoch closure = fr_ExpectedIssuerEpoch request \<and>
       dc_ClosedUploadFence closure < fr_ExpectedDeviceCounter request"

fun canonicalizeClosures ::
  "FenceRequest \<Rightarrow> (string, verifiedClosure) dict \<Rightarrow> DomainClosure list
     \<Rightarrow> offline_error + (string, verifiedClosure) dict" where
  "canonicalizeClosures request values [] = Inr values"
| "canonicalizeClosures request values (closure # inputs) =
     (case DomainClosure_CanonicalPayload closure of
        Inl _ \<Rightarrow> Inl ErrInvalidClosure
      | Inr payload \<Rightarrow>
        if dc_Signature closure = [] then Inl ErrInvalidClosure
        else if dget values (dc_AcceptanceDomain closure) \<noteq> None then Inl ErrIncompleteClosure
        else if below_watermark request closure then Inl ErrIncompleteClosure
        else canonicalizeClosures request
               (dset (dc_AcceptanceDomain closure)
                  \<lparr>vc_closure = closure, vc_payload = payload, vc_payloadHash = sha256 payload,
                   vc_evidenceHash = closureEnvelopeHash payload (dc_Signature closure)\<rparr> values)
               inputs)"

definition canonicalizeClosureSet :: "FenceRequest \<Rightarrow> offline_error + verifiedClosureSet" where
  "canonicalizeClosureSet request =
     (case canonicalizeClosures request dempty (fr_DomainClosures request) of
        Inl err \<Rightarrow> Inl err
      | Inr values \<Rightarrow> Inr \<lparr>cs_byDomain = values, cs_setHash = closureSetHash values\<rparr>)"

text \<open>The bodies of the loops over the closures of a set.\<close>

definition validateVerifiedClosure :: "string \<times> verifiedClosure \<Rightarrow> offline_error option" where
  "validateVerifiedClosure = (\<lambda>(domain, value).
     if domain \<noteq> dc_AcceptanceDomain (vc_closure value) \<or> dc_Signature (vc_closure value) = []
     then Some ErrInvalidClosure
     else case DomainClosure_CanonicalPayload (vc_closure value) of
       Inl _ \<Rightarrow> Some ErrInvalidClosure
     | Inr payload \<Rightarrow>
       if payload \<noteq> vc_payload value \<or> sha256 payload \<noteq> vc_payloadHash value
          \<or> closureEnvelopeHash payload (dc_Signature (vc_closure value)) \<noteq> vc_evidenceHash value
       then Some ErrInvalidClosure else None)"

definition verifyClosureSignature :: "ClosureVerifier \<Rightarrow> string \<times> verifiedClosure \<Rightarrow> offline_error option" where
  "verifyClosureSignature VerifyClosure = (\<lambda>(_, value).
     let binding = \<lparr>cb_AcceptanceDomain = dc_AcceptanceDomain (vc_closure value),
                    cb_KeyID = dc_KeyID (vc_closure value)\<rparr>
     in case VerifyClosure binding (vc_payload value) (dc_Signature (vc_closure value)) of
          Some _ \<Rightarrow> Some ErrInvalidClosure
        | None \<Rightarrow> None)"

definition validateVerifiedClosureSet :: "verifiedClosureSet \<Rightarrow> offline_error option" where
  "validateVerifiedClosureSet closures =
     (if entries (cs_byDomain closures) = [] \<or> cs_setHash closures = zero_hash then Some ErrInvalidClosure
      else case first_error validateVerifiedClosure (entries (cs_byDomain closures)) of
        Some err \<Rightarrow> Some err
      | None \<Rightarrow>
          if closureSetHash (cs_byDomain closures) \<noteq> cs_setHash closures then Some ErrInvalidClosure else None)"

definition verifyClosureSet :: "ClosureVerifier option \<Rightarrow> FenceRequest \<Rightarrow> offline_error + verifiedClosureSet" where
  "verifyClosureSet verifier request =
     (case verifier of
        None \<Rightarrow> Inl ErrInvalidClosure
      | Some VerifyClosure \<Rightarrow>
        (case canonicalizeClosureSet request of
           Inl err \<Rightarrow> Inl err
         | Inr result \<Rightarrow>
           (case first_error (verifyClosureSignature VerifyClosure) (entries (cs_byDomain result)) of
              Some err \<Rightarrow> Inl err
            | None \<Rightarrow>
              (case validateVerifiedClosureSet result of Some err \<Rightarrow> Inl err | None \<Rightarrow> Inr result))))"

section \<open>Checks of the financial path\<close>

definition validateVerifiedAllowance :: "VerifiedAllowance \<Rightarrow> offline_error option" where
  "validateVerifiedAllowance verified =
     (if va_payload verified = [] \<or> al_Signature (va_allowance verified) = []
         \<or> va_payloadHash verified = zero_hash
      then Some ErrInvalidSignature
      else case Allowance_CanonicalPayload (va_allowance verified) of
        Inl _ \<Rightarrow> Some ErrInvalidSignature
      | Inr payload \<Rightarrow>
        if payload \<noteq> va_payload verified \<or> allowanceHash payload \<noteq> va_payloadHash verified
        then Some ErrInvalidSignature else None)"

definition validateVerifiedPresentation :: "VerifiedPresentation \<Rightarrow> offline_error option" where
  "validateVerifiedPresentation verified =
     (if validateVerifiedAllowance (vp_allowance verified) \<noteq> None
         \<or> vp_payload verified = [] \<or> ps_Signature (vp_presentation verified) = []
         \<or> vp_payloadHash verified = zero_hash \<or> vp_presentationHash verified = zero_hash
         \<or> vp_challengeHash verified = zero_hash
         \<or> ps_AllowancePayloadHash (vp_presentation verified) \<noteq> va_payloadHash (vp_allowance verified)
         \<or> \<not> sameAllowanceEnvelope (ps_Allowance (vp_presentation verified)) (va_allowance (vp_allowance verified))
      then Some ErrInvalidPresentation
      else case Presentation_CanonicalPayload (vp_presentation verified) of
        Inl _ \<Rightarrow> Some ErrInvalidPresentation
      | Inr payload \<Rightarrow>
        if payload \<noteq> vp_payload verified \<or> sha256 payload \<noteq> vp_payloadHash verified
           \<or> presentationEnvelopeHash payload (ps_Signature (vp_presentation verified))
               \<noteq> vp_presentationHash verified
           \<or> sha256 (ps_MerchantChallenge (vp_presentation verified)) \<noteq> vp_challengeHash verified
        then Some ErrInvalidPresentation else None)"

record posting_sums =
  sum_debited :: amount
  sum_sourceCredits :: amount
  sum_credited :: amount
  sum_merchantDebits :: amount

text \<open>One conditional accumulation of the loop: \<open>hit\<close> is its guard.\<close>

definition add_if :: "bool \<Rightarrow> amount \<Rightarrow> amount \<Rightarrow> ledger_error + amount" where
  "add_if hit acc x = (if hit then Amount_Add acc x else Inr acc)"

fun posting_loop ::
  "Allowance \<Rightarrow> string \<Rightarrow> posting_sums \<Rightarrow> Line list \<Rightarrow> offline_error + posting_sums" where
  "posting_loop allowance merchant s [] = Inr s"
| "posting_loop allowance merchant s (line # rest) =
     (let ofAsset = (line_AssetID line = al_AssetID allowance);
          ofSource = (line_AccountID line = al_AccountID allowance);
          ofMerchant = (line_AccountID line = merchant) in
      case add_if (ofAsset \<and> ofSource \<and> line_Side line = Debit) (sum_debited s) (line_AmountAtoms line) of
        Inl _ \<Rightarrow> Inl ErrPostingMismatch
      | Inr d \<Rightarrow>
      (case add_if (ofAsset \<and> ofSource \<and> line_Side line = Credit) (sum_sourceCredits s) (line_AmountAtoms line) of
        Inl _ \<Rightarrow> Inl ErrPostingMismatch
      | Inr sc \<Rightarrow>
      (case add_if (ofAsset \<and> ofMerchant \<and> line_Side line = Credit) (sum_credited s) (line_AmountAtoms line) of
        Inl _ \<Rightarrow> Inl ErrPostingMismatch
      | Inr c \<Rightarrow>
      (case add_if (ofAsset \<and> ofMerchant \<and> line_Side line = Debit) (sum_merchantDebits s) (line_AmountAtoms line) of
        Inl _ \<Rightarrow> Inl ErrPostingMismatch
      | Inr md \<Rightarrow>
          posting_loop allowance merchant
            \<lparr>sum_debited = d, sum_sourceCredits = sc, sum_credited = c, sum_merchantDebits = md\<rparr> rest))))"

definition validatePostingForPresentation ::
  "VerifiedPresentation \<Rightarrow> PostRequest \<Rightarrow> offline_error option" where
  "validatePostingForPresentation verified posting =
     (let allowance = ps_Allowance (vp_presentation verified) in
      case posting_loop allowance (ps_MerchantAccountID (vp_presentation verified))
          \<lparr>sum_debited = 0, sum_sourceCredits = 0, sum_credited = 0, sum_merchantDebits = 0\<rparr>
          (pr_Lines posting) of
        Inl err \<Rightarrow> Some err
      | Inr s \<Rightarrow>
        if Amount_Cmp (sum_debited s) (al_Amount allowance) \<noteq> 0
           \<or> Amount_Cmp (sum_credited s) (al_Amount allowance) \<noteq> 0
           \<or> \<not> Amount_IsZero (sum_sourceCredits s) \<or> \<not> Amount_IsZero (sum_merchantDebits s)
        then Some ErrPostingMismatch else None)"

section \<open>Lemmas\<close>

text \<open>What one account is debited or credited in one asset by the lines of a posting.\<close>

definition account_total :: "Side \<Rightarrow> string \<Rightarrow> string \<Rightarrow> Line list \<Rightarrow> int" where
  "account_total side asset account ls =
     sum_list (map line_AmountAtoms
       (filter (\<lambda>l. line_AssetID l = asset \<and> line_AccountID l = account \<and> line_Side l = side) ls))"

lemma account_total_simps [simp]:
  "account_total s a c [] = 0"
  "account_total s a c (l # ls) =
     (if line_AssetID l = a \<and> line_AccountID l = c \<and> line_Side l = s then line_AmountAtoms l else 0)
     + account_total s a c ls"
  by (simp_all add: account_total_def)

lemma account_total_bounds:
  "list_all line_ok ls \<Longrightarrow> 0 \<le> account_total s a c ls \<and> account_total s a c ls \<le> side_total s a ls"
  by (induction ls) (auto simp: line_ok_def)

lemma account_total_disjoint:
  "list_all line_ok ls \<Longrightarrow> c \<noteq> d \<Longrightarrow>
     account_total s a c ls + account_total s a d ls \<le> side_total s a ls"
  by (induction ls) (auto simp: line_ok_def)

lemma add_if_Inr:
  "fitsDecimal38 (acc + (if hit then x else 0)) \<Longrightarrow> add_if hit acc x = Inr (acc + (if hit then x else 0))"
  by (cases hit) (simp_all add: add_if_def)

lemma posting_loop_Inr:
  assumes "list_all line_ok ls"
    and "0 \<le> sum_debited s" "0 \<le> sum_sourceCredits s" "0 \<le> sum_credited s" "0 \<le> sum_merchantDebits s"
    and "fitsDecimal38 (sum_debited s + account_total Debit (al_AssetID a) (al_AccountID a) ls)"
    and "fitsDecimal38 (sum_sourceCredits s + account_total Credit (al_AssetID a) (al_AccountID a) ls)"
    and "fitsDecimal38 (sum_credited s + account_total Credit (al_AssetID a) m ls)"
    and "fitsDecimal38 (sum_merchantDebits s + account_total Debit (al_AssetID a) m ls)"
  shows "posting_loop a m s ls =
    Inr \<lparr>sum_debited = sum_debited s + account_total Debit (al_AssetID a) (al_AccountID a) ls,
         sum_sourceCredits = sum_sourceCredits s + account_total Credit (al_AssetID a) (al_AccountID a) ls,
         sum_credited = sum_credited s + account_total Credit (al_AssetID a) m ls,
         sum_merchantDebits = sum_merchantDebits s + account_total Debit (al_AssetID a) m ls\<rparr>"
  using assms
proof (induction ls arbitrary: s)
  case (Cons l ls)
  have ok: "list_all line_ok ls" "line_ok l"
    using Cons.prems(1) by simp_all
  then have pos: "0 < line_AmountAtoms l" by (simp add: line_ok_def)
  have step: "add_if hit acc (line_AmountAtoms l) = Inr (acc + (if hit then line_AmountAtoms l else 0))"
    if "0 \<le> acc" "fitsDecimal38 (acc + ((if hit then line_AmountAtoms l else 0) + account_total sd as c ls))"
    for hit acc sd as c
    using pos account_total_bounds [OF ok(1), of sd as c] that(1)
    by (intro add_if_Inr fits_mono [OF that(2)]) auto
  note steps = step [OF Cons.prems(2) Cons.prems(6) [unfolded account_total_simps]]
    step [OF Cons.prems(3) Cons.prems(7) [unfolded account_total_simps]]
    step [OF Cons.prems(4) Cons.prems(8) [unfolded account_total_simps]]
    step [OF Cons.prems(5) Cons.prems(9) [unfolded account_total_simps]]
  show ?case
    using Cons.prems ok pos
    by (simp add: steps Let_def Cons.IH add.assoc)
qed simp

lemma verifyAllowance_Inr:
  "verifyAllowance (Some Verify) a = Inr v \<longleftrightarrow>
     al_Signature a \<noteq> [] \<and>
     (\<exists>payload. Allowance_CanonicalPayload a = Inr payload \<and> Verify (al_KeyID a) payload (al_Signature a) = None
        \<and> v = \<lparr>va_allowance = a, va_payload = payload, va_payloadHash = sha256 payload\<rparr>)"
  by (auto simp: verifyAllowance_def allowanceHash_def split: sum.splits option.splits)

lemma sameAllowanceEnvelope_iff [simp]: "sameAllowanceEnvelope a b \<longleftrightarrow> a = b"
  by (cases a; cases b) (auto simp: sameAllowanceEnvelope_def Amount_Cmp_def)

lemma Presentation_payload_hash:
  "Presentation_CanonicalPayload p = Inr q \<Longrightarrow> Allowance_CanonicalPayload (ps_Allowance p) = Inr r
     \<Longrightarrow> ps_AllowancePayloadHash p = sha256 r"
  by (simp add: Presentation_CanonicalPayload_Inr Allowance_PayloadHash_def)

lemma payload_nonempty:
  "Allowance_CanonicalPayload a \<noteq> Inr []" "Presentation_CanonicalPayload p \<noteq> Inr []"
  by (auto simp: Allowance_CanonicalPayload_def Presentation_CanonicalPayload_Inr presentationDomain_def
      appendString_def appendUint32_def allowanceDomain_def Let_def split: option.splits)

text \<open>A payload starts with the domain string of its kind, and the domain strings exclude each other.\<close>

lemma payload_prefix:
  "Allowance_CanonicalPayload a = Inr p \<Longrightarrow> \<exists>r. p = allowanceDomain @ r"
  "Presentation_CanonicalPayload q = Inr p \<Longrightarrow> \<exists>r. p = presentationDomain @ r"
  "DomainClosure_CanonicalPayload c = Inr p \<Longrightarrow> \<exists>r. p = closureDomain @ r"
  by (auto simp: Allowance_CanonicalPayload_def Presentation_CanonicalPayload_Inr Let_def
      DomainClosure_CanonicalPayload_Inr appendString_def appendUint16_def appendUint32_def appendUint64_def
      split: option.splits)

lemma payload_prefixes:
  "allowanceDomain @ r \<noteq> presentationDomain @ s"
  "allowanceDomain @ r \<noteq> closureDomain @ s"
  "presentationDomain @ r \<noteq> closureDomain @ s"
  by (simp_all add: allowanceDomain_def presentationDomain_def closureDomain_def)

lemma payload_exists:
  "Allowance_ValidatePayload a = None \<Longrightarrow> \<exists>p. Allowance_CanonicalPayload a = Inr p"
  "DomainClosure_ValidatePayload c = None \<Longrightarrow> \<exists>p. DomainClosure_CanonicalPayload c = Inr p"
  by (simp_all add: Allowance_CanonicalPayload_def DomainClosure_CanonicalPayload_def Let_def)

lemma Allowance_payload_inj_on:
  "inj_on Allowance_CanonicalPayload
     {a. Allowance_typed a \<and> Allowance_ValidatePayload a = None \<and> al_Signature a = []}"
proof (rule inj_onI, clarify)
  fix a b assume *: "Allowance_CanonicalPayload a = Allowance_CanonicalPayload b" "Allowance_typed a"
    "Allowance_typed b" "Allowance_ValidatePayload a = None" "al_Signature a = []" "al_Signature b = []"
  obtain p where "Allowance_CanonicalPayload a = Inr p" using payload_exists(1) [OF *(4)] by blast
  then have "a\<lparr>al_Signature := []\<rparr> = b\<lparr>al_Signature := []\<rparr>"
    using * by (intro Allowance_payload_inject [where p = p]) simp_all
  with *(5,6) show "a = b" by (cases a; cases b) simp
qed

lemma DomainClosure_payload_inj_on:
  "inj_on DomainClosure_CanonicalPayload
     {c. DomainClosure_typed c \<and> DomainClosure_ValidatePayload c = None \<and> dc_Signature c = []}"
proof (rule inj_onI, clarify)
  fix a b assume *: "DomainClosure_CanonicalPayload a = DomainClosure_CanonicalPayload b" "DomainClosure_typed a"
    "DomainClosure_typed b" "DomainClosure_ValidatePayload a = None" "dc_Signature a = []" "dc_Signature b = []"
  obtain p where "DomainClosure_CanonicalPayload a = Inr p" using payload_exists(2) [OF *(4)] by blast
  then have "a\<lparr>dc_Signature := []\<rparr> = b\<lparr>dc_Signature := []\<rparr>"
    using * by (intro DomainClosure_payload_inject [where p = p]) simp_all
  with *(5,6) show "a = b" by (cases a; cases b) simp
qed

lemma Presentation_payload_inj_on:
  "inj_on Presentation_CanonicalPayload
     {p. Presentation_typed p \<and> ps_Allowance p = a \<and> ps_Signature p = [] \<and>
         Allowance_PayloadHash a = Inr (ps_AllowancePayloadHash p) \<and> Presentation_ValidatePayload p = None \<and>
         ps_SettlementEpoch p = al_IssuerEpoch a \<and> ps_UploadFence p = al_Counter a}"
proof (rule inj_onI, clarify)
  fix p q assume *: "Presentation_CanonicalPayload p = Presentation_CanonicalPayload q" "Presentation_typed p"
    "Presentation_typed q" "ps_Signature p = []" "ps_Signature q = []" "ps_Allowance q = ps_Allowance p"
    and "Presentation_ValidatePayload p = None"
    "Allowance_PayloadHash (ps_Allowance p) = Inr (ps_AllowancePayloadHash p)"
    "ps_SettlementEpoch p = al_IssuerEpoch (ps_Allowance p)" "ps_UploadFence p = al_Counter (ps_Allowance p)"
  then obtain r where "Presentation_CanonicalPayload p = Inr r"
    using Presentation_CanonicalPayload_Inr by blast
  then have "p\<lparr>ps_Signature := [], ps_Allowance := ps_Allowance q\<rparr> = q\<lparr>ps_Signature := []\<rparr>"
    using * by (intro Presentation_payload_inject [where p = r]) simp_all
  with *(4-6) show "p = q" by (cases p; cases q) simp
qed

text \<open>The closures of a request by domain, with their evidence.\<close>

definition evidence :: "DomainClosure \<Rightarrow> verifiedClosure" where
  "evidence c =
     (let payload = projr (DomainClosure_CanonicalPayload c) in
      \<lparr>vc_closure = c, vc_payload = payload, vc_payloadHash = sha256 payload,
       vc_evidenceHash = closureEnvelopeHash payload (dc_Signature c)\<rparr>)"

definition closure_map :: "DomainClosure list \<Rightarrow> (string, verifiedClosure) dict" where
  "closure_map cs = fold (\<lambda>c. dset (dc_AcceptanceDomain c) (evidence c)) cs dempty"

definition closure_admissible :: "FenceRequest \<Rightarrow> DomainClosure \<Rightarrow> bool" where
  "closure_admissible r c \<longleftrightarrow>
     DomainClosure_ValidatePayload c = None \<and> dc_Signature c \<noteq> [] \<and>
     (fr_ExpectedIssuerEpoch r < dc_ClosedSettlementEpoch c \<or>
      fr_ExpectedIssuerEpoch r = dc_ClosedSettlementEpoch c \<and> fr_ExpectedDeviceCounter r \<le> dc_ClosedUploadFence c)"

lemma fresh_after_dset:
  "list_all (\<lambda>c. dget (dset k v m) (f c) = None) cs \<longleftrightarrow>
     k \<notin> f ` set cs \<and> list_all (\<lambda>c. dget m (f c) = None) cs"
  by (induction cs) (auto simp: DAList.lookup_update)

lemma canonicalizeClosures_Inr:
  "canonicalizeClosures r m cs = Inr m' \<longleftrightarrow>
     list_all (closure_admissible r) cs \<and> distinct (map dc_AcceptanceDomain cs) \<and>
     list_all (\<lambda>c. dget m (dc_AcceptanceDomain c) = None) cs \<and>
     m' = fold (\<lambda>c. dset (dc_AcceptanceDomain c) (evidence c)) cs m"
proof (induction cs arbitrary: m)
  case (Cons c cs)
  show ?case
  proof (cases "DomainClosure_CanonicalPayload c")
    case (Inl e)
    then have "DomainClosure_ValidatePayload c \<noteq> None"
      by (cases "DomainClosure_ValidatePayload c") (simp_all add: DomainClosure_CanonicalPayload_def Let_def)
    with Inl show ?thesis by (simp add: closure_admissible_def)
  next
    case (Inr p)
    then have valid: "DomainClosure_ValidatePayload c = None"
      by (simp add: DomainClosure_CanonicalPayload_Inr)
    have ev: "\<lparr>vc_closure = c, vc_payload = p, vc_payloadHash = sha256 p,
        vc_evidenceHash = closureEnvelopeHash p (dc_Signature c)\<rparr> = evidence c"
      by (simp add: evidence_def Inr)
    have adm: "closure_admissible r c \<longleftrightarrow> dc_Signature c \<noteq> [] \<and> \<not> below_watermark r c"
      by (auto simp: closure_admissible_def valid below_watermark_def not_less)
    show ?thesis
      by (cases "dc_Signature c = []"; cases "below_watermark r c"; cases "dget m (dc_AcceptanceDomain c)")
        (simp_all add: Inr ev adm Cons.IH fresh_after_dset conj_ac)
  qed
qed auto

lemma fold_dset_entries:
  "dget (fold (\<lambda>c. dset (k c) (f c)) cs m) x = Some v \<Longrightarrow>
     dget m x = Some v \<or> (\<exists>c \<in> set cs. k c = x \<and> f c = v)"
proof (induction cs arbitrary: m)
  case (Cons c cs)
  then show ?case by (fastforce simp: DAList.lookup_update split: if_splits)
qed simp

lemma fold_dset_get:
  "distinct (map k cs) \<Longrightarrow> c \<in> set cs \<Longrightarrow> dget (fold (\<lambda>c. dset (k c) (f c)) cs m) (k c) = Some (f c)"
proof (induction cs arbitrary: m)
  case (Cons d cs)
  have other: "dget (fold (\<lambda>c. dset (k c) (f c)) ds m) x = dget m x" if "x \<notin> k ` set ds" for ds m x
    using that by (induction ds arbitrary: m) (auto simp: DAList.lookup_update)
  show ?case
    using Cons other [of "k d" cs] by auto
qed simp

lemma closure_map_entries:
  assumes "distinct (map dc_AcceptanceDomain cs)"
  shows "set (entries (closure_map cs)) = (\<lambda>c. (dc_AcceptanceDomain c, evidence c)) ` set cs"
proof (rule set_eqI)
  fix e
  show "e \<in> set (entries (closure_map cs)) \<longleftrightarrow> e \<in> (\<lambda>c. (dc_AcceptanceDomain c, evidence c)) ` set cs"
    using fold_dset_entries [of dc_AcceptanceDomain evidence cs dempty "fst e" "snd e"]
      fold_dset_get [OF assms, of _ evidence dempty]
    by (cases e) (force simp: mem_entries_iff closure_map_def)
qed

section \<open>Properties\<close>

text \<open>
  C36: What is signed is unambiguous. Among valid values of one kind the canonical payload is injective: an
  allowance or a domain closure is determined by its payload up to the signature, and so is a presentation
  of a given allowance; and no payload of one kind is a payload of another kind, so a signature made for an
  allowance can not be replayed as one on a presentation or on a closure.
\<close>

theorem signed_payloads_unambiguous:
  "inj_on Allowance_CanonicalPayload
     {a. Allowance_typed a \<and> Allowance_ValidatePayload a = None \<and> al_Signature a = []} \<and>
   inj_on DomainClosure_CanonicalPayload
     {c. DomainClosure_typed c \<and> DomainClosure_ValidatePayload c = None \<and> dc_Signature c = []} \<and>
   inj_on Presentation_CanonicalPayload
     {p. Presentation_typed p \<and> ps_Allowance p = a \<and> ps_Signature p = [] \<and>
         Allowance_PayloadHash a = Inr (ps_AllowancePayloadHash p) \<and> Presentation_ValidatePayload p = None \<and>
         ps_SettlementEpoch p = al_IssuerEpoch a \<and> ps_UploadFence p = al_Counter a} \<and>
   {p. \<exists>a. Allowance_CanonicalPayload a = Inr p} \<inter> {p. \<exists>q. Presentation_CanonicalPayload q = Inr p} = {} \<and>
   {p. \<exists>a. Allowance_CanonicalPayload a = Inr p} \<inter> {p. \<exists>c. DomainClosure_CanonicalPayload c = Inr p} = {} \<and>
   {p. \<exists>q. Presentation_CanonicalPayload q = Inr p} \<inter> {p. \<exists>c. DomainClosure_CanonicalPayload c = Inr p} = {}"
proof (intro conjI Allowance_payload_inj_on DomainClosure_payload_inj_on Presentation_payload_inj_on)
qed (auto simp: payload_prefixes dest!: payload_prefix)

lemma validateVerifiedClosureSet_closure_map:
  assumes "list_all (closure_admissible r) cs" "distinct (map dc_AcceptanceDomain cs)"
  shows "validateVerifiedClosureSet \<lparr>cs_byDomain = closure_map cs, cs_setHash = closureSetHash (closure_map cs)\<rparr>
    = None \<longleftrightarrow> cs \<noteq> [] \<and> closureSetHash (closure_map cs) \<noteq> zero_hash"
proof -
  have "validateVerifiedClosure (dc_AcceptanceDomain c, evidence c) = None" if "c \<in> set cs" for c
  proof -
    have "DomainClosure_ValidatePayload c = None" and sig: "dc_Signature c \<noteq> []"
      using that assms(1) by (simp_all add: list_all_iff closure_admissible_def)
    then obtain p where "DomainClosure_CanonicalPayload c = Inr p" using payload_exists(2) [of c] by blast
    then show ?thesis by (simp add: validateVerifiedClosure_def evidence_def sig)
  qed
  then have "first_error validateVerifiedClosure (entries (closure_map cs)) = None"
    by (auto simp: first_error_None closure_map_entries [OF assms(2)])
  moreover have "entries (closure_map cs) = [] \<longleftrightarrow> cs = []"
    using closure_map_entries [OF assms(2)] by (metis image_is_empty set_empty)
  ultimately show ?thesis by (simp add: validateVerifiedClosureSet_def)
qed

lemma verifiers_accept:
  assumes "distinct (map dc_AcceptanceDomain cs)"
  shows "first_error (verifyClosureSignature V) (entries (closure_map cs)) = None \<longleftrightarrow>
     list_all (\<lambda>c. V \<lparr>cb_AcceptanceDomain = dc_AcceptanceDomain c, cb_KeyID = dc_KeyID c\<rparr>
       (projr (DomainClosure_CanonicalPayload c)) (dc_Signature c) = None) cs"
  by (auto simp: first_error_None closure_map_entries [OF assms] evidence_def Let_def list_all_iff
      verifyClosureSignature_def split: option.splits)

section \<open>Example\<close>

definition example_allowance :: Allowance where
  "example_allowance = \<lparr>al_Version = 1, al_AllowanceID = ''a1'', al_AccountID = ''payer'', al_AssetID = ''USD'',
     al_OriginRegion = ''eu'', al_DeviceIdentityHash = replicate 32 (CHR 0x07), al_Counter = 1, al_Amount = 125,
     al_IssuerEpoch = 3, al_KeyID = ''k1'', al_Signature = ''sig''\<rparr>"

lemma example_allowance_simps [simp]:
  "al_Signature example_allowance = ''sig''" "al_Amount example_allowance = 125"
  "al_AccountID example_allowance = ''payer''" "al_AssetID example_allowance = ''USD''"
  "Allowance_typed example_allowance" "Allowance_ValidatePayload example_allowance = None"
  by (simp_all add: example_allowance_def Allowance_typed_def array32_def fitsDecimal38_iff zero_hash_def
      Allowance_ValidatePayload_def validText_def AllowanceVersion_def MaxInt64_def)

section \<open>Properties on verification\<close>

text \<open>
  C34: An allowance that passes verification is one the issuer signed: where the verifier accepts only the
  canonical payloads of allowances in a set \<open>issued\<close> (what unforgeability of the issuer's key means here), every
  field of an accepted allowance apart from the signature bytes is that of an allowance in \<open>issued\<close>, and the
  returned value carries exactly the payload that was verified.
\<close>

theorem accepted_allowance_was_issued:
  assumes "\<forall>k m s. Verify k m s = None \<longrightarrow>
      (\<exists>a \<in> issued. Allowance_typed a \<and> Allowance_CanonicalPayload a = Inr m)"
    and "Allowance_typed b" and "verifyAllowance (Some Verify) b = Inr v"
  shows "va_allowance v = b \<and> Allowance_CanonicalPayload b = Inr (va_payload v) \<and>
    va_payloadHash v = sha256 (va_payload v) \<and>
    (\<exists>a \<in> issued. a\<lparr>al_Signature := []\<rparr> = b\<lparr>al_Signature := []\<rparr>)"
proof -
  obtain p where p: "Allowance_CanonicalPayload b = Inr p" "Verify (al_KeyID b) p (al_Signature b) = None"
    "v = \<lparr>va_allowance = b, va_payload = p, va_payloadHash = sha256 p\<rparr>"
    using assms(3) unfolding verifyAllowance_Inr by blast
  then obtain a where "a \<in> issued" "Allowance_typed a" "Allowance_CanonicalPayload a = Inr p"
    using assms(1) by blast
  with p(1) assms(2) have "a\<lparr>al_Signature := []\<rparr> = b\<lparr>al_Signature := []\<rparr>"
    by (intro Allowance_payload_inject [where p = p])
  with p \<open>a \<in> issued\<close> show ?thesis by auto
qed

text \<open>The hypotheses hold of a verifier that knows one signed allowance.\<close>

theorem accepted_allowance_was_issued_witness:
  "\<exists>v. verifyAllowance (Some (\<lambda>k m s. if Allowance_CanonicalPayload example_allowance = Inr m then None else Some []))
     example_allowance = Inr v \<and> va_allowance v = example_allowance \<and> va_payloadHash v = sha256 (va_payload v)"
proof -
  let ?V = "\<lambda>k m s. if Allowance_CanonicalPayload example_allowance = Inr m then None else Some []"
  obtain p where p: "Allowance_CanonicalPayload example_allowance = Inr p"
    using payload_exists(1) [of example_allowance] by auto
  let ?v = "\<lparr>va_allowance = example_allowance, va_payload = p, va_payloadHash = sha256 p\<rparr>"
  have acc: "verifyAllowance (Some ?V) example_allowance = Inr ?v"
    by (simp add: verifyAllowance_Inr p)
  have "\<forall>k m s. ?V k m s = None \<longrightarrow>
      (\<exists>a \<in> {example_allowance}. Allowance_typed a \<and> Allowance_CanonicalPayload a = Inr m)"
    by simp
  from accepted_allowance_was_issued [OF this _ acc] acc show ?thesis
    by (intro exI [of _ ?v]) simp
qed

text \<open>
  C32: The exact condition under which a presentation is accepted: both signatures are present, the issuer's
  verifier accepts the canonical payload of the allowance under the allowance's key, the secure-element
  verifier accepts the canonical payload of the presentation under the allowance's device and the presented
  key, and the presentation names the hash, the epoch and the counter of that allowance. The value returned
  passes the checks the financial path repeats, unless one of its hashes is the all-zero value those checks
  reserve.
\<close>

theorem presentation_accepted_iff:
  "verifyPresentation (Some Verify) (Some VerifyP) p = Inr v \<longleftrightarrow>
     al_Signature (ps_Allowance p) \<noteq> [] \<and> ps_Signature p \<noteq> [] \<and> Presentation_ValidatePayload p = None \<and>
     ps_SettlementEpoch p = al_IssuerEpoch (ps_Allowance p) \<and> ps_UploadFence p = al_Counter (ps_Allowance p) \<and>
     (\<exists>ap pp. Allowance_CanonicalPayload (ps_Allowance p) = Inr ap \<and> ps_AllowancePayloadHash p = sha256 ap \<and>
        Verify (al_KeyID (ps_Allowance p)) ap (al_Signature (ps_Allowance p)) = None \<and>
        Presentation_CanonicalPayload p = Inr pp \<and>
        VerifyP \<lparr>pb_DeviceIdentityHash = al_DeviceIdentityHash (ps_Allowance p), pb_DeviceKeyID = ps_DeviceKeyID p\<rparr>
          pp (ps_Signature p) = None \<and>
        v = \<lparr>vp_presentation = p,
             vp_allowance = \<lparr>va_allowance = ps_Allowance p, va_payload = ap, va_payloadHash = sha256 ap\<rparr>,
             vp_payload = pp, vp_payloadHash = sha256 pp,
             vp_presentationHash = presentationEnvelopeHash pp (ps_Signature p),
             vp_challengeHash = sha256 (ps_MerchantChallenge p)\<rparr> \<and>
        (validateVerifiedPresentation v = None \<longleftrightarrow>
           zero_hash \<notin> {vp_payloadHash v, vp_presentationHash v, vp_challengeHash v}))"
proof (cases "verifyAllowance (Some Verify) (ps_Allowance p)")
  case (Inl e)
  then have "\<not> (al_Signature (ps_Allowance p) \<noteq> [] \<and> (\<exists>ap. Allowance_CanonicalPayload (ps_Allowance p) = Inr ap \<and>
      Verify (al_KeyID (ps_Allowance p)) ap (al_Signature (ps_Allowance p)) = None))"
    using verifyAllowance_Inr [of Verify "ps_Allowance p"] by fastforce
  with Inl show ?thesis by (auto simp: verifyPresentation_def)
next
  case (Inr va)
  then obtain ap where ap: "al_Signature (ps_Allowance p) \<noteq> []" "Allowance_CanonicalPayload (ps_Allowance p) = Inr ap"
    "Verify (al_KeyID (ps_Allowance p)) ap (al_Signature (ps_Allowance p)) = None"
    "va = \<lparr>va_allowance = ps_Allowance p, va_payload = ap, va_payloadHash = sha256 ap\<rparr>"
    by (auto simp: verifyAllowance_Inr)
  show ?thesis
  proof (cases "Presentation_CanonicalPayload p")
    case (Inl e)
    then show ?thesis by (simp add: verifyPresentation_def Inr)
  next
    case pp: (Inr pp)
    have pay: "ap \<noteq> []" "pp \<noteq> []" using payload_nonempty ap(2) pp by metis+
    have bound: "Presentation_ValidatePayload p = None" "ps_AllowancePayloadHash p = sha256 ap"
      "ps_SettlementEpoch p = al_IssuerEpoch (ps_Allowance p)" "ps_UploadFence p = al_Counter (ps_Allowance p)"
      using pp Presentation_payload_hash [OF pp ap(2)] by (simp_all add: Presentation_CanonicalPayload_Inr)
    have nz: "sha256 ap \<noteq> zero_hash"
      using bound(1,2) by (auto simp: Presentation_ValidatePayload_def split: if_splits)
    show ?thesis
      using bound ap pay nz
      by (auto simp: verifyPresentation_def Inr pp Let_def validateVerifiedPresentation_def
          validateVerifiedAllowance_def allowanceHash_def split: option.split)
  qed
qed

text \<open>
  C33: The exact condition under which a set of domain closures is accepted as evidence that an allowance can no
  longer be redeemed: at least one closure, no acceptance domain twice, and every closure well formed, signed
  under its own domain and key, and closed at or above the (epoch, counter) watermark of the allowance. The
  result then holds exactly these closures by domain. A set whose hash is the reserved all-zero value is
  refused.
\<close>

theorem closure_set_accepted_iff:
  "verifyClosureSet (Some V) r = Inr cs \<longleftrightarrow>
     fr_DomainClosures r \<noteq> [] \<and> distinct (map dc_AcceptanceDomain (fr_DomainClosures r)) \<and>
     list_all (\<lambda>c. closure_admissible r c \<and>
         V \<lparr>cb_AcceptanceDomain = dc_AcceptanceDomain c, cb_KeyID = dc_KeyID c\<rparr>
           (projr (DomainClosure_CanonicalPayload c)) (dc_Signature c) = None) (fr_DomainClosures r) \<and>
     cs = \<lparr>cs_byDomain = closure_map (fr_DomainClosures r),
           cs_setHash = closureSetHash (closure_map (fr_DomainClosures r))\<rparr> \<and>
     cs_setHash cs \<noteq> zero_hash"
proof (cases "list_all (closure_admissible r) (fr_DomainClosures r) \<and> distinct (map dc_AcceptanceDomain (fr_DomainClosures r))")
  case True
  let ?cs = "\<lparr>cs_byDomain = closure_map (fr_DomainClosures r), cs_setHash = closureSetHash (closure_map (fr_DomainClosures r))\<rparr>"
  have canon: "canonicalizeClosureSet r = Inr ?cs"
  proof -
    have "canonicalizeClosures r dempty (fr_DomainClosures r) = Inr (closure_map (fr_DomainClosures r))"
      using True by (simp add: canonicalizeClosures_Inr closure_map_def list_all_iff)
    then show ?thesis by (simp add: canonicalizeClosureSet_def)
  qed
  show ?thesis
    using True verifiers_accept [of "fr_DomainClosures r" V] validateVerifiedClosureSet_closure_map [of r "fr_DomainClosures r"]
    by (auto simp: verifyClosureSet_def canon list_all_iff split: option.splits)
next
  case False
  then have "\<nexists>m. canonicalizeClosures r dempty (fr_DomainClosures r) = Inr m"
    unfolding canonicalizeClosures_Inr by blast
  then show ?thesis
    using False by (auto simp: verifyClosureSet_def canonicalizeClosureSet_def list_all_iff split: sum.splits)
qed

text \<open>
  C35: A posting that passed the ledger's own validation is accepted for a presentation exactly when, in the
  allowance's asset, its lines debit the payer by the allowance's amount and credit the merchant by the same
  amount, with no credit to the payer and no debit of the merchant. In particular a payer can not be its own
  merchant.
\<close>

theorem redemption_posting_exact:
  assumes "PostRequest_Validate posting = None"
  shows "validatePostingForPresentation v posting = None \<longleftrightarrow>
    (let a = ps_Allowance (vp_presentation v); m = ps_MerchantAccountID (vp_presentation v);
         T = (\<lambda>side account. account_total side (al_AssetID a) account (pr_Lines posting)) in
     T Debit (al_AccountID a) = al_Amount a \<and> T Credit m = al_Amount a \<and>
     T Credit (al_AccountID a) = 0 \<and> T Debit m = 0 \<and> (al_Amount a = 0 \<or> m \<noteq> al_AccountID a))"
proof -
  let ?a = "ps_Allowance (vp_presentation v)"
  have ok: "list_all line_ok (pr_Lines posting)"
    and bal: "side_total Debit as (pr_Lines posting) = side_total Credit as (pr_Lines posting)
              \<and> fitsDecimal38 (side_total Debit as (pr_Lines posting))" for as
    using assms unfolding Validate_iff_posting_ok posting_ok_def by blast+
  have fits: "fitsDecimal38 (account_total s as c (pr_Lines posting))" if "s = Debit \<or> s = Credit" for s as c
    using account_total_bounds [OF ok, of s as c] bal [of as] that
    by (auto intro: fits_mono [OF conjunct2 [OF bal [of as]]])
  show ?thesis
    by (auto simp: validatePostingForPresentation_def posting_loop_Inr [OF ok] fits Let_def Amount_Cmp_def
        split: if_splits)
qed

theorem redemption_posting_exact_witness:
  "PostRequest_Validate example_posting = None \<and>
   validatePostingForPresentation
     \<lparr>vp_presentation = \<lparr>ps_Version = 1, ps_Allowance = example_allowance, ps_AllowancePayloadHash = [],
        ps_MerchantAccountID = ''merchant'', ps_AcceptanceDomain = [], ps_MerchantChallenge = [], ps_SettlementEpoch = 3,
        ps_UploadFence = 1, ps_PresentationCounter = 1, ps_DeviceKeyID = [], ps_Signature = []\<rparr>,
      vp_allowance = \<lparr>va_allowance = example_allowance, va_payload = [], va_payloadHash = []\<rparr>,
      vp_payload = [], vp_payloadHash = [], vp_presentationHash = [], vp_challengeHash = []\<rparr>
     example_posting = None"
  by (subst redemption_posting_exact [OF example_posting_valid(1)])
    (simp add: example_posting_valid Let_def, simp add: example_posting_def example_line_def)

end
