(* ===== verification/Base64.thy ===== *)
theory Base64
  imports Prelude
begin

text \<open>
  \<^verbatim>\<open>base64.RawStdEncoding\<close> of Go's \<^verbatim>\<open>encoding/base64\<close>: the standard alphabet without padding. The decoder
  skips line breaks, does not check the unused bits of the last symbol, and fails on any other symbol
  and on a single symbol left over.
\<close>

definition b64_alphabet :: string where
  "b64_alphabet = ''ABCDEFGHIJKLMNOPQRSTUVWXYZabcdefghijklmnopqrstuvwxyz0123456789+/''"

definition b64_char :: "nat \<Rightarrow> char" where
  "b64_char n = b64_alphabet ! n"

definition b64_value :: "char \<Rightarrow> nat option" where
  "b64_value c =
     (let n = length (takeWhile (\<lambda>d. d \<noteq> c) b64_alphabet) in if n < 64 then Some n else None)"

fun b64_symbols :: "nat list \<Rightarrow> nat list" where
  "b64_symbols [] = []"
| "b64_symbols [a] = [a div 4, a mod 4 * 16]"
| "b64_symbols [a, b] = [a div 4, a mod 4 * 16 + b div 16, b mod 16 * 4]"
| "b64_symbols (a # b # c # r) =
     [a div 4, a mod 4 * 16 + b div 16, b mod 16 * 4 + c div 64, c mod 64] @ b64_symbols r"

fun b64_octets :: "nat list \<Rightarrow> nat list option" where
  "b64_octets [] = Some []"
| "b64_octets [x] = None"
| "b64_octets [x, y] = Some [x * 4 + y div 16]"
| "b64_octets [x, y, z] = Some [x * 4 + y div 16, y mod 16 * 16 + z div 4]"
| "b64_octets (x # y # z # w # r) =
     map_option (\<lambda>t. [x * 4 + y div 16, y mod 16 * 16 + z div 4, z mod 4 * 64 + w] @ t) (b64_octets r)"

definition b64_encode :: "bytes \<Rightarrow> string" where
  "b64_encode bs = map b64_char (b64_symbols (map of_char bs))"

definition b64_decode :: "string \<Rightarrow> bytes option" where
  "b64_decode s =
     (let t = filter (\<lambda>c. c \<noteq> CHR 0x0A \<and> c \<noteq> CHR 0x0D) s in
      if list_all (\<lambda>c. b64_value c \<noteq> None) t
      then map_option (map char_of) (b64_octets (map (\<lambda>c. the (b64_value c)) t))
      else None)"

section \<open>Lemmas\<close>

lemma b64_alphabet_facts:
  "length b64_alphabet = 64" "distinct b64_alphabet" "CHR 0x0A \<notin> set b64_alphabet" "CHR 0x0D \<notin> set b64_alphabet"
  "\<forall>c \<in> set b64_alphabet. (of_char c :: nat) < 128"
  by (simp_all add: b64_alphabet_def)

lemma takeWhile_nth:
  "distinct xs \<Longrightarrow> n < length xs \<Longrightarrow> takeWhile (\<lambda>d. d \<noteq> xs ! n) xs = take n xs"
  by (intro takeWhile_eq_take_P_nth) (auto simp: nth_eq_iff_index_eq)

lemma b64_value_char: "n < 64 \<Longrightarrow> b64_value (b64_char n) = Some n"
  by (simp add: b64_value_def b64_char_def takeWhile_nth b64_alphabet_facts)

lemma b64_char_set: "n < 64 \<Longrightarrow> b64_char n \<in> set b64_alphabet"
  by (simp add: b64_char_def b64_alphabet_facts)

lemma b64_symbols_bound: "\<forall>x \<in> set bs. x < 256 \<Longrightarrow> \<forall>x \<in> set (b64_symbols bs). x < 64"
  by (induction bs rule: b64_symbols.induct) auto

lemma b64_octets_symbols: "\<forall>x \<in> set bs. x < 256 \<Longrightarrow> b64_octets (b64_symbols bs) = Some bs"
proof (induction bs rule: b64_symbols.induct)
  case (4 a b c r)
  have "b mod 16 * 4 + c div 64 = 4 * (b mod 16) + c div 64" by simp
  with 4 show ?case by (auto simp: div_mult2_eq [symmetric])
qed auto

lemma b64_roundtrip: "b64_decode (b64_encode bs) = Some bs"
proof -
  let ?ns = "b64_symbols (map of_char bs)"
  have bound: "\<forall>x \<in> set ?ns. x < 64"
    by (rule b64_symbols_bound) auto
  have keep: "filter (\<lambda>c. c \<noteq> CHR 0x0A \<and> c \<noteq> CHR 0x0D) (b64_encode bs) = b64_encode bs"
    using bound b64_char_set b64_alphabet_facts by (fastforce simp: b64_encode_def filter_id_conv)
  have all: "list_all (\<lambda>c. b64_value c \<noteq> None) (b64_encode bs)"
    using bound by (auto simp: b64_encode_def list_all_iff b64_value_char)
  have "map (\<lambda>c. the (b64_value c)) (b64_encode bs) = ?ns"
    using bound by (auto simp: b64_encode_def b64_value_char intro: map_idI)
  then show ?thesis
    using all b64_octets_symbols [of "map of_char bs"] by (simp add: b64_decode_def keep comp_def)
qed

lemma b64_encode_ascii: "c \<in> set (b64_encode bs) \<Longrightarrow> (of_char c :: nat) < 128"
  using b64_symbols_bound [of "map of_char bs"] b64_char_set b64_alphabet_facts(5)
  by (fastforce simp: b64_encode_def)

interpretation b64: codec b64_encode b64_decode "\<lambda>_. True"
  by unfold_locales (rule b64_roundtrip)

end
