(* ===== verification/Escrow_Types.thy ===== *)
theory Escrow_Types
  imports Hashing Json_Struct Base64
begin

text \<open>
  The data of \<^verbatim>\<open>internal/escrow\<close>: effect requests and the conservation check (\<^verbatim>\<open>types.go\<close>), transfer
  certificates (\<^verbatim>\<open>certificate.go\<close>) and consumption receipts (\<^verbatim>\<open>receipt.go\<close>) with their canonical payloads,
  JSON forms, signatures and verification.

  Ed25519 is a parameter: \<open>ed_sign\<close> and \<open>ed_verify\<close> with the sizes the standard library documents. A key
  resolver is a partial function from key identifiers; \<open>None\<close> is the nil resolver.
\<close>

section \<open>Errors, effects and the conservation check\<close>

datatype escrow_error =
    ErrInvalidArgument | ErrInsufficientRights | ErrCertificateInvalid | ErrCertificateConflict
  | ErrConsumptionReceiptInvalid | ErrAuthorityConflict | ErrEffectConflict | ErrConsumptionProofMissing
  | ErrDecode string
  | ErrEscrowOther string
  | ErrLedgerAmount ledger_error
  | ErrDatabase string

type_synonym EffectKind = string

definition EffectAllocate :: EffectKind where "EffectAllocate = ''ALLOCATE''"

definition EffectSpend :: EffectKind where "EffectSpend = ''SPEND''"

definition EffectReturn :: EffectKind where "EffectReturn = ''RETURN''"

definition EffectKind_valid :: "EffectKind \<Rightarrow> bool" where
  "EffectKind_valid kind \<longleftrightarrow> kind = EffectAllocate \<or> kind = EffectSpend \<or> kind = EffectReturn"

record EffectRequest =
  er_EffectID :: string
  er_AccountID :: string
  er_AssetID :: string
  er_Region :: string
  er_Amount :: amount

definition EffectRequest_validate :: "EffectRequest \<Rightarrow> escrow_error option" where
  "EffectRequest_validate r =
     (if er_EffectID r = [] \<or> length (er_EffectID r) > 512 \<or> er_AccountID r = [] \<or> er_AssetID r = []
         \<or> er_Region r = [] \<or> Amount_Sign (er_Amount r) \<le> 0
      then Some ErrInvalidArgument else None)"

record EffectReceipt =
  rc_EffectID :: string
  rc_Kind :: EffectKind
  rc_RequestHash :: bytes
  rc_Duplicate :: bool

record Authority =
  au_AccountID :: string
  au_AssetID :: string
  au_Total :: amount
  au_Unallocated :: amount
  au_Version :: "64 word"
  au_RegionalRights :: "(string, amount) dict"
  au_InTransit :: amount
  au_OfflineIssued :: amount
  au_FoldedOffline :: amount

text \<open>The loop over the regional rights: \<open>None\<close> where it returns false.\<close>

fun add_rights :: "amount \<Rightarrow> (string \<times> amount) list \<Rightarrow> amount option" where
  "add_rights acc [] = Some acc"
| "add_rights acc ((_, amount) # rest) =
     (if Amount_Sign amount < 0 then None
      else case Amount_Add acc amount of Inl _ \<Rightarrow> None | Inr acc \<Rightarrow> add_rights acc rest)"

definition Authority_Conserved :: "Authority \<Rightarrow> bool" where
  "Authority_Conserved a =
     (if Amount_Sign (au_Total a) < 0 \<or> Amount_Sign (au_Unallocated a) < 0 \<or> Amount_Sign (au_InTransit a) < 0
         \<or> Amount_Sign (au_OfflineIssued a) < 0 \<or> Amount_Sign (au_FoldedOffline a) < 0
         \<or> Amount_Cmp (au_OfflineIssued a) (au_FoldedOffline a) \<noteq> 0
      then False
      else case Amount_Add (au_Unallocated a) (au_InTransit a) of
        Inl _ \<Rightarrow> False
      | Inr acc \<Rightarrow>
        (case Amount_Add acc (au_OfflineIssued a) of
           Inl _ \<Rightarrow> False
         | Inr acc \<Rightarrow>
           (case add_rights acc (entries (au_RegionalRights a)) of
              None \<Rightarrow> False
            | Some acc \<Rightarrow> Amount_Cmp acc (au_Total a) = 0)))"

record TransferRequest =
  tr_TransferID :: string
  tr_AccountID :: string
  tr_AssetID :: string
  tr_SourceRegion :: string
  tr_DestinationRegion :: string
  tr_SourceLegalEntityID :: string
  tr_DestinationLegalEntityID :: string
  tr_Amount :: amount

section \<open>Keys\<close>

type_synonym KeyPurpose = string

definition KeyPurposeTransferCertificate :: KeyPurpose where
  "KeyPurposeTransferCertificate = ''ESCROW_TRANSFER_CERTIFICATE_V2''"

definition KeyPurposeConsumptionReceipt :: KeyPurpose where
  "KeyPurposeConsumptionReceipt = ''ESCROW_CONSUMPTION_RECEIPT_V1''"

record KeyBinding =
  kb_KeyID :: string
  kb_Region :: string
  kb_LegalEntityID :: string
  kb_Epoch :: uint64
  kb_Purpose :: KeyPurpose

definition KeyBinding_validFor :: "KeyBinding \<Rightarrow> KeyPurpose \<Rightarrow> bool" where
  "KeyBinding_validFor b purpose \<longleftrightarrow>
     kb_KeyID b \<noteq> [] \<and> kb_Region b \<noteq> [] \<and> kb_LegalEntityID b \<noteq> [] \<and> kb_Epoch b > 0 \<and> kb_Purpose b = purpose"

record VerificationKey =
  vk_Binding :: KeyBinding
  vk_PublicKey :: bytes

type_synonym KeyResolver = "string \<Rightarrow> VerificationKey option"

definition StaticKeyRegistry_ResolveKey :: "(string, VerificationKey) dict \<Rightarrow> KeyResolver" where
  "StaticKeyRegistry_ResolveKey s keyID =
     (case dget s keyID of
        None \<Rightarrow> None
      | Some key \<Rightarrow> if kb_KeyID (vk_Binding key) \<noteq> keyID then None else Some key)"

definition ed25519_PublicKeySize :: nat where "ed25519_PublicKeySize = 32"
definition ed25519_PrivateKeySize :: nat where "ed25519_PrivateKeySize = 64"
definition ed25519_SignatureSize :: nat where "ed25519_SignatureSize = 64"

section \<open>Transfer certificates\<close>

definition certificateVersion :: uint16 where "certificateVersion = 2"

record Certificate =
  ce_Version :: uint16
  ce_TransferID :: string
  ce_AccountID :: string
  ce_AssetID :: string
  ce_SourceRegion :: string
  ce_DestinationRegion :: string
  ce_SourceLegalEntityID :: string
  ce_DestinationLegalEntityID :: string
  ce_Amount :: amount
  ce_SourceEpoch :: uint64
  ce_KeyID :: string
  ce_KeyEpoch :: uint64
  ce_Signature :: bytes

definition Certificate_Validate :: "Certificate \<Rightarrow> escrow_error option" where
  "Certificate_Validate c =
     (if ce_Version c \<noteq> certificateVersion \<or> ce_TransferID c = [] \<or> ce_AccountID c = []
         \<or> ce_AssetID c = [] \<or> ce_SourceRegion c = [] \<or> ce_DestinationRegion c = []
         \<or> ce_SourceRegion c = ce_DestinationRegion c \<or> ce_SourceLegalEntityID c = []
         \<or> ce_DestinationLegalEntityID c = [] \<or> Amount_Sign (ce_Amount c) \<le> 0 \<or> ce_SourceEpoch c = 0
         \<or> ce_KeyID c = [] \<or> ce_KeyEpoch c = 0
      then Some ErrCertificateInvalid else None)"

definition writeCanonicalString :: "bytes \<Rightarrow> string \<Rightarrow> escrow_error + bytes" where
  "writeCanonicalString out value =
     (if length value > 1048576 then Inl ErrCertificateInvalid
      else Inr (out @ put_uint32 (word_of_nat (length value)) @ value))"

fun writeCanonicalStrings :: "bytes \<Rightarrow> string list \<Rightarrow> escrow_error + bytes" where
  "writeCanonicalStrings out [] = Inr out"
| "writeCanonicalStrings out (value # values) =
     (case writeCanonicalString out value of Inl err \<Rightarrow> Inl err | Inr out \<Rightarrow> writeCanonicalStrings out values)"

definition certificateDomain :: bytes where
  "certificateDomain = ''payment-platform/escrow-certificate/v2'' @ [CHR 0x00]"

definition Certificate_Payload :: "Certificate \<Rightarrow> escrow_error + bytes" where
  "Certificate_Payload c =
     (case Certificate_Validate c of
        Some err \<Rightarrow> Inl err
      | None \<Rightarrow>
        (case writeCanonicalStrings
                (certificateDomain @ put_uint16 (ce_Version c))
                [ce_TransferID c, ce_AccountID c, ce_AssetID c, ce_SourceRegion c, ce_DestinationRegion c,
                 ce_SourceLegalEntityID c, ce_DestinationLegalEntityID c, ce_KeyID c] of
           Inl err \<Rightarrow> Inl err
         | Inr out \<Rightarrow>
           (case writeCanonicalString out (Amount_String (ce_Amount c)) of
              Inl err \<Rightarrow> Inl err
            | Inr out \<Rightarrow> Inr (out @ put_uint64 (ce_SourceEpoch c) @ put_uint64 (ce_KeyEpoch c)))))"

definition Certificate_PayloadHash :: "Certificate \<Rightarrow> escrow_error + bytes" where
  "Certificate_PayloadHash c =
     (case Certificate_Payload c of Inl err \<Rightarrow> Inl err | Inr payload \<Rightarrow> Inr (sha256 payload))"

text \<open>The signer of \<^verbatim>\<open>Ed25519Signer\<close>: its fields and the private key operation.\<close>

record Ed25519Signer =
  sg_KeyID :: string
  sg_PrivateKey :: bytes
  sg_Region :: string
  sg_LegalEntityID :: string
  sg_Epoch :: uint64

definition Ed25519Signer_Binding :: "Ed25519Signer \<Rightarrow> KeyBinding" where
  "Ed25519Signer_Binding s = \<lparr>kb_KeyID = sg_KeyID s, kb_Region = sg_Region s, kb_LegalEntityID = sg_LegalEntityID s,
     kb_Epoch = sg_Epoch s, kb_Purpose = KeyPurposeTransferCertificate\<rparr>"

definition Ed25519Signer_Sign ::
  "(bytes \<Rightarrow> bytes \<Rightarrow> bytes) \<Rightarrow> Ed25519Signer \<Rightarrow> Certificate \<Rightarrow> escrow_error + Certificate" where
  "Ed25519Signer_Sign ed_sign s c =
     (let binding = Ed25519Signer_Binding s in
      if \<not> KeyBinding_validFor binding KeyPurposeTransferCertificate
         \<or> length (sg_PrivateKey s) \<noteq> ed25519_PrivateKeySize
      then Inl ErrInvalidArgument
      else if ce_KeyID c \<noteq> [] \<and> ce_KeyID c \<noteq> kb_KeyID binding
           \<or> ce_KeyEpoch c \<noteq> 0 \<and> ce_KeyEpoch c \<noteq> kb_Epoch binding
           \<or> ce_SourceRegion c \<noteq> [] \<and> ce_SourceRegion c \<noteq> kb_Region binding
           \<or> ce_SourceLegalEntityID c \<noteq> [] \<and> ce_SourceLegalEntityID c \<noteq> kb_LegalEntityID binding
      then Inl ErrCertificateInvalid
      else
        let c = c\<lparr>ce_Version := certificateVersion, ce_KeyID := kb_KeyID binding, ce_KeyEpoch := kb_Epoch binding,
                  ce_SourceRegion := kb_Region binding, ce_SourceLegalEntityID := kb_LegalEntityID binding\<rparr>
        in case Certificate_Payload c of
             Inl err \<Rightarrow> Inl err
           | Inr payload \<Rightarrow> Inr (c\<lparr>ce_Signature := ed_sign (sg_PrivateKey s) payload\<rparr>))"

definition VerifyCertificate ::
  "(bytes \<Rightarrow> bytes \<Rightarrow> bytes \<Rightarrow> bool) \<Rightarrow> Certificate \<Rightarrow> KeyResolver option \<Rightarrow> escrow_error option" where
  "VerifyCertificate ed_verify c resolver =
     (case resolver of
        None \<Rightarrow> Some ErrCertificateInvalid
      | Some ResolveKey \<Rightarrow>
        (case Certificate_Payload c of
           Inl err \<Rightarrow> Some err
         | Inr payload \<Rightarrow>
           (case ResolveKey (ce_KeyID c) of
              None \<Rightarrow> Some ErrCertificateInvalid
            | Some key \<Rightarrow>
              if \<not> KeyBinding_validFor (vk_Binding key) KeyPurposeTransferCertificate
                 \<or> kb_Region (vk_Binding key) \<noteq> ce_SourceRegion c
                 \<or> kb_LegalEntityID (vk_Binding key) \<noteq> ce_SourceLegalEntityID c
                 \<or> kb_Epoch (vk_Binding key) \<noteq> ce_KeyEpoch c
                 \<or> length (vk_PublicKey key) \<noteq> ed25519_PublicKeySize
                 \<or> length (ce_Signature c) \<noteq> ed25519_SignatureSize
                 \<or> \<not> ed_verify (vk_PublicKey key) payload (ce_Signature c)
              then Some ErrCertificateInvalid else None)))"

section \<open>Consumption receipts\<close>

definition consumptionReceiptVersion :: uint16 where "consumptionReceiptVersion = 1"

record ConsumptionReceipt =
  cr_Version :: uint16
  cr_TransferID :: string
  cr_CertificateHash :: bytes
  cr_AccountID :: string
  cr_AssetID :: string
  cr_Amount :: amount
  cr_SourceRegion :: string
  cr_SourceLegalEntityID :: string
  cr_SourceEpoch :: uint64
  cr_SourceKeyEpoch :: uint64
  cr_DestinationRegion :: string
  cr_DestinationLegalEntityID :: string
  cr_DestinationCommitWatermark :: uint64
  cr_KeyID :: string
  cr_KeyEpoch :: uint64
  cr_Signature :: bytes

record Consumption =
  co_TransferID :: string
  co_Duplicate :: bool
  co_Receipt :: ConsumptionReceipt

definition ConsumptionReceipt_Validate :: "ConsumptionReceipt \<Rightarrow> escrow_error option" where
  "ConsumptionReceipt_Validate r =
     (if cr_Version r \<noteq> consumptionReceiptVersion \<or> cr_TransferID r = []
         \<or> cr_CertificateHash r = zero_hash \<or> cr_AccountID r = [] \<or> cr_AssetID r = []
         \<or> Amount_Sign (cr_Amount r) \<le> 0 \<or> cr_SourceRegion r = [] \<or> cr_SourceLegalEntityID r = []
         \<or> cr_SourceEpoch r = 0 \<or> cr_SourceKeyEpoch r = 0 \<or> cr_DestinationRegion r = []
         \<or> cr_DestinationLegalEntityID r = [] \<or> cr_SourceRegion r = cr_DestinationRegion r
         \<or> cr_DestinationCommitWatermark r = 0 \<or> cr_KeyID r = [] \<or> cr_KeyEpoch r = 0
      then Some ErrConsumptionReceiptInvalid else None)"

definition receiptDomain :: bytes where
  "receiptDomain = ''payment-platform/escrow-consumption-receipt/v1'' @ [CHR 0x00]"

definition ConsumptionReceipt_Payload :: "ConsumptionReceipt \<Rightarrow> escrow_error + bytes" where
  "ConsumptionReceipt_Payload r =
     (case ConsumptionReceipt_Validate r of
        Some err \<Rightarrow> Inl err
      | None \<Rightarrow>
        (case writeCanonicalStrings
                (receiptDomain @ put_uint16 (cr_Version r))
                [cr_TransferID r, cr_AccountID r, cr_AssetID r, cr_SourceRegion r, cr_SourceLegalEntityID r,
                 cr_DestinationRegion r, cr_DestinationLegalEntityID r, cr_KeyID r] of
           Inl _ \<Rightarrow> Inl ErrConsumptionReceiptInvalid
         | Inr out \<Rightarrow>
           (case writeCanonicalString out (Amount_String (cr_Amount r)) of
              Inl _ \<Rightarrow> Inl ErrConsumptionReceiptInvalid
            | Inr out \<Rightarrow>
              Inr (out @ cr_CertificateHash r @ put_uint64 (cr_SourceEpoch r) @ put_uint64 (cr_SourceKeyEpoch r)
                   @ put_uint64 (cr_DestinationCommitWatermark r) @ put_uint64 (cr_KeyEpoch r)))))"

definition ConsumptionReceipt_PayloadHash :: "ConsumptionReceipt \<Rightarrow> escrow_error + bytes" where
  "ConsumptionReceipt_PayloadHash r =
     (case ConsumptionReceipt_Payload r of Inl err \<Rightarrow> Inl err | Inr payload \<Rightarrow> Inr (sha256 payload))"

text \<open>\<^verbatim>\<open>Ed25519ReceiptSigner\<close> has the fields of \<^verbatim>\<open>Ed25519Signer\<close> and another purpose.\<close>

definition Ed25519ReceiptSigner_Binding :: "Ed25519Signer \<Rightarrow> KeyBinding" where
  "Ed25519ReceiptSigner_Binding s = \<lparr>kb_KeyID = sg_KeyID s, kb_Region = sg_Region s,
     kb_LegalEntityID = sg_LegalEntityID s, kb_Epoch = sg_Epoch s, kb_Purpose = KeyPurposeConsumptionReceipt\<rparr>"

definition Ed25519ReceiptSigner_SignReceipt ::
  "(bytes \<Rightarrow> bytes \<Rightarrow> bytes) \<Rightarrow> Ed25519Signer \<Rightarrow> ConsumptionReceipt \<Rightarrow> escrow_error + ConsumptionReceipt" where
  "Ed25519ReceiptSigner_SignReceipt ed_sign s r =
     (let binding = Ed25519ReceiptSigner_Binding s in
      if \<not> KeyBinding_validFor binding KeyPurposeConsumptionReceipt
         \<or> length (sg_PrivateKey s) \<noteq> ed25519_PrivateKeySize
      then Inl ErrInvalidArgument
      else if cr_KeyID r \<noteq> [] \<and> cr_KeyID r \<noteq> kb_KeyID binding
           \<or> cr_KeyEpoch r \<noteq> 0 \<and> cr_KeyEpoch r \<noteq> kb_Epoch binding
           \<or> cr_DestinationRegion r \<noteq> [] \<and> cr_DestinationRegion r \<noteq> kb_Region binding
           \<or> cr_DestinationLegalEntityID r \<noteq> [] \<and> cr_DestinationLegalEntityID r \<noteq> kb_LegalEntityID binding
      then Inl ErrConsumptionReceiptInvalid
      else
        let r = r\<lparr>cr_Version := consumptionReceiptVersion, cr_KeyID := kb_KeyID binding, cr_KeyEpoch := kb_Epoch binding,
                  cr_DestinationRegion := kb_Region binding, cr_DestinationLegalEntityID := kb_LegalEntityID binding\<rparr>
        in case ConsumptionReceipt_Payload r of
             Inl err \<Rightarrow> Inl err
           | Inr payload \<Rightarrow> Inr (r\<lparr>cr_Signature := ed_sign (sg_PrivateKey s) payload\<rparr>))"

definition VerifyConsumptionReceipt ::
  "(bytes \<Rightarrow> bytes \<Rightarrow> bytes \<Rightarrow> bool) \<Rightarrow> ConsumptionReceipt \<Rightarrow> Certificate \<Rightarrow> KeyResolver option
     \<Rightarrow> escrow_error option" where
  "VerifyConsumptionReceipt ed_verify receipt certificate resolver =
     (case resolver of
        None \<Rightarrow> Some ErrConsumptionReceiptInvalid
      | Some ResolveKey \<Rightarrow>
        (case ConsumptionReceipt_Payload receipt of
           Inl err \<Rightarrow> Some err
         | Inr payload \<Rightarrow>
           if (case Certificate_PayloadHash certificate of
                 Inl _ \<Rightarrow> True | Inr certificateHash \<Rightarrow> cr_CertificateHash receipt \<noteq> certificateHash)
              \<or> cr_TransferID receipt \<noteq> ce_TransferID certificate
              \<or> cr_AccountID receipt \<noteq> ce_AccountID certificate \<or> cr_AssetID receipt \<noteq> ce_AssetID certificate
              \<or> Amount_Cmp (cr_Amount receipt) (ce_Amount certificate) \<noteq> 0
              \<or> cr_SourceRegion receipt \<noteq> ce_SourceRegion certificate
              \<or> cr_SourceLegalEntityID receipt \<noteq> ce_SourceLegalEntityID certificate
              \<or> cr_SourceEpoch receipt \<noteq> ce_SourceEpoch certificate
              \<or> cr_SourceKeyEpoch receipt \<noteq> ce_KeyEpoch certificate
              \<or> cr_DestinationRegion receipt \<noteq> ce_DestinationRegion certificate
              \<or> cr_DestinationLegalEntityID receipt \<noteq> ce_DestinationLegalEntityID certificate
           then Some ErrConsumptionReceiptInvalid
           else case ResolveKey (cr_KeyID receipt) of
             None \<Rightarrow> Some ErrConsumptionReceiptInvalid
           | Some key \<Rightarrow>
             if \<not> KeyBinding_validFor (vk_Binding key) KeyPurposeConsumptionReceipt
                \<or> kb_Region (vk_Binding key) \<noteq> cr_DestinationRegion receipt
                \<or> kb_LegalEntityID (vk_Binding key) \<noteq> cr_DestinationLegalEntityID receipt
                \<or> kb_Epoch (vk_Binding key) \<noteq> cr_KeyEpoch receipt
                \<or> length (vk_PublicKey key) \<noteq> ed25519_PublicKeySize
                \<or> length (cr_Signature receipt) \<noteq> ed25519_SignatureSize
                \<or> \<not> ed_verify (vk_PublicKey key) payload (cr_Signature receipt)
             then Some ErrConsumptionReceiptInvalid else None))"

section \<open>JSON forms\<close>

definition wireCertificate :: "(string \<times> wire_kind) list" where
  "wireCertificate =
     [(''version'', KUint 16), (''transfer_id'', KString), (''account_id'', KString), (''asset_id'', KString),
      (''source_region'', KString), (''destination_region'', KString), (''source_legal_entity_id'', KString),
      (''destination_legal_entity_id'', KString), (''amount_atoms'', KString), (''source_epoch'', KUint 64),
      (''key_id'', KString), (''key_epoch'', KUint 64), (''signature'', KString)]"

definition Certificate_wire :: "Certificate \<Rightarrow> string \<Rightarrow> wire" where
  "Certificate_wire c f =
     (if f = ''version'' then WUint (unat (ce_Version c))
      else if f = ''transfer_id'' then WString (ce_TransferID c)
      else if f = ''account_id'' then WString (ce_AccountID c)
      else if f = ''asset_id'' then WString (ce_AssetID c)
      else if f = ''source_region'' then WString (ce_SourceRegion c)
      else if f = ''destination_region'' then WString (ce_DestinationRegion c)
      else if f = ''source_legal_entity_id'' then WString (ce_SourceLegalEntityID c)
      else if f = ''destination_legal_entity_id'' then WString (ce_DestinationLegalEntityID c)
      else if f = ''amount_atoms'' then WString (Amount_String (ce_Amount c))
      else if f = ''source_epoch'' then WUint (unat (ce_SourceEpoch c))
      else if f = ''key_id'' then WString (ce_KeyID c)
      else if f = ''key_epoch'' then WUint (unat (ce_KeyEpoch c))
      else WString (b64_encode (ce_Signature c)))"

definition Certificate_MarshalJSON :: "Certificate \<Rightarrow> bytes" where
  "Certificate_MarshalJSON c = wire_encode wireCertificate (Certificate_wire c)"

definition Certificate_UnmarshalJSON :: "bytes \<Rightarrow> escrow_error + Certificate" where
  "Certificate_UnmarshalJSON data =
     (case wire_decode wireCertificate data of
        None \<Rightarrow> Inl (ErrDecode ''json'')
      | Some w \<Rightarrow>
        (case b64_decode (wire_string w ''signature'') of
           None \<Rightarrow> Inl (ErrDecode ''decode certificate signature'')
         | Some signature \<Rightarrow>
           (case ParseAmount (wire_string w ''amount_atoms'') of
              Inl _ \<Rightarrow> Inl (ErrDecode ''decode certificate amount'')
            | Inr amount \<Rightarrow>
              Inr \<lparr>ce_Version = word_of_nat (wire_uint w ''version''), ce_TransferID = wire_string w ''transfer_id'',
                   ce_AccountID = wire_string w ''account_id'', ce_AssetID = wire_string w ''asset_id'',
                   ce_SourceRegion = wire_string w ''source_region'',
                   ce_DestinationRegion = wire_string w ''destination_region'',
                   ce_SourceLegalEntityID = wire_string w ''source_legal_entity_id'',
                   ce_DestinationLegalEntityID = wire_string w ''destination_legal_entity_id'',
                   ce_Amount = amount, ce_SourceEpoch = word_of_nat (wire_uint w ''source_epoch''),
                   ce_KeyID = wire_string w ''key_id'', ce_KeyEpoch = word_of_nat (wire_uint w ''key_epoch''),
                   ce_Signature = signature\<rparr>)))"

definition wireConsumptionReceipt :: "(string \<times> wire_kind) list" where
  "wireConsumptionReceipt =
     [(''version'', KUint 16), (''transfer_id'', KString), (''certificate_hash'', KString), (''account_id'', KString),
      (''asset_id'', KString), (''amount_atoms'', KString), (''source_region'', KString),
      (''source_legal_entity_id'', KString), (''source_epoch'', KUint 64), (''source_key_epoch'', KUint 64),
      (''destination_region'', KString), (''destination_legal_entity_id'', KString),
      (''destination_commit_watermark'', KUint 64), (''key_id'', KString), (''key_epoch'', KUint 64),
      (''signature'', KString)]"

definition ConsumptionReceipt_wire :: "ConsumptionReceipt \<Rightarrow> string \<Rightarrow> wire" where
  "ConsumptionReceipt_wire r f =
     (if f = ''version'' then WUint (unat (cr_Version r))
      else if f = ''transfer_id'' then WString (cr_TransferID r)
      else if f = ''certificate_hash'' then WString (b64_encode (cr_CertificateHash r))
      else if f = ''account_id'' then WString (cr_AccountID r)
      else if f = ''asset_id'' then WString (cr_AssetID r)
      else if f = ''amount_atoms'' then WString (Amount_String (cr_Amount r))
      else if f = ''source_region'' then WString (cr_SourceRegion r)
      else if f = ''source_legal_entity_id'' then WString (cr_SourceLegalEntityID r)
      else if f = ''source_epoch'' then WUint (unat (cr_SourceEpoch r))
      else if f = ''source_key_epoch'' then WUint (unat (cr_SourceKeyEpoch r))
      else if f = ''destination_region'' then WString (cr_DestinationRegion r)
      else if f = ''destination_legal_entity_id'' then WString (cr_DestinationLegalEntityID r)
      else if f = ''destination_commit_watermark'' then WUint (unat (cr_DestinationCommitWatermark r))
      else if f = ''key_id'' then WString (cr_KeyID r)
      else if f = ''key_epoch'' then WUint (unat (cr_KeyEpoch r))
      else WString (b64_encode (cr_Signature r)))"

definition ConsumptionReceipt_MarshalJSON :: "ConsumptionReceipt \<Rightarrow> bytes" where
  "ConsumptionReceipt_MarshalJSON r = wire_encode wireConsumptionReceipt (ConsumptionReceipt_wire r)"

definition ConsumptionReceipt_UnmarshalJSON :: "bytes \<Rightarrow> escrow_error + ConsumptionReceipt" where
  "ConsumptionReceipt_UnmarshalJSON data =
     (case wire_decode wireConsumptionReceipt data of
        None \<Rightarrow> Inl (ErrDecode ''json'')
      | Some w \<Rightarrow>
        (case b64_decode (wire_string w ''certificate_hash'') of
           None \<Rightarrow> Inl ErrConsumptionReceiptInvalid
         | Some certificateHash \<Rightarrow>
           if length certificateHash \<noteq> 32 then Inl ErrConsumptionReceiptInvalid
           else case b64_decode (wire_string w ''signature'') of
             None \<Rightarrow> Inl (ErrDecode ''decode receipt signature'')
           | Some signature \<Rightarrow>
             (case ParseAmount (wire_string w ''amount_atoms'') of
                Inl _ \<Rightarrow> Inl (ErrDecode ''decode receipt amount'')
              | Inr amount \<Rightarrow>
                Inr \<lparr>cr_Version = word_of_nat (wire_uint w ''version''), cr_TransferID = wire_string w ''transfer_id'',
                     cr_CertificateHash = certificateHash,
                     cr_AccountID = wire_string w ''account_id'', cr_AssetID = wire_string w ''asset_id'',
                     cr_Amount = amount, cr_SourceRegion = wire_string w ''source_region'',
                     cr_SourceLegalEntityID = wire_string w ''source_legal_entity_id'',
                     cr_SourceEpoch = word_of_nat (wire_uint w ''source_epoch''),
                     cr_SourceKeyEpoch = word_of_nat (wire_uint w ''source_key_epoch''),
                     cr_DestinationRegion = wire_string w ''destination_region'',
                     cr_DestinationLegalEntityID = wire_string w ''destination_legal_entity_id'',
                     cr_DestinationCommitWatermark = word_of_nat (wire_uint w ''destination_commit_watermark''),
                     cr_KeyID = wire_string w ''key_id'', cr_KeyEpoch = word_of_nat (wire_uint w ''key_epoch''),
                     cr_Signature = signature\<rparr>)))"

end
