(* ===== verification/Authority_Db.thy ===== *)
theory Authority_Db
  imports Escrow_Types
begin

text \<open>
  The tables of the authority database that \<^verbatim>\<open>internal/escrow\<close> and \<^verbatim>\<open>internal/offline\<close> share (migrations 003, 009,
  012 and 013), and transactions on them.

  A table is a finite map from its primary key to the remaining columns; audit timestamps are left out.
  \<^verbatim>\<open>DECIMAL(38,0)\<close> columns are integers that fit 38 digits, \<^verbatim>\<open>INT8\<close> columns are 64-bit words with a
  non-negative signed reading, NULL is \<open>None\<close>. A statement that violates a column type, a CHECK, a key or a foreign key
  fails with the SQLSTATE of the violation, and the transaction leaves no trace.

  A transaction body is a function from the database to an error or to a result and the new database.
  Under SERIALIZABLE isolation a committed transaction takes effect at one point, so an interleaving of
  clients is a sequence of committed bodies. \<open>inTx\<close> is the retry loop around a body: every attempt has an
  outcome, among them a serialization failure, which is retried, and a commit whose acknowledgement is lost.
\<close>

section \<open>Rows\<close>

record authority_row =
  ar_total_authority :: amount
  ar_unallocated :: amount
  ar_version :: "64 word"

record rights_row =
  rr_available :: amount
  rr_version :: "64 word"

record transfer_row =
  xr_account_id :: string
  xr_asset_id :: string
  xr_source_region :: string
  xr_destination_region :: string
  xr_source_legal_entity_id :: string
  xr_destination_legal_entity_id :: string
  xr_amount :: amount
  xr_source_epoch :: "64 word"
  xr_key_id :: string
  xr_source_key_epoch :: "64 word"
  xr_certificate_payload :: bytes
  xr_certificate_sig :: "bytes option"
  xr_status :: string
  xr_receipt_payload :: "bytes option"
  xr_receipt_sig :: "bytes option"
  xr_receipt_hash :: "bytes option"
  xr_destination_watermark :: "64 word option"
  xr_receipt_key_id :: "string option"
  xr_receipt_key_epoch :: "64 word option"

record consumed_row =
  cn_account_id :: string
  cn_asset_id :: string
  cn_source_region :: string
  cn_destination_region :: string
  cn_amount :: amount
  cn_payload_hash :: bytes
  cn_source_legal_entity_id :: string
  cn_source_key_epoch :: "64 word"
  cn_source_epoch :: "64 word"
  cn_destination_legal_entity_id :: string
  cn_destination_key_id :: string
  cn_destination_key_epoch :: "64 word"
  cn_destination_watermark :: "64 word"
  cn_receipt_payload :: bytes
  cn_receipt_sig :: "bytes option"

record effect_row =
  ef_effect_kind :: string
  ef_account_id :: string
  ef_asset_id :: string
  ef_region :: string
  ef_amount :: amount
  ef_request_hash :: bytes

record allowance_row =
  aw_account_id :: string
  aw_asset_id :: string
  aw_origin_region :: string
  aw_device_identity_hash :: bytes
  aw_device_counter :: "64 word"
  aw_amount :: amount
  aw_issuer_epoch :: "64 word"
  aw_key_id :: string
  aw_canonical_payload :: bytes
  aw_payload_hash :: bytes
  aw_signature :: "bytes option"
  aw_state :: string

type_synonym issuance_key = "string \<times> string \<times> 64 word \<times> string \<times> string \<times> 64 word"

record escrow_db =
  db_authorities :: "(string \<times> string, authority_row) dict"
  db_rights :: "(string \<times> string \<times> string, rights_row) dict"
  db_transfers :: "(string, transfer_row) dict"
  db_consumed :: "(string, consumed_row) dict"
  db_effects :: "(string, effect_row) dict"
  db_watermarks :: "(string \<times> string, 64 word) dict"
  db_transfer_locks :: "string list"
  db_issuance_locks :: "issuance_key list"
  db_offline_issued :: "(string \<times> string \<times> string, amount) dict"
  db_allowances :: "(string, allowance_row) dict"

section \<open>Column types\<close>

definition numeric_out_of_range :: escrow_error where "numeric_out_of_range = ErrDatabase ''22003''"

definition unique_violation :: escrow_error where "unique_violation = ErrDatabase ''23505''"

definition foreign_key_violation :: escrow_error where "foreign_key_violation = ErrDatabase ''23503''"

definition check_violation :: escrow_error where "check_violation = ErrDatabase ''23514''"

definition decimal38 :: "int \<Rightarrow> escrow_error + amount" where
  "decimal38 v = (if fitsDecimal38 v then Inr v else Inl numeric_out_of_range)"

definition int8_succ :: "64 word \<Rightarrow> escrow_error + 64 word" where
  "int8_succ v = (if v = 0x7FFFFFFFFFFFFFFF then Inl numeric_out_of_range else Inr (v + 1))"

definition int8_param :: "uint64 \<Rightarrow> escrow_error + 64 word" where
  "int8_param v = (if v > 0x7FFFFFFFFFFFFFFF then Inl numeric_out_of_range else Inr v)"

text \<open>A \<^verbatim>\<open>DECIMAL\<close> column read as text and parsed by \<^verbatim>\<open>ledger.ParseAmount\<close>.\<close>

definition read_amount :: "amount \<Rightarrow> escrow_error + amount" where
  "read_amount a = (case ParseAmount (Amount_String a) of Inl e \<Rightarrow> Inl (ErrLedgerAmount e) | Inr v \<Rightarrow> Inr v)"

text \<open>\<^verbatim>\<open>UPDATE escrow_authorities\<close>: column types and the CHECK constraints of the table.\<close>

definition write_authority ::
  "string \<times> string \<Rightarrow> int \<Rightarrow> int \<Rightarrow> 64 word \<Rightarrow> escrow_db \<Rightarrow> escrow_error + escrow_db" where
  "write_authority key tot unallocated version db =
     (if \<not> fitsDecimal38 tot \<or> \<not> fitsDecimal38 unallocated then Inl numeric_out_of_range
      else if tot < 0 \<or> unallocated < 0 \<or> unallocated > tot then Inl check_violation
      else Inr (db\<lparr>db_authorities := dset key \<lparr>ar_total_authority = tot, ar_unallocated = unallocated,
                     ar_version = version\<rparr> (db_authorities db)\<rparr>))"

definition write_rights ::
  "string \<times> string \<times> string \<Rightarrow> int \<Rightarrow> 64 word \<Rightarrow> escrow_db \<Rightarrow> escrow_error + escrow_db" where
  "write_rights key available version db =
     (if \<not> fitsDecimal38 available then Inl numeric_out_of_range
      else if available < 0 then Inl check_violation
      else Inr (db\<lparr>db_rights := dset key \<lparr>rr_available = available, rr_version = version\<rparr> (db_rights db)\<rparr>))"

text \<open>
  The upsert of regional rights that allocation, consumption and termination share: insert the row, or add
  to the available amount of the existing row. A new row must reference an authority.
\<close>

definition add_regional_rights ::
  "string \<Rightarrow> string \<Rightarrow> string \<Rightarrow> amount \<Rightarrow> escrow_db \<Rightarrow> escrow_error + escrow_db" where
  "add_regional_rights account asset region amount db =
     (case dget (db_rights db) (account, asset, region) of
        None \<Rightarrow>
          if dget (db_authorities db) (account, asset) = None then Inl foreign_key_violation
          else write_rights (account, asset, region) amount 0 db
      | Some row \<Rightarrow>
          (case int8_succ (rr_version row) of
             Inl e \<Rightarrow> Inl e
           | Inr version \<Rightarrow> write_rights (account, asset, region) (rr_available row + amount) version db))"

section \<open>Transactions\<close>

type_synonym 'a tx = "escrow_db \<Rightarrow> escrow_error + 'a \<times> escrow_db"

text \<open>
  What becomes of one attempt: it commits, it meets a serialization failure (SQLSTATE 40001) and is rolled back,
  it fails and is rolled back, or it commits and the acknowledgement is lost, so the caller sees an error.
\<close>

datatype attempt = Committed | SerializationFailure | RolledBack | AckLost

definition connection_lost :: escrow_error where "connection_lost = ErrDatabase ''08006''"

definition retry_limit :: escrow_error where "retry_limit = ErrEscrowOther ''escrow transaction retry limit''"

fun inTx :: "nat \<Rightarrow> attempt list \<Rightarrow> 'a tx \<Rightarrow> escrow_db \<Rightarrow> (escrow_error + 'a) \<times> escrow_db" where
  "inTx 0 attempts fn db = (Inl retry_limit, db)"
| "inTx (Suc n) attempts fn db =
     (case attempts of
        SerializationFailure # rest \<Rightarrow> inTx n rest fn db
      | _ \<Rightarrow>
        (case fn db of
           Inl e \<Rightarrow> (Inl e, db)
         | Inr (x, db') \<Rightarrow>
           (case attempts of
              RolledBack # _ \<Rightarrow> (Inl connection_lost, db)
            | AckLost # _ \<Rightarrow> (Inl connection_lost, db')
            | _ \<Rightarrow> (Inr x, db'))))"

section \<open>Lemmas\<close>

lemma inTx_result:
  "snd (inTx n attempts fn db) = db \<and> (\<nexists>x. fst (inTx n attempts fn db) = Inr x) \<or>
   (\<exists>x db'. fn db = Inr (x, db') \<and> snd (inTx n attempts fn db) = db' \<and>
      (fst (inTx n attempts fn db) = Inr x \<or> fst (inTx n attempts fn db) = Inl connection_lost))"
proof (induction n arbitrary: attempts)
  case (Suc n)
  show ?case
  proof (cases attempts)
    case Nil
    then show ?thesis by (cases "fn db") auto
  next
    case (Cons a rest)
    show ?thesis
    proof (cases a)
      case SerializationFailure
      with Cons show ?thesis using Suc.IH [of rest] by simp
    qed (cases "fn db"; auto simp: Cons)+
  qed
qed simp

lemma inTx_cases:
  obtains (unchanged) "snd (inTx n attempts fn db) = db" "\<nexists>x. fst (inTx n attempts fn db) = Inr x"
  | (committed) x db' where "fn db = Inr (x, db')" "snd (inTx n attempts fn db) = db'"
      "fst (inTx n attempts fn db) = Inr x \<or> fst (inTx n attempts fn db) = Inl connection_lost"
  using inTx_result [of n attempts fn db] by blast

text \<open>A property of the database that every successful body keeps is kept by the retry loop, whatever the attempts.\<close>

lemma inTx_preserves:
  assumes "P db" "\<And>x db'. fn db = Inr (x, db') \<Longrightarrow> P db'"
  shows "P (snd (inTx n attempts fn db))"
  by (rule inTx_cases [of n attempts fn db]) (use assms in auto)

lemma inTx_Inr: "fst (inTx n attempts fn db) = Inr x \<Longrightarrow> fn db = Inr (x, snd (inTx n attempts fn db))"
  by (rule inTx_cases [of n attempts fn db]) auto

lemma inTx_ok: "0 < n \<Longrightarrow> fn db = Inr (x, db') \<Longrightarrow> inTx n [] fn db = (Inr x, db')"
  by (cases n) auto

lemma read_amount_fits [simp]: "fitsDecimal38 a \<Longrightarrow> read_amount a = Inr a"
  by (simp add: read_amount_def ParseAmount_String)

end
