(* ===== verification/Escrow_Service.thy ===== *)
theory Escrow_Service
  imports Authority_Db
begin

text \<open>
  The operations of \<^verbatim>\<open>internal/escrow\<close> on the authority database: the local effects of \<^verbatim>\<open>effects.go\<close> (allocate, spend,
  return) and the cross-region transfer protocol of \<^verbatim>\<open>service.go\<close> (initiate, consume, acknowledge) with the
  snapshot the conservation check reads.

  Every SQL statement is translated at its place. A method that runs two transactions takes the
  interference between them as an argument: \<open>between\<close> is what other clients commit after the first transaction
  and before the second.
\<close>

section \<open>Effects\<close>

definition lengthPrefixed64 :: "string \<Rightarrow> bytes" where
  "lengthPrefixed64 value = put_uint64 (word_of_nat (length value)) @ value"

definition hashEffect :: "EffectKind \<Rightarrow> EffectRequest \<Rightarrow> bytes" where
  "hashEffect kind request =
     sha256 (''payment-platform/escrow-effect/v1'' @ [CHR 0x00]
       @ concat (map lengthPrefixed64
           [kind, er_EffectID request, er_AccountID request, er_AssetID request, er_Region request,
            Amount_String (er_Amount request)]))"

definition sameEffect :: "effect_row \<Rightarrow> EffectKind \<Rightarrow> EffectRequest \<Rightarrow> bool" where
  "sameEffect row kind request \<longleftrightarrow>
     ef_effect_kind row = kind \<and> ef_account_id row = er_AccountID request \<and> ef_asset_id row = er_AssetID request \<and>
     ef_region row = er_Region request \<and> Amount_String (ef_amount row) = Amount_String (er_Amount request) \<and>
     ef_request_hash row = hashEffect kind request"

definition insert_effect :: "EffectKind \<Rightarrow> EffectRequest \<Rightarrow> escrow_db \<Rightarrow> escrow_error + escrow_db" where
  "insert_effect kind request db =
     (case decimal38 (er_Amount request) of
        Inl e \<Rightarrow> Inl e
      | Inr amount \<Rightarrow>
        if dget (db_authorities db) (er_AccountID request, er_AssetID request) = None then Inl foreign_key_violation
        else Inr (db\<lparr>db_effects := dset (er_EffectID request)
                \<lparr>ef_effect_kind = kind, ef_account_id = er_AccountID request, ef_asset_id = er_AssetID request,
                 ef_region = er_Region request, ef_amount = amount, ef_request_hash = hashEffect kind request\<rparr>
                (db_effects db)\<rparr>))"

definition applyEffect ::
  "EffectKind \<Rightarrow> EffectRequest \<Rightarrow> (escrow_db \<Rightarrow> escrow_error + escrow_db) \<Rightarrow> EffectReceipt tx" where
  "applyEffect kind request mutate db =
     (if \<not> EffectKind_valid kind then Inl ErrInvalidArgument
      else case EffectRequest_validate request of
        Some e \<Rightarrow> Inl e
      | None \<Rightarrow>
        let receipt = \<lparr>rc_EffectID = er_EffectID request, rc_Kind = kind, rc_RequestHash = hashEffect kind request,
                       rc_Duplicate = False\<rparr> in
        (case dget (db_effects db) (er_EffectID request) of
           Some row \<Rightarrow>
             if \<not> sameEffect row kind request then Inl ErrEffectConflict
             else Inr (receipt\<lparr>rc_Duplicate := True\<rparr>, db)
         | None \<Rightarrow>
             (case insert_effect kind request db of
                Inl e \<Rightarrow> Inl e
              | Inr db \<Rightarrow> (case mutate db of Inl e \<Rightarrow> Inl e | Inr db \<Rightarrow> Inr (receipt, db)))))"

text \<open>The three bodies that \<^verbatim>\<open>applyEffect\<close> runs after the receipt is inserted.\<close>

definition allocateRights :: "EffectRequest \<Rightarrow> escrow_db \<Rightarrow> escrow_error + escrow_db" where
  "allocateRights r db =
     (case dget (db_authorities db) (er_AccountID r, er_AssetID r) of
        None \<Rightarrow> Inl ErrInsufficientRights
      | Some row \<Rightarrow>
        if ar_unallocated row < er_Amount r then Inl ErrInsufficientRights
        else case int8_succ (ar_version row) of
          Inl e \<Rightarrow> Inl e
        | Inr version \<Rightarrow>
          (case write_authority (er_AccountID r, er_AssetID r) (ar_total_authority row)
                  (ar_unallocated row - er_Amount r) version db of
             Inl e \<Rightarrow> Inl e
           | Inr db \<Rightarrow> add_regional_rights (er_AccountID r) (er_AssetID r) (er_Region r) (er_Amount r) db))"

definition reduce_total ::
  "string \<Rightarrow> string \<Rightarrow> amount \<Rightarrow> escrow_db \<Rightarrow> escrow_error + escrow_db" where
  "reduce_total account asset amount db =
     (case dget (db_authorities db) (account, asset) of
        None \<Rightarrow> Inl ErrInsufficientRights
      | Some row \<Rightarrow>
        if ar_total_authority row < amount then Inl ErrInsufficientRights
        else case int8_succ (ar_version row) of
          Inl e \<Rightarrow> Inl e
        | Inr version \<Rightarrow>
            write_authority (account, asset) (ar_total_authority row - amount) (ar_unallocated row) version db)"

definition spendRights :: "EffectRequest \<Rightarrow> escrow_db \<Rightarrow> escrow_error + escrow_db" where
  "spendRights r db =
     (case dget (db_rights db) (er_AccountID r, er_AssetID r, er_Region r) of
        None \<Rightarrow> Inl ErrInsufficientRights
      | Some row \<Rightarrow>
        if rr_available row < er_Amount r then Inl ErrInsufficientRights
        else case int8_succ (rr_version row) of
          Inl e \<Rightarrow> Inl e
        | Inr version \<Rightarrow>
          (case write_rights (er_AccountID r, er_AssetID r, er_Region r) (rr_available row - er_Amount r) version db of
             Inl e \<Rightarrow> Inl e
           | Inr db \<Rightarrow> reduce_total (er_AccountID r) (er_AssetID r) (er_Amount r) db))"

definition returnRights :: "EffectRequest \<Rightarrow> escrow_db \<Rightarrow> escrow_error + escrow_db" where
  "returnRights r db =
     (case dget (db_rights db) (er_AccountID r, er_AssetID r, er_Region r) of
        None \<Rightarrow> Inl ErrInvalidArgument
      | Some row \<Rightarrow>
        (case int8_succ (rr_version row) of
           Inl e \<Rightarrow> Inl e
         | Inr version \<Rightarrow>
           (case write_rights (er_AccountID r, er_AssetID r, er_Region r) (rr_available row + er_Amount r) version db of
              Inl e \<Rightarrow> Inl e
            | Inr db \<Rightarrow>
              (case dget (db_authorities db) (er_AccountID r, er_AssetID r) of
                 None \<Rightarrow> Inl (ErrEscrowOther ''escrow authority disappeared during return'')
               | Some row \<Rightarrow>
                 (case int8_succ (ar_version row) of
                    Inl e \<Rightarrow> Inl e
                  | Inr version \<Rightarrow>
                      write_authority (er_AccountID r, er_AssetID r) (ar_total_authority row + er_Amount r)
                        (ar_unallocated row) version db)))))"

definition AllocateInTx :: "EffectRequest \<Rightarrow> EffectReceipt tx" where
  "AllocateInTx request = applyEffect EffectAllocate request (allocateRights request)"

definition SpendInTx :: "EffectRequest \<Rightarrow> EffectReceipt tx" where
  "SpendInTx request = applyEffect EffectSpend request (spendRights request)"

definition ReturnInTx :: "EffectRequest \<Rightarrow> EffectReceipt tx" where
  "ReturnInTx request = applyEffect EffectReturn request (returnRights request)"

definition mapEffectDatabaseError :: "escrow_error \<Rightarrow> escrow_error" where
  "mapEffectDatabaseError err = (if err = foreign_key_violation then ErrInsufficientRights else err)"

definition defaultSerializableRetries :: nat where "defaultSerializableRetries = 8"

definition runEffect ::
  "attempt list \<Rightarrow> EffectRequest \<Rightarrow> EffectReceipt tx \<Rightarrow> escrow_db \<Rightarrow> (escrow_error + EffectReceipt) \<times> escrow_db" where
  "runEffect attempts request body db =
     (case EffectRequest_validate request of
        Some e \<Rightarrow> (Inl e, db)
      | None \<Rightarrow>
        (case inTx defaultSerializableRetries attempts body db of
           (Inl e, db) \<Rightarrow> (Inl (mapEffectDatabaseError e), db)
         | (Inr receipt, db) \<Rightarrow> (Inr receipt, db)))"

definition Allocate ::
  "attempt list \<Rightarrow> EffectRequest \<Rightarrow> escrow_db \<Rightarrow> (escrow_error + EffectReceipt) \<times> escrow_db" where
  "Allocate attempts request = runEffect attempts request (AllocateInTx request)"

definition Spend ::
  "attempt list \<Rightarrow> EffectRequest \<Rightarrow> escrow_db \<Rightarrow> (escrow_error + EffectReceipt) \<times> escrow_db" where
  "Spend attempts request = runEffect attempts request (SpendInTx request)"

definition Return ::
  "attempt list \<Rightarrow> EffectRequest \<Rightarrow> escrow_db \<Rightarrow> (escrow_error + EffectReceipt) \<times> escrow_db" where
  "Return attempts request = runEffect attempts request (ReturnInTx request)"

section \<open>Authorities\<close>

definition createAuthorityTx :: "string \<Rightarrow> string \<Rightarrow> amount \<Rightarrow> unit tx" where
  "createAuthorityTx accountID assetID tot db =
     (case dget (db_authorities db) (accountID, assetID) of
        None \<Rightarrow>
          (case write_authority (accountID, assetID) tot tot 0 db of Inl e \<Rightarrow> Inl e | Inr db \<Rightarrow> Inr ((), db))
      | Some row \<Rightarrow>
        (case read_amount (ar_total_authority row) of
           Inl e \<Rightarrow> Inl e
         | Inr existing \<Rightarrow> if Amount_Cmp existing tot \<noteq> 0 then Inl ErrAuthorityConflict else Inr ((), db)))"

definition CreateAuthority ::
  "attempt list \<Rightarrow> string \<Rightarrow> string \<Rightarrow> amount \<Rightarrow> escrow_db \<Rightarrow> (escrow_error + unit) \<times> escrow_db" where
  "CreateAuthority attempts accountID assetID tot db =
     (if accountID = [] \<or> assetID = [] \<or> Amount_Sign tot < 0 then (Inl ErrInvalidArgument, db)
      else inTx defaultSerializableRetries attempts (createAuthorityTx accountID assetID tot) db)"

section \<open>Transfers: source side\<close>

definition validateTransferRequest :: "TransferRequest \<Rightarrow> escrow_error option" where
  "validateTransferRequest r =
     (if tr_TransferID r = [] \<or> tr_AccountID r = [] \<or> tr_AssetID r = []
         \<or> tr_SourceRegion r = [] \<or> tr_DestinationRegion r = [] \<or> tr_SourceRegion r = tr_DestinationRegion r
         \<or> tr_SourceLegalEntityID r = [] \<or> tr_DestinationLegalEntityID r = [] \<or> Amount_Sign (tr_Amount r) \<le> 0
      then Some ErrInvalidArgument else None)"

record transferRecord =
  tf_Certificate :: Certificate
  tf_Status :: string
  tf_ReceiptPayload :: bytes
  tf_ReceiptSignature :: bytes
  tf_ReceiptHash :: bytes

definition null_bytes :: "bytes option \<Rightarrow> bytes" where
  "null_bytes b = (case b of None \<Rightarrow> [] | Some v \<Rightarrow> v)"

definition row_certificate :: "string \<Rightarrow> transfer_row \<Rightarrow> amount \<Rightarrow> Certificate" where
  "row_certificate transferID row amount =
     \<lparr>ce_Version = certificateVersion, ce_TransferID = transferID, ce_AccountID = xr_account_id row,
      ce_AssetID = xr_asset_id row, ce_SourceRegion = xr_source_region row,
      ce_DestinationRegion = xr_destination_region row, ce_SourceLegalEntityID = xr_source_legal_entity_id row,
      ce_DestinationLegalEntityID = xr_destination_legal_entity_id row, ce_Amount = amount,
      ce_SourceEpoch = xr_source_epoch row, ce_KeyID = xr_key_id row, ce_KeyEpoch = xr_source_key_epoch row,
      ce_Signature = null_bytes (xr_certificate_sig row)\<rparr>"

definition loadTransferRecord :: "escrow_db \<Rightarrow> string \<Rightarrow> escrow_error + transferRecord option" where
  "loadTransferRecord db transferID =
     (case dget (db_transfers db) transferID of
        None \<Rightarrow> Inr None
      | Some row \<Rightarrow>
        (case read_amount (xr_amount row) of
           Inl e \<Rightarrow> Inl e
         | Inr amount \<Rightarrow>
           let c = row_certificate transferID row amount in
           (case Certificate_Payload c of
              Inl _ \<Rightarrow> Inl ErrCertificateInvalid
            | Inr actual \<Rightarrow>
              if xr_certificate_payload row \<noteq> actual then Inl ErrCertificateInvalid
              else Inr (Some \<lparr>tf_Certificate = c, tf_Status = xr_status row,
                              tf_ReceiptPayload = null_bytes (xr_receipt_payload row),
                              tf_ReceiptSignature = null_bytes (xr_receipt_sig row),
                              tf_ReceiptHash = null_bytes (xr_receipt_hash row)\<rparr>))))"

definition sameTransfer :: "Certificate \<Rightarrow> TransferRequest \<Rightarrow> bool" where
  "sameTransfer c r \<longleftrightarrow>
     ce_TransferID c = tr_TransferID r \<and> ce_AccountID c = tr_AccountID r \<and> ce_AssetID c = tr_AssetID r \<and>
     ce_SourceRegion c = tr_SourceRegion r \<and> ce_DestinationRegion c = tr_DestinationRegion r \<and>
     ce_SourceLegalEntityID c = tr_SourceLegalEntityID r \<and>
     ce_DestinationLegalEntityID c = tr_DestinationLegalEntityID r \<and> Amount_Cmp (ce_Amount c) (tr_Amount r) = 0"

definition draftCertificate :: "TransferRequest \<Rightarrow> KeyBinding \<Rightarrow> 64 word \<Rightarrow> Certificate" where
  "draftCertificate r binding epoch =
     \<lparr>ce_Version = certificateVersion, ce_TransferID = tr_TransferID r, ce_AccountID = tr_AccountID r,
      ce_AssetID = tr_AssetID r, ce_SourceRegion = tr_SourceRegion r, ce_DestinationRegion = tr_DestinationRegion r,
      ce_SourceLegalEntityID = tr_SourceLegalEntityID r, ce_DestinationLegalEntityID = tr_DestinationLegalEntityID r,
      ce_Amount = tr_Amount r, ce_SourceEpoch = epoch, ce_KeyID = kb_KeyID binding, ce_KeyEpoch = kb_Epoch binding,
      ce_Signature = []\<rparr>"

text \<open>\<^verbatim>\<open>INSERT INTO escrow_transfers\<close>: the primary key, the unique issuance tuple and the column types.\<close>

definition same_issuance :: "transfer_row \<Rightarrow> transfer_row \<Rightarrow> bool" where
  "same_issuance a b \<longleftrightarrow> xr_account_id a = xr_account_id b \<and> xr_asset_id a = xr_asset_id b \<and>
     xr_source_region a = xr_source_region b \<and> xr_source_epoch a = xr_source_epoch b"

definition insert_transfer :: "Certificate \<Rightarrow> bytes \<Rightarrow> escrow_db \<Rightarrow> escrow_error + escrow_db" where
  "insert_transfer c payload db =
     (case decimal38 (ce_Amount c) of
        Inl e \<Rightarrow> Inl e
      | Inr amount \<Rightarrow>
      (case int8_param (ce_SourceEpoch c) of
        Inl e \<Rightarrow> Inl e
      | Inr epoch \<Rightarrow>
      (case int8_param (ce_KeyEpoch c) of
        Inl e \<Rightarrow> Inl e
      | Inr keyEpoch \<Rightarrow>
          let row = \<lparr>xr_account_id = ce_AccountID c, xr_asset_id = ce_AssetID c, xr_source_region = ce_SourceRegion c,
                     xr_destination_region = ce_DestinationRegion c,
                     xr_source_legal_entity_id = ce_SourceLegalEntityID c,
                     xr_destination_legal_entity_id = ce_DestinationLegalEntityID c, xr_amount = amount,
                     xr_source_epoch = epoch, xr_key_id = ce_KeyID c, xr_source_key_epoch = keyEpoch,
                     xr_certificate_payload = payload, xr_certificate_sig = None, xr_status = ''IN_TRANSIT'',
                     xr_receipt_payload = None, xr_receipt_sig = None, xr_receipt_hash = None,
                     xr_destination_watermark = None, xr_receipt_key_id = None, xr_receipt_key_epoch = None\<rparr> in
          if amount \<le> 0 \<or> ce_SourceRegion c = ce_DestinationRegion c then Inl check_violation
          else if dget (db_transfers db) (ce_TransferID c) \<noteq> None
             \<or> list_ex (\<lambda>(_, r). same_issuance r row) (entries (db_transfers db))
          then Inl unique_violation
          else Inr (db\<lparr>db_transfers := dset (ce_TransferID c) row (db_transfers db)\<rparr>))))"

definition initiateTx :: "TransferRequest \<Rightarrow> KeyBinding \<Rightarrow> Certificate tx" where
  "initiateTx r binding db =
     (case loadTransferRecord db (tr_TransferID r) of
        Inl e \<Rightarrow> Inl e
      | Inr (Some record) \<Rightarrow>
          if \<not> sameTransfer (tf_Certificate record) r then Inl ErrCertificateConflict
          else Inr (tf_Certificate record, db)
      | Inr None \<Rightarrow>
        (case dget (db_rights db) (tr_AccountID r, tr_AssetID r, tr_SourceRegion r) of
           None \<Rightarrow> Inl ErrInsufficientRights
         | Some row \<Rightarrow>
           (case read_amount (rr_available row) of
              Inl e \<Rightarrow> Inl e
            | Inr available \<Rightarrow>
              if Amount_Cmp available (tr_Amount r) < 0 \<or> rr_version row = 0x7FFFFFFFFFFFFFFF
              then Inl ErrInsufficientRights
              else
                let epoch = rr_version row + 1; draft = draftCertificate r binding epoch in
                (case Certificate_Payload draft of
                   Inl e \<Rightarrow> Inl e
                 | Inr payload \<Rightarrow>
                   if rr_available row < tr_Amount r then Inl ErrInsufficientRights
                   else case write_rights (tr_AccountID r, tr_AssetID r, tr_SourceRegion r)
                          (rr_available row - tr_Amount r) epoch db of
                     Inl e \<Rightarrow> Inl e
                   | Inr db \<Rightarrow>
                     (case insert_transfer draft payload db of Inl e \<Rightarrow> Inl e | Inr db \<Rightarrow> Inr (draft, db))))))"

definition attachCertificateTx :: "Certificate \<Rightarrow> bytes \<Rightarrow> Certificate tx" where
  "attachCertificateTx signedValue payload db =
     (case loadTransferRecord db (ce_TransferID signedValue) of
        Inl e \<Rightarrow> Inl e
      | Inr None \<Rightarrow> Inl ErrCertificateConflict
      | Inr (Some record) \<Rightarrow>
        (case Certificate_Payload (tf_Certificate record) of
           Inl _ \<Rightarrow> Inl ErrCertificateConflict
         | Inr storedPayload \<Rightarrow>
           if storedPayload \<noteq> payload then Inl ErrCertificateConflict
           else if ce_Signature (tf_Certificate record) = [] then
             (case dget (db_transfers db) (ce_TransferID signedValue) of
                None \<Rightarrow> Inl ErrCertificateConflict
              | Some row \<Rightarrow>
                if xr_certificate_sig row \<noteq> None then Inl ErrCertificateConflict
                else Inr ((tf_Certificate record)\<lparr>ce_Signature := ce_Signature signedValue\<rparr>,
                          db\<lparr>db_transfers := dset (ce_TransferID signedValue)
                               (row\<lparr>xr_certificate_sig := Some (ce_Signature signedValue)\<rparr>) (db_transfers db)\<rparr>))
           else Inr (tf_Certificate record, db)))"

text \<open>The service: its signers, its key resolver and Ed25519 verification.\<close>

record escrow_service =
  sv_signer :: "(KeyBinding \<times> (Certificate \<Rightarrow> escrow_error + Certificate)) option"
  sv_receiptSigner :: "(KeyBinding \<times> (ConsumptionReceipt \<Rightarrow> escrow_error + ConsumptionReceipt)) option"
  sv_verifier :: "KeyResolver option"
  sv_ed_verify :: "bytes \<Rightarrow> bytes \<Rightarrow> bytes \<Rightarrow> bool"

definition attachCertificateSignature ::
  "attempt list \<Rightarrow> Certificate \<Rightarrow> escrow_db \<Rightarrow> (escrow_error + Certificate) \<times> escrow_db" where
  "attachCertificateSignature attempts signedValue db =
     (case Certificate_Payload signedValue of
        Inl e \<Rightarrow> (Inl e, db)
      | Inr payload \<Rightarrow> inTx defaultSerializableRetries attempts (attachCertificateTx signedValue payload) db)"

definition verified_certificate ::
  "escrow_service \<Rightarrow> (escrow_error + Certificate) \<times> escrow_db \<Rightarrow> (escrow_error + Certificate) \<times> escrow_db" where
  "verified_certificate s result =
     (case result of
        (Inl e, db) \<Rightarrow> (Inl e, db)
      | (Inr c, db) \<Rightarrow>
        (case VerifyCertificate (sv_ed_verify s) c (sv_verifier s) of
           Some e \<Rightarrow> (Inl e, db)
         | None \<Rightarrow> (Inr c, db)))"

text \<open>What follows the committed draft: a stored signature is verified, a missing one is made, verified and attached.\<close>

definition signed_transfer ::
  "escrow_service \<Rightarrow> (Certificate \<Rightarrow> escrow_error + Certificate) \<Rightarrow> attempt list \<Rightarrow> (escrow_db \<Rightarrow> escrow_db)
     \<Rightarrow> Certificate \<Rightarrow> escrow_db \<Rightarrow> (escrow_error + Certificate) \<times> escrow_db" where
  "signed_transfer s Sign attempts2 between draft db =
     (if ce_Signature draft \<noteq> [] then verified_certificate s (Inr draft, db)
      else case Sign draft of
        Inl e \<Rightarrow> (Inl e, db)
      | Inr signedValue \<Rightarrow>
        (case VerifyCertificate (sv_ed_verify s) signedValue (sv_verifier s) of
           Some e \<Rightarrow> (Inl e, db)
         | None \<Rightarrow> verified_certificate s (attachCertificateSignature attempts2 signedValue (between db))))"

definition Service_InitiateTransfer ::
  "escrow_service \<Rightarrow> attempt list \<Rightarrow> attempt list \<Rightarrow> (escrow_db \<Rightarrow> escrow_db) \<Rightarrow> TransferRequest \<Rightarrow> escrow_db
     \<Rightarrow> (escrow_error + Certificate) \<times> escrow_db" where
  "Service_InitiateTransfer s attempts1 attempts2 between r db =
     (case sv_signer s of
        None \<Rightarrow> (Inl ErrInvalidArgument, db)
      | Some (binding, Sign) \<Rightarrow>
        if validateTransferRequest r \<noteq> None \<or> sv_verifier s = None then (Inl ErrInvalidArgument, db)
        else if \<not> KeyBinding_validFor binding KeyPurposeTransferCertificate
                \<or> kb_Region binding \<noteq> tr_SourceRegion r \<or> kb_LegalEntityID binding \<noteq> tr_SourceLegalEntityID r
        then (Inl ErrCertificateInvalid, db)
        else case inTx defaultSerializableRetries attempts1 (initiateTx r binding) db of
          (Inl e, db) \<Rightarrow> (Inl e, db)
        | (Inr draft, db) \<Rightarrow> signed_transfer s Sign attempts2 between draft db)"

section \<open>Transfers: destination side\<close>

definition issuance_of :: "Certificate \<Rightarrow> issuance_key" where
  "issuance_of c = (ce_SourceLegalEntityID c, ce_SourceRegion c, ce_KeyEpoch c, ce_AccountID c, ce_AssetID c, ce_SourceEpoch c)"

definition row_issuance :: "consumed_row \<Rightarrow> issuance_key" where
  "row_issuance row = (cn_source_legal_entity_id row, cn_source_region row, cn_source_key_epoch row,
     cn_account_id row, cn_asset_id row, cn_source_epoch row)"

definition lockConsumptionIdentity :: "Certificate \<Rightarrow> escrow_db \<Rightarrow> escrow_error + escrow_db" where
  "lockConsumptionIdentity c db =
     (case int8_param (ce_KeyEpoch c) of
        Inl e \<Rightarrow> Inl e
      | Inr _ \<Rightarrow>
      (case int8_param (ce_SourceEpoch c) of
        Inl e \<Rightarrow> Inl e
      | Inr _ \<Rightarrow>
          if ce_KeyEpoch c = 0 \<or> ce_SourceEpoch c = 0 then Inl check_violation
          else Inr (db\<lparr>db_transfer_locks := List.insert (ce_TransferID c) (db_transfer_locks db),
                       db_issuance_locks := List.insert (issuance_of c) (db_issuance_locks db)\<rparr>)))"

definition row_receipt :: "string \<Rightarrow> consumed_row \<Rightarrow> amount \<Rightarrow> ConsumptionReceipt" where
  "row_receipt transferID row amount =
     \<lparr>cr_Version = consumptionReceiptVersion, cr_TransferID = transferID, cr_CertificateHash = cn_payload_hash row,
      cr_AccountID = cn_account_id row, cr_AssetID = cn_asset_id row, cr_Amount = amount,
      cr_SourceRegion = cn_source_region row, cr_SourceLegalEntityID = cn_source_legal_entity_id row,
      cr_SourceEpoch = cn_source_epoch row, cr_SourceKeyEpoch = cn_source_key_epoch row,
      cr_DestinationRegion = cn_destination_region row, cr_DestinationLegalEntityID = cn_destination_legal_entity_id row,
      cr_DestinationCommitWatermark = cn_destination_watermark row, cr_KeyID = cn_destination_key_id row,
      cr_KeyEpoch = cn_destination_key_epoch row, cr_Signature = null_bytes (cn_receipt_sig row)\<rparr>"

text \<open>The part of \<^verbatim>\<open>loadConsumption\<close> after a row was found.\<close>

definition loadConsumptionRow :: "string \<Rightarrow> consumed_row \<Rightarrow> escrow_error + ConsumptionReceipt" where
  "loadConsumptionRow transferID row =
     (if length (cn_payload_hash row) \<noteq> 32 then Inl ErrConsumptionReceiptInvalid
      else case read_amount (cn_amount row) of
        Inl e \<Rightarrow> Inl e
      | Inr amount \<Rightarrow>
        let receipt = row_receipt transferID row amount in
        (case ConsumptionReceipt_Payload receipt of
           Inl _ \<Rightarrow> Inl ErrConsumptionReceiptInvalid
         | Inr actual \<Rightarrow>
           if actual \<noteq> cn_receipt_payload row then Inl ErrConsumptionReceiptInvalid else Inr receipt))"

definition loadConsumptionByTransfer :: "escrow_db \<Rightarrow> string \<Rightarrow> escrow_error + ConsumptionReceipt option" where
  "loadConsumptionByTransfer db transferID =
     (case dget (db_consumed db) transferID of
        None \<Rightarrow> Inr None
      | Some row \<Rightarrow>
        (case loadConsumptionRow transferID row of Inl e \<Rightarrow> Inl e | Inr receipt \<Rightarrow> Inr (Some receipt)))"

definition loadConsumptionByIssuance :: "escrow_db \<Rightarrow> Certificate \<Rightarrow> escrow_error + ConsumptionReceipt option" where
  "loadConsumptionByIssuance db c =
     (case List.find (\<lambda>(_, row). row_issuance row = issuance_of c) (entries (db_consumed db)) of
        None \<Rightarrow> Inr None
      | Some (transferID, row) \<Rightarrow>
        (case loadConsumptionRow transferID row of Inl e \<Rightarrow> Inl e | Inr receipt \<Rightarrow> Inr (Some receipt)))"

definition receiptMatchesCertificate :: "ConsumptionReceipt \<Rightarrow> Certificate \<Rightarrow> bytes \<Rightarrow> bool" where
  "receiptMatchesCertificate receipt c certificateHash \<longleftrightarrow>
     cr_CertificateHash receipt = certificateHash \<and> cr_TransferID receipt = ce_TransferID c \<and>
     cr_AccountID receipt = ce_AccountID c \<and> cr_AssetID receipt = ce_AssetID c \<and>
     Amount_Cmp (cr_Amount receipt) (ce_Amount c) = 0 \<and> cr_SourceRegion receipt = ce_SourceRegion c \<and>
     cr_SourceLegalEntityID receipt = ce_SourceLegalEntityID c \<and> cr_SourceEpoch receipt = ce_SourceEpoch c \<and>
     cr_SourceKeyEpoch receipt = ce_KeyEpoch c \<and> cr_DestinationRegion receipt = ce_DestinationRegion c \<and>
     cr_DestinationLegalEntityID receipt = ce_DestinationLegalEntityID c"

definition nextConsumptionWatermark :: "KeyBinding \<Rightarrow> escrow_db \<Rightarrow> escrow_error + uint64 \<times> escrow_db" where
  "nextConsumptionWatermark binding db =
     (let key = (kb_LegalEntityID binding, kb_Region binding);
          next = dget_or 0 (db_watermarks db) key
      in if next \<ge> 0x7FFFFFFFFFFFFFFF then Inl ErrConsumptionReceiptInvalid
         else Inr (next + 1, db\<lparr>db_watermarks := dset key (next + 1) (db_watermarks db)\<rparr>))"

definition draftReceipt :: "Certificate \<Rightarrow> bytes \<Rightarrow> KeyBinding \<Rightarrow> uint64 \<Rightarrow> ConsumptionReceipt" where
  "draftReceipt c certificateHash binding watermark =
     \<lparr>cr_Version = consumptionReceiptVersion, cr_TransferID = ce_TransferID c, cr_CertificateHash = certificateHash,
      cr_AccountID = ce_AccountID c, cr_AssetID = ce_AssetID c, cr_Amount = ce_Amount c,
      cr_SourceRegion = ce_SourceRegion c, cr_SourceLegalEntityID = ce_SourceLegalEntityID c,
      cr_SourceEpoch = ce_SourceEpoch c, cr_SourceKeyEpoch = ce_KeyEpoch c,
      cr_DestinationRegion = ce_DestinationRegion c, cr_DestinationLegalEntityID = ce_DestinationLegalEntityID c,
      cr_DestinationCommitWatermark = watermark, cr_KeyID = kb_KeyID binding, cr_KeyEpoch = kb_Epoch binding,
      cr_Signature = []\<rparr>"

definition insert_consumed :: "Certificate \<Rightarrow> bytes \<Rightarrow> KeyBinding \<Rightarrow> uint64 \<Rightarrow> bytes \<Rightarrow> escrow_db \<Rightarrow> escrow_error + escrow_db" where
  "insert_consumed c certificateHash binding watermark receiptPayload db =
     (case decimal38 (ce_Amount c) of
        Inl e \<Rightarrow> Inl e
      | Inr amount \<Rightarrow>
      (case int8_param (kb_Epoch binding) of
        Inl e \<Rightarrow> Inl e
      | Inr keyEpoch \<Rightarrow>
          let row = \<lparr>cn_account_id = ce_AccountID c, cn_asset_id = ce_AssetID c, cn_source_region = ce_SourceRegion c,
                     cn_destination_region = ce_DestinationRegion c, cn_amount = amount, cn_payload_hash = certificateHash,
                     cn_source_legal_entity_id = ce_SourceLegalEntityID c, cn_source_key_epoch = ce_KeyEpoch c,
                     cn_source_epoch = ce_SourceEpoch c,
                     cn_destination_legal_entity_id = ce_DestinationLegalEntityID c,
                     cn_destination_key_id = kb_KeyID binding, cn_destination_key_epoch = keyEpoch,
                     cn_destination_watermark = watermark, cn_receipt_payload = receiptPayload, cn_receipt_sig = None\<rparr> in
          if amount \<le> 0 then Inl check_violation
          else if dget (db_consumed db) (ce_TransferID c) \<noteq> None
             \<or> list_ex (\<lambda>(_, r). row_issuance r = row_issuance row) (entries (db_consumed db))
          then Inl unique_violation
          else Inr (db\<lparr>db_consumed := dset (ce_TransferID c) row (db_consumed db)\<rparr>)))"

text \<open>The upsert of the destination's total.\<close>

definition add_authority :: "string \<Rightarrow> string \<Rightarrow> amount \<Rightarrow> escrow_db \<Rightarrow> escrow_error + escrow_db" where
  "add_authority account asset amount db =
     (case dget (db_authorities db) (account, asset) of
        None \<Rightarrow> write_authority (account, asset) amount 0 0 db
      | Some row \<Rightarrow>
        (case int8_succ (ar_version row) of
           Inl e \<Rightarrow> Inl e
         | Inr version \<Rightarrow>
             write_authority (account, asset) (ar_total_authority row + amount) (ar_unallocated row) version db))"

definition consumeTx :: "Certificate \<Rightarrow> bytes \<Rightarrow> KeyBinding \<Rightarrow> Consumption tx" where
  "consumeTx c certificateHash binding db =
     (case lockConsumptionIdentity c db of
        Inl e \<Rightarrow> Inl e
      | Inr db \<Rightarrow>
      (case loadConsumptionByTransfer db (ce_TransferID c) of
        Inl e \<Rightarrow> Inl e
      | Inr (Some stored) \<Rightarrow>
          if \<not> receiptMatchesCertificate stored c certificateHash then Inl ErrCertificateConflict
          else Inr (\<lparr>co_TransferID = ce_TransferID c, co_Duplicate = True, co_Receipt = stored\<rparr>, db)
      | Inr None \<Rightarrow>
      (case loadConsumptionByIssuance db c of
        Inl e \<Rightarrow> Inl e
      | Inr (Some _) \<Rightarrow> Inl ErrCertificateConflict
      | Inr None \<Rightarrow>
      (case nextConsumptionWatermark binding db of
        Inl e \<Rightarrow> Inl e
      | Inr (watermark, db) \<Rightarrow>
        let receipt = draftReceipt c certificateHash binding watermark in
      (case ConsumptionReceipt_Payload receipt of
        Inl e \<Rightarrow> Inl e
      | Inr receiptPayload \<Rightarrow>
      (case insert_consumed c certificateHash binding watermark receiptPayload db of
        Inl e \<Rightarrow> Inl e
      | Inr db \<Rightarrow>
      (case add_authority (ce_AccountID c) (ce_AssetID c) (ce_Amount c) db of
        Inl e \<Rightarrow> Inl e
      | Inr db \<Rightarrow>
      (case add_regional_rights (ce_AccountID c) (ce_AssetID c) (ce_DestinationRegion c) (ce_Amount c) db of
        Inl e \<Rightarrow> Inl e
      | Inr db \<Rightarrow> Inr (\<lparr>co_TransferID = ce_TransferID c, co_Duplicate = False, co_Receipt = receipt\<rparr>, db)))))))))"

definition attachReceiptTx :: "Certificate \<Rightarrow> ConsumptionReceipt \<Rightarrow> bytes \<Rightarrow> ConsumptionReceipt tx" where
  "attachReceiptTx c signedValue payload db =
     (case loadConsumptionByTransfer db (ce_TransferID c) of
        Inl e \<Rightarrow> Inl e
      | Inr None \<Rightarrow> Inl ErrCertificateConflict
      | Inr (Some stored) \<Rightarrow>
        if \<not> receiptMatchesCertificate stored c (cr_CertificateHash signedValue) then Inl ErrCertificateConflict
        else case ConsumptionReceipt_Payload stored of
          Inl _ \<Rightarrow> Inl ErrConsumptionReceiptInvalid
        | Inr storedPayload \<Rightarrow>
          if storedPayload \<noteq> payload then Inl ErrConsumptionReceiptInvalid
          else if cr_Signature stored = [] then
            (case dget (db_consumed db) (ce_TransferID c) of
               None \<Rightarrow> Inl ErrConsumptionReceiptInvalid
             | Some row \<Rightarrow>
               if cn_receipt_sig row \<noteq> None then Inl ErrConsumptionReceiptInvalid
               else Inr (stored\<lparr>cr_Signature := cr_Signature signedValue\<rparr>,
                         db\<lparr>db_consumed := dset (ce_TransferID c) (row\<lparr>cn_receipt_sig := Some (cr_Signature signedValue)\<rparr>)
                              (db_consumed db)\<rparr>))
          else Inr (stored, db))"

definition attachReceiptSignature ::
  "attempt list \<Rightarrow> Certificate \<Rightarrow> ConsumptionReceipt \<Rightarrow> escrow_db \<Rightarrow> (escrow_error + ConsumptionReceipt) \<times> escrow_db" where
  "attachReceiptSignature attempts c signedValue db =
     (case ConsumptionReceipt_Payload signedValue of
        Inl e \<Rightarrow> (Inl e, db)
      | Inr payload \<Rightarrow> inTx defaultSerializableRetries attempts (attachReceiptTx c signedValue payload) db)"

definition verified_consumption ::
  "escrow_service \<Rightarrow> Certificate \<Rightarrow> Consumption \<Rightarrow> (escrow_error + ConsumptionReceipt) \<times> escrow_db
     \<Rightarrow> (escrow_error + Consumption) \<times> escrow_db" where
  "verified_consumption s c result attached =
     (case attached of
        (Inl e, db) \<Rightarrow> (Inl e, db)
      | (Inr receipt, db) \<Rightarrow>
        (case VerifyConsumptionReceipt (sv_ed_verify s) receipt c (sv_verifier s) of
           Some e \<Rightarrow> (Inl e, db)
         | None \<Rightarrow> (Inr (result\<lparr>co_Receipt := receipt\<rparr>), db)))"

text \<open>What follows the committed draft: a stored signature is verified, a missing one is made, verified and attached.\<close>

definition signed_consumption ::
  "escrow_service \<Rightarrow> (ConsumptionReceipt \<Rightarrow> escrow_error + ConsumptionReceipt) \<Rightarrow> attempt list \<Rightarrow> (escrow_db \<Rightarrow> escrow_db)
     \<Rightarrow> Certificate \<Rightarrow> Consumption \<Rightarrow> escrow_db \<Rightarrow> (escrow_error + Consumption) \<times> escrow_db" where
  "signed_consumption s SignReceipt attempts2 between c result db =
     (if cr_Signature (co_Receipt result) \<noteq> [] then verified_consumption s c result (Inr (co_Receipt result), db)
      else case SignReceipt (co_Receipt result) of
        Inl e \<Rightarrow> (Inl e, db)
      | Inr signedValue \<Rightarrow>
        (case VerifyConsumptionReceipt (sv_ed_verify s) signedValue c (sv_verifier s) of
           Some e \<Rightarrow> (Inl e, db)
         | None \<Rightarrow> verified_consumption s c result (attachReceiptSignature attempts2 c signedValue (between db))))"

definition ConsumeCertificate ::
  "escrow_service \<Rightarrow> attempt list \<Rightarrow> attempt list \<Rightarrow> (escrow_db \<Rightarrow> escrow_db) \<Rightarrow> Certificate \<Rightarrow> string \<Rightarrow> escrow_db
     \<Rightarrow> (escrow_error + Consumption) \<times> escrow_db" where
  "ConsumeCertificate s attempts1 attempts2 between c destinationRegion db =
     (case sv_receiptSigner s of
        None \<Rightarrow> (Inl ErrCertificateInvalid, db)
      | Some (binding, SignReceipt) \<Rightarrow>
        if destinationRegion = [] \<or> ce_DestinationRegion c \<noteq> destinationRegion then (Inl ErrCertificateInvalid, db)
        else case VerifyCertificate (sv_ed_verify s) c (sv_verifier s) of
          Some e \<Rightarrow> (Inl e, db)
        | None \<Rightarrow>
          if \<not> KeyBinding_validFor binding KeyPurposeConsumptionReceipt \<or> kb_Region binding \<noteq> destinationRegion
             \<or> kb_LegalEntityID binding \<noteq> ce_DestinationLegalEntityID c
          then (Inl ErrConsumptionReceiptInvalid, db)
          else case Certificate_PayloadHash c of
            Inl e \<Rightarrow> (Inl e, db)
          | Inr certificateHash \<Rightarrow>
            (case inTx defaultSerializableRetries attempts1 (consumeTx c certificateHash binding) db of
               (Inl e, db) \<Rightarrow> (Inl e, db)
             | (Inr result, db) \<Rightarrow> signed_consumption s SignReceipt attempts2 between c result db))"

section \<open>Acknowledgement and snapshot\<close>

definition acknowledgeTx :: "Certificate \<Rightarrow> ConsumptionReceipt \<Rightarrow> bytes \<Rightarrow> bytes \<Rightarrow> bytes \<Rightarrow> unit tx" where
  "acknowledgeTx c receipt certificatePayload receiptPayload receiptHash db =
     (case loadTransferRecord db (ce_TransferID c) of
        Inl e \<Rightarrow> Inl e
      | Inr None \<Rightarrow> Inl ErrConsumptionProofMissing
      | Inr (Some record) \<Rightarrow>
        (case Certificate_Payload (tf_Certificate record) of
           Inl _ \<Rightarrow> Inl ErrCertificateConflict
         | Inr storedPayload \<Rightarrow>
           if storedPayload \<noteq> certificatePayload \<or> ce_Signature (tf_Certificate record) \<noteq> ce_Signature c
           then Inl ErrCertificateConflict
           else if tf_Status record = ''ACKNOWLEDGED'' then
             if tf_ReceiptPayload record \<noteq> receiptPayload \<or> tf_ReceiptSignature record \<noteq> cr_Signature receipt
                \<or> tf_ReceiptHash record \<noteq> receiptHash
             then Inl ErrCertificateConflict else Inr ((), db)
           else if tf_Status record \<noteq> ''IN_TRANSIT'' \<or> ce_Signature (tf_Certificate record) = []
           then Inl ErrConsumptionProofMissing
           else case reduce_total (ce_AccountID c) (ce_AssetID c) (ce_Amount c) db of
             Inl e \<Rightarrow> Inl e
           | Inr db \<Rightarrow>
             (case int8_param (cr_DestinationCommitWatermark receipt) of
                Inl e \<Rightarrow> Inl e
              | Inr watermark \<Rightarrow>
             (case int8_param (cr_KeyEpoch receipt) of
                Inl e \<Rightarrow> Inl e
              | Inr keyEpoch \<Rightarrow>
             (case dget (db_transfers db) (ce_TransferID c) of
                None \<Rightarrow> Inl ErrCertificateConflict
              | Some row \<Rightarrow>
                if xr_status row \<noteq> ''IN_TRANSIT'' then Inl ErrCertificateConflict
                else Inr ((), db\<lparr>db_transfers := dset (ce_TransferID c)
                       (row\<lparr>xr_status := ''ACKNOWLEDGED'', xr_receipt_payload := Some receiptPayload,
                            xr_receipt_sig := Some (cr_Signature receipt), xr_receipt_hash := Some receiptHash,
                            xr_destination_watermark := Some watermark, xr_receipt_key_id := Some (cr_KeyID receipt),
                            xr_receipt_key_epoch := Some keyEpoch\<rparr>) (db_transfers db)\<rparr>))))))"

text \<open>The payloads exist because the verifications before succeeded.\<close>

definition AcknowledgeTransfer ::
  "escrow_service \<Rightarrow> attempt list \<Rightarrow> Certificate \<Rightarrow> ConsumptionReceipt \<Rightarrow> escrow_db \<Rightarrow> (escrow_error + unit) \<times> escrow_db" where
  "AcknowledgeTransfer s attempts c receipt db =
     (if cr_TransferID receipt = [] then (Inl ErrConsumptionProofMissing, db)
      else case VerifyCertificate (sv_ed_verify s) c (sv_verifier s) of
        Some e \<Rightarrow> (Inl e, db)
      | None \<Rightarrow>
        (case VerifyConsumptionReceipt (sv_ed_verify s) receipt c (sv_verifier s) of
           Some e \<Rightarrow> (Inl e, db)
         | None \<Rightarrow>
           (case (Certificate_Payload c, ConsumptionReceipt_Payload receipt) of
              (Inr certificatePayload, Inr receiptPayload) \<Rightarrow>
                inTx defaultSerializableRetries attempts
                  (acknowledgeTx c receipt certificatePayload receiptPayload (sha256 receiptPayload)) db
            | _ \<Rightarrow> (Inl ErrConsumptionReceiptInvalid, db))))"

text \<open>The buckets of one account and asset: what the queries of \<^verbatim>\<open>Snapshot\<close> and the view over the tables sum up.\<close>

definition regional_rights :: "escrow_db \<Rightarrow> string \<Rightarrow> string \<Rightarrow> (string \<times> amount) list" where
  "regional_rights db account asset =
     map (\<lambda>((_, _, region), row). (region, rr_available row))
       (filter (\<lambda>((a, s, _), _). a = account \<and> s = asset) (entries (db_rights db)))"

definition transit_total :: "escrow_db \<Rightarrow> string \<Rightarrow> string \<Rightarrow> amount" where
  "transit_total db account asset =
     dict_sum (\<lambda>_ row. if xr_account_id row = account \<and> xr_asset_id row = asset \<and> xr_status row = ''IN_TRANSIT''
                        then xr_amount row else 0) (db_transfers db)"

definition offline_issued :: "escrow_db \<Rightarrow> string \<Rightarrow> string \<Rightarrow> amount" where
  "offline_issued db account asset =
     dict_sum (\<lambda>(a, s, _) amount. if a = account \<and> s = asset then amount else 0) (db_offline_issued db)"

definition folded_offline_issued :: "escrow_db \<Rightarrow> string \<Rightarrow> string \<Rightarrow> amount" where
  "folded_offline_issued db account asset =
     dict_sum (\<lambda>_ row. if aw_account_id row = account \<and> aw_asset_id row = asset \<and> aw_state row = ''ISSUED''
                        then aw_amount row else 0) (db_allowances db)"

fun read_rights :: "(string \<times> amount) list \<Rightarrow> (string, amount) dict \<Rightarrow> escrow_error + (string, amount) dict" where
  "read_rights [] m = Inr m"
| "read_rights ((region, a) # rest) m =
     (case read_amount a of Inl e \<Rightarrow> Inl e | Inr v \<Rightarrow> read_rights rest (dset region v m))"

definition snapshotTx :: "string \<Rightarrow> string \<Rightarrow> escrow_db \<Rightarrow> escrow_error + Authority" where
  "snapshotTx accountID assetID db =
     (case dget (db_authorities db) (accountID, assetID) of
        None \<Rightarrow> Inl (ErrEscrowOther ''no rows in result set'')
      | Some row \<Rightarrow>
      (case read_amount (ar_total_authority row) of
        Inl e \<Rightarrow> Inl e
      | Inr tot \<Rightarrow>
      (case read_amount (ar_unallocated row) of
        Inl e \<Rightarrow> Inl e
      | Inr unallocated \<Rightarrow>
      (case read_rights (regional_rights db accountID assetID) dempty of
        Inl e \<Rightarrow> Inl e
      | Inr rights \<Rightarrow>
      (case read_amount (transit_total db accountID assetID) of
        Inl e \<Rightarrow> Inl e
      | Inr transit \<Rightarrow>
      (case read_amount (offline_issued db accountID assetID) of
        Inl e \<Rightarrow> Inl e
      | Inr offline \<Rightarrow>
      (case read_amount (folded_offline_issued db accountID assetID) of
        Inl e \<Rightarrow> Inl e
      | Inr folded \<Rightarrow>
          Inr \<lparr>au_AccountID = accountID, au_AssetID = assetID, au_Total = tot, au_Unallocated = unallocated,
               au_Version = ar_version row, au_RegionalRights = rights, au_InTransit = transit,
               au_OfflineIssued = offline, au_FoldedOffline = folded\<rparr>)))))))"

definition Snapshot :: "attempt list \<Rightarrow> string \<Rightarrow> string \<Rightarrow> escrow_db \<Rightarrow> (escrow_error + Authority) \<times> escrow_db" where
  "Snapshot attempts accountID assetID db =
     inTx defaultSerializableRetries attempts
       (\<lambda>db. case snapshotTx accountID assetID db of Inl e \<Rightarrow> Inl e | Inr a \<Rightarrow> Inr (a, db)) db"

end
