(* ===== verification/Escrow_Wire.thy ===== *)
theory Escrow_Wire
  imports Escrow_Types
begin

text \<open>
  What the signed and the transported forms of the escrow protocol guarantee: payloads determine what was
  signed, the JSON forms decode to what was encoded, signatures made by the bound signers verify, and a
  key of one purpose never verifies an object of the other.
\<close>

section \<open>Payloads\<close>

lemma writeCanonicalStrings_Inr:
  "writeCanonicalStrings out vs = Inr p \<longleftrightarrow> list_all (\<lambda>v. length v \<le> 1048576) vs \<and> p = out @ framed_list 4 vs"
  by (induction vs arbitrary: out) (auto simp: writeCanonicalString_def frame32)

lemma writeCanonicalString_amount:
  "fitsDecimal38 a \<Longrightarrow> writeCanonicalString out (Amount_String a) = Inr (out @ framed 4 (Amount_String a))"
  using length_Amount_String [of a] by (simp add: writeCanonicalString_def frame32)

text \<open>The signature is not part of the payload.\<close>

lemma Certificate_Payload_signature [simp]: "Certificate_Payload (c\<lparr>ce_Signature := g\<rparr>) = Certificate_Payload c"
  by (simp add: Certificate_Payload_def Certificate_Validate_def cong: sum.case_cong option.case_cong)

lemma ConsumptionReceipt_Payload_signature [simp]:
  "ConsumptionReceipt_Payload (r\<lparr>cr_Signature := g\<rparr>) = ConsumptionReceipt_Payload r"
  by (simp add: ConsumptionReceipt_Payload_def ConsumptionReceipt_Validate_def cong: sum.case_cong option.case_cong)

definition Certificate_texts :: "Certificate \<Rightarrow> string list" where
  "Certificate_texts c = [ce_TransferID c, ce_AccountID c, ce_AssetID c, ce_SourceRegion c, ce_DestinationRegion c,
     ce_SourceLegalEntityID c, ce_DestinationLegalEntityID c, ce_KeyID c]"

definition ConsumptionReceipt_texts :: "ConsumptionReceipt \<Rightarrow> string list" where
  "ConsumptionReceipt_texts r = [cr_TransferID r, cr_AccountID r, cr_AssetID r, cr_SourceRegion r,
     cr_SourceLegalEntityID r, cr_DestinationRegion r, cr_DestinationLegalEntityID r, cr_KeyID r]"

lemma Certificate_Payload_Inr:
  assumes "fitsDecimal38 (ce_Amount c)"
  shows "Certificate_Payload c = Inr p \<longleftrightarrow>
    Certificate_Validate c = None \<and> list_all (\<lambda>v. length v \<le> 1048576) (Certificate_texts c) \<and>
    p = certificateDomain @ put_uint16 (ce_Version c)
          @ framed_list 4 (Certificate_texts c) @ framed 4 (Amount_String (ce_Amount c))
          @ put_uint64 (ce_SourceEpoch c) @ put_uint64 (ce_KeyEpoch c)"
proof (cases "writeCanonicalStrings (certificateDomain @ put_uint16 (ce_Version c)) (Certificate_texts c)")
  case (Inl e)
  then have "\<not> list_all (\<lambda>v. length v \<le> 1048576) (Certificate_texts c)"
    using writeCanonicalStrings_Inr by (metis sum.distinct(1))
  with Inl show ?thesis
    unfolding Certificate_Payload_def Certificate_texts_def [symmetric] by (simp split: option.split)
next
  case (Inr out)
  then have "list_all (\<lambda>v. length v \<le> 1048576) (Certificate_texts c)"
    "out = certificateDomain @ put_uint16 (ce_Version c) @ framed_list 4 (Certificate_texts c)"
    unfolding writeCanonicalStrings_Inr by simp_all
  then show ?thesis
    unfolding Certificate_Payload_def Certificate_texts_def [symmetric] Inr
    by (auto simp: writeCanonicalString_amount [OF assms] split: option.split)
qed

lemma ConsumptionReceipt_Payload_Inr:
  assumes "fitsDecimal38 (cr_Amount r)"
  shows "ConsumptionReceipt_Payload r = Inr p \<longleftrightarrow>
    ConsumptionReceipt_Validate r = None \<and> list_all (\<lambda>v. length v \<le> 1048576) (ConsumptionReceipt_texts r) \<and>
    p = receiptDomain @ put_uint16 (cr_Version r)
          @ framed_list 4 (ConsumptionReceipt_texts r) @ framed 4 (Amount_String (cr_Amount r))
          @ cr_CertificateHash r @ put_uint64 (cr_SourceEpoch r) @ put_uint64 (cr_SourceKeyEpoch r)
          @ put_uint64 (cr_DestinationCommitWatermark r) @ put_uint64 (cr_KeyEpoch r)"
proof (cases "writeCanonicalStrings (receiptDomain @ put_uint16 (cr_Version r)) (ConsumptionReceipt_texts r)")
  case (Inl e)
  then have "\<not> list_all (\<lambda>v. length v \<le> 1048576) (ConsumptionReceipt_texts r)"
    using writeCanonicalStrings_Inr by (metis sum.distinct(1))
  with Inl show ?thesis
    unfolding ConsumptionReceipt_Payload_def ConsumptionReceipt_texts_def [symmetric] by (simp split: option.split)
next
  case (Inr out)
  then have "list_all (\<lambda>v. length v \<le> 1048576) (ConsumptionReceipt_texts r)"
    "out = receiptDomain @ put_uint16 (cr_Version r) @ framed_list 4 (ConsumptionReceipt_texts r)"
    unfolding writeCanonicalStrings_Inr by simp_all
  then show ?thesis
    unfolding ConsumptionReceipt_Payload_def ConsumptionReceipt_texts_def [symmetric] Inr
    by (auto simp: writeCanonicalString_amount [OF assms] split: option.split)
qed

lemma framed_list_append_inject:
  "length fs = length gs \<Longrightarrow> list_all (\<lambda>v. length v \<le> 1048576) fs \<Longrightarrow> list_all (\<lambda>v. length v \<le> 1048576) gs \<Longrightarrow>
     framed_list 4 fs @ r = framed_list 4 gs @ s \<longleftrightarrow> fs = gs \<and> r = s"
  by (induction fs gs rule: list_induct2) (auto simp: framed4_append_inject)

lemma Certificate_payload_inject:
  assumes "fitsDecimal38 (ce_Amount c)" "fitsDecimal38 (ce_Amount d)"
    and "Certificate_Payload c = Inr p" "Certificate_Payload d = Inr p"
  shows "c\<lparr>ce_Signature := []\<rparr> = d\<lparr>ce_Signature := []\<rparr>"
proof -
  have amt: "length (Amount_String (ce_Amount c)) \<le> 1048576" "length (Amount_String (ce_Amount d)) \<le> 1048576"
    using length_Amount_String [OF assms(1)] length_Amount_String [OF assms(2)] by simp_all
  have len: "length (Certificate_texts d) = length (Certificate_texts c)" by (simp add: Certificate_texts_def)
  note pc = assms(3) [unfolded Certificate_Payload_Inr [OF assms(1)]]
    and pd = assms(4) [unfolded Certificate_Payload_Inr [OF assms(2)]]
  note inj = framed_list_append_inject [OF len conjunct1 [OF conjunct2 [OF pd]] conjunct1 [OF conjunct2 [OF pc]]]
  have "ce_Version c = ce_Version d \<and> Certificate_texts c = Certificate_texts d
      \<and> Amount_String (ce_Amount c) = Amount_String (ce_Amount d)
      \<and> ce_SourceEpoch c = ce_SourceEpoch d \<and> ce_KeyEpoch c = ce_KeyEpoch d"
    using pc pd amt by (simp add: inj framed4_append_inject framed4_inject)
  then show ?thesis
    by (cases c; cases d) (simp add: Certificate_texts_def Amount_String_def inj_show_int)
qed

lemma ConsumptionReceipt_payload_inject:
  assumes "fitsDecimal38 (cr_Amount c)" "fitsDecimal38 (cr_Amount d)"
    and "array32 (cr_CertificateHash c)" "array32 (cr_CertificateHash d)"
    and "ConsumptionReceipt_Payload c = Inr p" "ConsumptionReceipt_Payload d = Inr p"
  shows "c\<lparr>cr_Signature := []\<rparr> = d\<lparr>cr_Signature := []\<rparr>"
proof -
  have amt: "length (Amount_String (cr_Amount c)) \<le> 1048576" "length (Amount_String (cr_Amount d)) \<le> 1048576"
    using length_Amount_String [OF assms(1)] length_Amount_String [OF assms(2)] by simp_all
  have len: "length (ConsumptionReceipt_texts d) = length (ConsumptionReceipt_texts c)"
    by (simp add: ConsumptionReceipt_texts_def)
  note pc = assms(5) [unfolded ConsumptionReceipt_Payload_Inr [OF assms(1)]]
    and pd = assms(6) [unfolded ConsumptionReceipt_Payload_Inr [OF assms(2)]]
  note inj = framed_list_append_inject [OF len conjunct1 [OF conjunct2 [OF pd]] conjunct1 [OF conjunct2 [OF pc]]]
  have "cr_Version c = cr_Version d \<and> ConsumptionReceipt_texts c = ConsumptionReceipt_texts d
      \<and> Amount_String (cr_Amount c) = Amount_String (cr_Amount d)
      \<and> cr_CertificateHash c = cr_CertificateHash d
      \<and> cr_SourceEpoch c = cr_SourceEpoch d \<and> cr_SourceKeyEpoch c = cr_SourceKeyEpoch d
      \<and> cr_DestinationCommitWatermark c = cr_DestinationCommitWatermark d \<and> cr_KeyEpoch c = cr_KeyEpoch d"
    using pc pd amt assms(3,4)
    by (simp add: inj framed4_append_inject array32_append_inject)
  then show ?thesis
    by (cases c; cases d) (simp add: ConsumptionReceipt_texts_def Amount_String_def inj_show_int)
qed

section \<open>JSON\<close>

definition Certificate_json_ok :: "Certificate \<Rightarrow> bool" where
  "Certificate_json_ok c \<longleftrightarrow> list_all valid_utf8 (Certificate_texts c) \<and> fitsDecimal38 (ce_Amount c)"

definition ConsumptionReceipt_json_ok :: "ConsumptionReceipt \<Rightarrow> bool" where
  "ConsumptionReceipt_json_ok r \<longleftrightarrow>
     list_all valid_utf8 (ConsumptionReceipt_texts r) \<and> fitsDecimal38 (cr_Amount r) \<and> array32 (cr_CertificateHash r)"

lemma valid_utf8_b64 [simp]: "valid_utf8 (b64_encode bs)"
  by (rule valid_utf8_all_ascii) (auto dest: b64_encode_ascii)

lemma unat_lt: "unat (w :: uint16) < 65536" "unat (v :: uint64) < 18446744073709551616"
  using unsigned_less [of w] unsigned_less [of v] by simp_all

lemma Certificate_json:
  assumes "Certificate_json_ok c"
  shows "Certificate_UnmarshalJSON (Certificate_MarshalJSON c) = Inr c"
proof -
  have ok: "\<forall>(f, kind) \<in> set wireCertificate. wire_ok kind (Certificate_wire c f)"
    using assms
    by (simp add: wireCertificate_def Certificate_wire_def wire_ok_def unat_lt Certificate_json_ok_def
        Certificate_texts_def valid_utf8_show_int Amount_String_def)
  have names: "distinct (map fst wireCertificate)" "\<forall>(f, kind) \<in> set wireCertificate. valid_utf8 f"
    by (auto simp: wireCertificate_def intro!: valid_utf8_all_ascii)
  obtain u where u: "wire_decode wireCertificate (Certificate_MarshalJSON c) = Some u"
    "\<And>f. f \<in> fst ` set wireCertificate \<Longrightarrow> u f = Certificate_wire c f"
    using wire_roundtrip [OF names(1) ok names(2)] by (auto simp: Certificate_MarshalJSON_def)
  have "fitsDecimal38 (ce_Amount c)" using assms by (simp add: Certificate_json_ok_def)
  then show ?thesis
    unfolding Certificate_UnmarshalJSON_def u(1)
    by (simp add: u(2) [unfolded wireCertificate_def] wire_string_def wire_uint_def Certificate_wire_def
        b64_roundtrip ParseAmount_String)
qed

lemma ConsumptionReceipt_json:
  assumes "ConsumptionReceipt_json_ok c"
  shows "ConsumptionReceipt_UnmarshalJSON (ConsumptionReceipt_MarshalJSON c) = Inr c"
proof -
  have ok: "\<forall>(f, kind) \<in> set wireConsumptionReceipt. wire_ok kind (ConsumptionReceipt_wire c f)"
    using assms
    by (simp add: wireConsumptionReceipt_def ConsumptionReceipt_wire_def wire_ok_def unat_lt
        ConsumptionReceipt_json_ok_def ConsumptionReceipt_texts_def valid_utf8_show_int Amount_String_def)
  have names: "distinct (map fst wireConsumptionReceipt)" "\<forall>(f, kind) \<in> set wireConsumptionReceipt. valid_utf8 f"
    by (auto simp: wireConsumptionReceipt_def intro!: valid_utf8_all_ascii)
  obtain u where u: "wire_decode wireConsumptionReceipt (ConsumptionReceipt_MarshalJSON c) = Some u"
    "\<And>f. f \<in> fst ` set wireConsumptionReceipt \<Longrightarrow> u f = ConsumptionReceipt_wire c f"
    using wire_roundtrip [OF names(1) ok names(2)] by (auto simp: ConsumptionReceipt_MarshalJSON_def)
  have "fitsDecimal38 (cr_Amount c)" "length (cr_CertificateHash c) = 32"
    using assms by (simp_all add: ConsumptionReceipt_json_ok_def array32_def)
  then show ?thesis
    unfolding ConsumptionReceipt_UnmarshalJSON_def u(1)
    by (simp add: u(2) [unfolded wireConsumptionReceipt_def] wire_string_def wire_uint_def
        ConsumptionReceipt_wire_def b64_roundtrip ParseAmount_String)
qed

interpretation escrow_certificate: codec Certificate_MarshalJSON
  "\<lambda>data. case Certificate_UnmarshalJSON data of Inl _ \<Rightarrow> None | Inr c \<Rightarrow> Some c" Certificate_json_ok
  by unfold_locales (simp add: Certificate_json)

interpretation escrow_receipt: codec ConsumptionReceipt_MarshalJSON
  "\<lambda>data. case ConsumptionReceipt_UnmarshalJSON data of Inl _ \<Rightarrow> None | Inr r \<Rightarrow> Some r" ConsumptionReceipt_json_ok
  by unfold_locales (simp add: ConsumptionReceipt_json)

section \<open>The conservation check\<close>

lemma rights_nonneg: "list_all (\<lambda>(_, a). 0 \<le> a) rs \<Longrightarrow> 0 \<le> sum_list (map snd (rs :: (string \<times> int) list))"
  by (induction rs) auto

lemma add_rights_Some:
  "0 \<le> acc \<Longrightarrow> fitsDecimal38 acc \<Longrightarrow> add_rights acc rs = Some t \<longleftrightarrow>
     list_all (\<lambda>(_, a). 0 \<le> a) rs \<and> t = acc + sum_list (map snd rs) \<and> fitsDecimal38 t"
proof (induction rs arbitrary: acc)
  case (Cons ra rest)
  obtain r amount where ra: "ra = (r, amount)" by (cases ra)
  show ?case
  proof (cases "0 \<le> amount \<and> fitsDecimal38 (acc + amount)")
    case True
    then have "add_rights acc (ra # rest) = add_rights (acc + amount) rest" by (simp add: ra)
    also have "add_rights (acc + amount) rest = Some t \<longleftrightarrow>
        list_all (\<lambda>(_, a). 0 \<le> a) rest \<and> t = acc + amount + sum_list (map snd rest) \<and> fitsDecimal38 t"
      using True Cons.prems by (intro Cons.IH) simp_all
    finally show ?thesis using True by (simp add: ra add.assoc)
  next
    case False
    have "\<not> fitsDecimal38 (acc + (amount + sum_list (map snd rest)))"
      if "0 \<le> amount" "list_all (\<lambda>(_, a). 0 \<le> a) rest"
    proof
      assume "fitsDecimal38 (acc + (amount + sum_list (map snd rest)))"
      then have "fitsDecimal38 (acc + amount)"
        by (rule fits_mono) (use that rights_nonneg [OF that(2)] Cons.prems in simp)
      with False that show False by simp
    qed
    moreover have "add_rights acc (ra # rest) = None"
      using False by (simp add: ra Amount_Add_def)
    ultimately show ?thesis by (auto simp: ra)
  qed
qed auto

lemma Authority_Conserved_iff:
  "Authority_Conserved a \<longleftrightarrow>
     0 \<le> au_Unallocated a \<and> 0 \<le> au_InTransit a \<and> 0 \<le> au_OfflineIssued a \<and>
     au_OfflineIssued a = au_FoldedOffline a \<and>
     list_all (\<lambda>(_, r). 0 \<le> r) (entries (au_RegionalRights a)) \<and>
     au_Total a = au_Unallocated a + au_InTransit a + au_OfflineIssued a + dict_sum (\<lambda>_ r. r) (au_RegionalRights a) \<and>
     fitsDecimal38 (au_Total a)"
proof -
  let ?rs = "entries (au_RegionalRights a)"
  have snd: "sum_list (map snd ?rs) = dict_sum (\<lambda>_ r. r) (au_RegionalRights a)"
  proof -
    have "(\<lambda>(k :: string, v :: amount). v) = snd" by auto
    then show ?thesis by (simp add: dict_sum_def)
  qed
  note nonneg = rights_nonneg
  show ?thesis
  proof (cases "0 \<le> au_Unallocated a \<and> 0 \<le> au_InTransit a \<and> 0 \<le> au_OfflineIssued a \<and>
      au_OfflineIssued a = au_FoldedOffline a")
    case True
    let ?u = "au_Unallocated a + au_InTransit a" and ?t = "au_Unallocated a + au_InTransit a + au_OfflineIssued a"
    have mono: "fitsDecimal38 ?u \<and> fitsDecimal38 ?t"
      if "list_all (\<lambda>(_, r). 0 \<le> r) ?rs" "fitsDecimal38 (?t + sum_list (map snd ?rs))"
      using True nonneg [OF that(1)] by (auto intro: fits_mono [OF that(2)])
    show ?thesis
    proof (cases "fitsDecimal38 ?u \<and> fitsDecimal38 ?t")
      case fits: True
      have "Authority_Conserved a \<longleftrightarrow> 0 \<le> au_Total a \<and> add_rights ?t ?rs = Some (au_Total a)"
        using True fits by (auto simp: Authority_Conserved_def Amount_Add_Inr Amount_Cmp_def split: option.splits if_splits)
      also have "add_rights ?t ?rs = Some (au_Total a) \<longleftrightarrow>
          list_all (\<lambda>(_, r). 0 \<le> r) ?rs \<and> au_Total a = ?t + sum_list (map snd ?rs) \<and> fitsDecimal38 (au_Total a)"
        using True fits by (intro add_rights_Some) simp_all
      finally show ?thesis using True nonneg [of ?rs] by (auto simp: snd)
    next
      case False
      then have "\<not> Authority_Conserved a"
        using True by (auto simp: Authority_Conserved_def Amount_Add_def)
      then show ?thesis using False mono snd by auto
    qed
  qed (auto simp: Authority_Conserved_def Amount_Cmp_def split: if_splits)
qed

section \<open>Properties\<close>

lemma payload_domain:
  "Certificate_Payload c = Inr p \<Longrightarrow> \<exists>r. p = certificateDomain @ r"
  "ConsumptionReceipt_Payload c' = Inr p \<Longrightarrow> \<exists>r. p = receiptDomain @ r"
proof -
  have app: "writeCanonicalStrings out vs = Inr q \<Longrightarrow> \<exists>r. q = out @ r" for out vs q
    by (induction vs arbitrary: out) (fastforce simp: writeCanonicalString_def split: if_splits)+
  show "Certificate_Payload c = Inr p \<Longrightarrow> \<exists>r. p = certificateDomain @ r"
    by (auto simp: Certificate_Payload_def writeCanonicalString_def simp del: writeCanonicalStrings.simps
        split: option.splits sum.splits if_splits dest!: app)
  show "ConsumptionReceipt_Payload c' = Inr p \<Longrightarrow> \<exists>r. p = receiptDomain @ r"
    by (auto simp: ConsumptionReceipt_Payload_def writeCanonicalString_def simp del: writeCanonicalStrings.simps
        split: option.splits sum.splits if_splits dest!: app)
qed

text \<open>
  C29: The bytes an escrow key signs are unambiguous. Two certificates whose amounts fit the column and that
  have the same payload agree in every signed field; the same holds of consumption receipts; and no
  payload is both that of a certificate and that of a receipt.
\<close>

theorem escrow_payloads_unambiguous:
  "inj_on Certificate_Payload
     {c. fitsDecimal38 (ce_Amount c) \<and> ce_Signature c = [] \<and> isl (Certificate_Payload c) = False} \<and>
   inj_on ConsumptionReceipt_Payload
     {r. fitsDecimal38 (cr_Amount r) \<and> array32 (cr_CertificateHash r) \<and> cr_Signature r = []
         \<and> isl (ConsumptionReceipt_Payload r) = False} \<and>
   {p. \<exists>c. Certificate_Payload c = Inr p} \<inter> {p. \<exists>r. ConsumptionReceipt_Payload r = Inr p} = {}"
proof (intro conjI inj_onI)
  fix c d assume *: "c \<in> {c. fitsDecimal38 (ce_Amount c) \<and> ce_Signature c = [] \<and> isl (Certificate_Payload c) = False}"
    "d \<in> {c. fitsDecimal38 (ce_Amount c) \<and> ce_Signature c = [] \<and> isl (Certificate_Payload c) = False}"
    "Certificate_Payload c = Certificate_Payload d"
  then have "\<not> isl (Certificate_Payload c)" by simp
  then obtain p where "Certificate_Payload c = Inr p" by (cases "Certificate_Payload c") simp_all
  with * have "c\<lparr>ce_Signature := []\<rparr> = d\<lparr>ce_Signature := []\<rparr>"
    by (intro Certificate_payload_inject [where p = p]) simp_all
  with * show "c = d" by (cases c; cases d) simp
next
  let ?R = "{r. fitsDecimal38 (cr_Amount r) \<and> array32 (cr_CertificateHash r) \<and> cr_Signature r = []
         \<and> isl (ConsumptionReceipt_Payload r) = False}"
  fix c d assume *: "c \<in> ?R" "d \<in> ?R" "ConsumptionReceipt_Payload c = ConsumptionReceipt_Payload d"
  then have "\<not> isl (ConsumptionReceipt_Payload c)" by simp
  then obtain p where "ConsumptionReceipt_Payload c = Inr p" by (cases "ConsumptionReceipt_Payload c") simp_all
  with * have "c\<lparr>cr_Signature := []\<rparr> = d\<lparr>cr_Signature := []\<rparr>"
    by (intro ConsumptionReceipt_payload_inject [where p = p]) simp_all
  with * show "c = d" by (cases c; cases d) simp
next
  have "certificateDomain @ r \<noteq> receiptDomain @ s" for r s
    by (simp add: certificateDomain_def receiptDomain_def)
  then show "{p. \<exists>c. Certificate_Payload c = Inr p} \<inter> {p. \<exists>r. ConsumptionReceipt_Payload r = Inr p} = {}"
    by (auto dest!: payload_domain)
qed

text \<open>
  C31: Certificates and consumption receipts survive their JSON form: for valid UTF-8 text and an amount that fits
  the column, decoding what \<^verbatim>\<open>MarshalJSON\<close> wrote gives the value back, signature included, and different
  values have different encodings.
\<close>

theorem escrow_json_roundtrip:
  assumes "Certificate_json_ok c" "Certificate_json_ok d" "ConsumptionReceipt_json_ok r" "ConsumptionReceipt_json_ok s"
  shows "Certificate_UnmarshalJSON (Certificate_MarshalJSON c) = Inr c \<and>
    (Certificate_MarshalJSON c = Certificate_MarshalJSON d \<longleftrightarrow> c = d) \<and>
    ConsumptionReceipt_UnmarshalJSON (ConsumptionReceipt_MarshalJSON r) = Inr r \<and>
    (ConsumptionReceipt_MarshalJSON r = ConsumptionReceipt_MarshalJSON s \<longleftrightarrow> r = s)"
  using Certificate_json [OF assms(1)] ConsumptionReceipt_json [OF assms(3)]
    escrow_certificate.enc_inject [OF assms(1,2)] escrow_receipt.enc_inject [OF assms(3,4)]
  by blast

definition sample_certificate :: Certificate where
  "sample_certificate = \<lparr>ce_Version = 2, ce_TransferID = ''t1'', ce_AccountID = ''acct'', ce_AssetID = ''USD'',
     ce_SourceRegion = ''eu'', ce_DestinationRegion = ''us'', ce_SourceLegalEntityID = ''le-eu'',
     ce_DestinationLegalEntityID = ''le-us'', ce_Amount = 40, ce_SourceEpoch = 1, ce_KeyID = ''k-eu'', ce_KeyEpoch = 1,
     ce_Signature = replicate 64 (CHR 0x01)\<rparr>"

definition sample_receipt :: ConsumptionReceipt where
  "sample_receipt = \<lparr>cr_Version = 1, cr_TransferID = ''t1'', cr_CertificateHash = replicate 32 (CHR 0x02),
     cr_AccountID = ''acct'', cr_AssetID = ''USD'', cr_Amount = 40, cr_SourceRegion = ''eu'',
     cr_SourceLegalEntityID = ''le-eu'', cr_SourceEpoch = 1, cr_SourceKeyEpoch = 1, cr_DestinationRegion = ''us'',
     cr_DestinationLegalEntityID = ''le-us'', cr_DestinationCommitWatermark = 1, cr_KeyID = ''k-us'', cr_KeyEpoch = 1,
     cr_Signature = replicate 64 (CHR 0x01)\<rparr>"

lemma sample_json_ok: "Certificate_json_ok sample_certificate" "ConsumptionReceipt_json_ok sample_receipt"
  by (simp_all add: Certificate_json_ok_def sample_certificate_def Certificate_texts_def valid_utf8_all_ascii
      ConsumptionReceipt_json_ok_def sample_receipt_def ConsumptionReceipt_texts_def fitsDecimal38_iff array32_def)

theorem escrow_json_roundtrip_witness:
  "Certificate_json_ok sample_certificate \<and> ConsumptionReceipt_json_ok sample_receipt \<and>
   Certificate_UnmarshalJSON (Certificate_MarshalJSON sample_certificate) = Inr sample_certificate \<and>
   ConsumptionReceipt_UnmarshalJSON (ConsumptionReceipt_MarshalJSON sample_receipt) = Inr sample_receipt"
  using escrow_json_roundtrip [OF sample_json_ok(1) sample_json_ok(1) sample_json_ok(2) sample_json_ok(2)]
    sample_json_ok by blast

text \<open>
  C30: A certificate made by the bound signer verifies, and keys are purpose-bound. Where the registry maps the
  signer's key identifier to the signer's binding and a public key under which its signatures verify, every
  certificate the signer returns is accepted; and no key accepts both a certificate and a receipt.
\<close>

theorem signed_certificate_verifies:
  assumes "Ed25519Signer_Sign ed_sign s c = Inr d"
    and "resolve (sg_KeyID s) = Some \<lparr>vk_Binding = Ed25519Signer_Binding s, vk_PublicKey = pk\<rparr>"
    and "length pk = ed25519_PublicKeySize"
    and "\<forall>m. length (ed_sign (sg_PrivateKey s) m) = ed25519_SignatureSize
           \<and> ed_verify pk m (ed_sign (sg_PrivateKey s) m)"
  shows "VerifyCertificate ed_verify d (Some resolve) = None \<and>
    ce_SourceRegion d = sg_Region s \<and> ce_SourceLegalEntityID d = sg_LegalEntityID s \<and> ce_KeyEpoch d = sg_Epoch s \<and>
    (\<forall>r e. VerifyConsumptionReceipt ed_verify r e (Some resolve) = None \<longrightarrow> cr_KeyID r \<noteq> ce_KeyID d)"
proof -
  let ?b = "Ed25519Signer_Binding s"
  let ?c = "c\<lparr>ce_Version := certificateVersion, ce_KeyID := kb_KeyID ?b, ce_KeyEpoch := kb_Epoch ?b,
              ce_SourceRegion := kb_Region ?b, ce_SourceLegalEntityID := kb_LegalEntityID ?b\<rparr>"
  from assms(1) obtain p where p: "Certificate_Payload ?c = Inr p" "KeyBinding_validFor ?b KeyPurposeTransferCertificate"
    "d = ?c\<lparr>ce_Signature := ed_sign (sg_PrivateKey s) p\<rparr>"
    by (auto simp: Ed25519Signer_Sign_def Let_def split: if_splits sum.splits)
  have d: "ce_KeyID d = sg_KeyID s" "ce_SourceRegion d = sg_Region s" "ce_SourceLegalEntityID d = sg_LegalEntityID s"
    "ce_KeyEpoch d = sg_Epoch s" "ce_Signature d = ed_sign (sg_PrivateKey s) p" "Certificate_Payload d = Inr p"
    using p(1) by (simp_all add: p(3) Ed25519Signer_Binding_def)
  have "VerifyCertificate ed_verify d (Some resolve) = None"
    using p(2) assms(2-4) by (simp add: VerifyCertificate_def d) (simp add: Ed25519Signer_Binding_def)
  moreover have "cr_KeyID r \<noteq> ce_KeyID d" if "VerifyConsumptionReceipt ed_verify r e (Some resolve) = None" for r e
  proof
    assume "cr_KeyID r = ce_KeyID d"
    with that assms(2) have "KeyBinding_validFor ?b KeyPurposeConsumptionReceipt"
      by (auto simp: VerifyConsumptionReceipt_def d split: sum.splits if_splits)
    then show False
      by (simp add: KeyBinding_validFor_def Ed25519Signer_Binding_def KeyPurposeTransferCertificate_def
          KeyPurposeConsumptionReceipt_def)
  qed
  ultimately show ?thesis using d by blast
qed

theorem signed_certificate_verifies_witness:
  "\<exists>s d resolve ed_verify ed_sign. Ed25519Signer_Sign ed_sign s (sample_certificate\<lparr>ce_Signature := []\<rparr>) = Inr d
     \<and> VerifyCertificate ed_verify d (Some resolve) = None"
proof -
  let ?s = "\<lparr>sg_KeyID = ''k-eu'', sg_PrivateKey = replicate 64 (CHR 0x05), sg_Region = ''eu'',
             sg_LegalEntityID = ''le-eu'', sg_Epoch = 1\<rparr>"
  let ?sign = "\<lambda>(k :: bytes) (m :: bytes). replicate 64 (CHR 0x01)"
  let ?verify = "\<lambda>(k :: bytes) (m :: bytes) g. g = replicate 64 (CHR 0x01)"
  let ?resolve = "\<lambda>k. if k = ''k-eu'' then Some \<lparr>vk_Binding = Ed25519Signer_Binding ?s, vk_PublicKey = replicate 32 (CHR 0x06)\<rparr>
    else None"
  have "Ed25519Signer_Sign ?sign ?s (sample_certificate\<lparr>ce_Signature := []\<rparr>) = Inr sample_certificate"
    by (simp add: Ed25519Signer_Sign_def Ed25519Signer_Binding_def KeyBinding_validFor_def sample_certificate_def
        ed25519_PrivateKeySize_def Certificate_Payload_def Certificate_Validate_def certificateVersion_def
        writeCanonicalString_def Amount_String_def show_int_def dec_digits.simps Let_def)
  with signed_certificate_verifies [OF this, of ?resolve "replicate 32 (CHR 0x06)" ?verify] show ?thesis
    by (force simp: ed25519_PublicKeySize_def ed25519_SignatureSize_def)
qed

text \<open>
  C28: \<^verbatim>\<open>Authority.Conserved\<close> accepts a snapshot exactly when no bucket is negative, the materialised offline amount
  equals the fold over outstanding allowances, and the total is the exact sum of the buckets and fits the
  column; the order in which the regions are visited does not matter.
\<close>

theorem conserved_snapshot_exact:
  "Authority_Conserved a \<longleftrightarrow>
     0 \<le> au_Unallocated a \<and> 0 \<le> au_InTransit a \<and> 0 \<le> au_OfflineIssued a \<and>
     au_OfflineIssued a = au_FoldedOffline a \<and>
     list_all (\<lambda>(_, r). 0 \<le> r) (entries (au_RegionalRights a)) \<and>
     au_Total a = au_Unallocated a + au_InTransit a + au_OfflineIssued a + dict_sum (\<lambda>_ r. r) (au_RegionalRights a) \<and>
     fitsDecimal38 (au_Total a)"
  by (rule Authority_Conserved_iff)

end
