(* ===== verification/Escrow_Conservation.thy ===== *)
theory Escrow_Conservation
  imports Escrow_Service Escrow_Wire
begin

text \<open>
  Conservation of spending authority. \<open>slack\<close> is what an account's authority row says beyond its buckets; every
  SQL statement of the service shifts it by a known amount (relation \<open>shifts\<close>), and every transaction body composes
  statements whose amounts cancel. \<open>escrow_run\<close> is any sequence of service calls by any clients with any
  outcomes of their transactions, other clients' calls between the two phases of a call included.
\<close>

section \<open>Buckets\<close>

definition held :: "escrow_db \<Rightarrow> string \<Rightarrow> string \<Rightarrow> int" where
  "held db a s = (case dget (db_authorities db) (a, s) of None \<Rightarrow> 0
                  | Some row \<Rightarrow> ar_total_authority row - ar_unallocated row)"

definition region_total :: "escrow_db \<Rightarrow> string \<Rightarrow> string \<Rightarrow> int" where
  "region_total db account asset =
     dict_sum (\<lambda>(a, s, _) row. if a = account \<and> s = asset then rr_available row else 0) (db_rights db)"

definition slack :: "escrow_db \<Rightarrow> string \<Rightarrow> string \<Rightarrow> int" where
  "slack db a s = held db a s - region_total db a s - transit_total db a s - offline_issued db a s"

definition authority_ok :: "authority_row \<Rightarrow> bool" where
  "authority_ok row \<longleftrightarrow> fitsDecimal38 (ar_total_authority row) \<and> 0 \<le> ar_unallocated row \<and>
     ar_unallocated row \<le> ar_total_authority row"

definition rights_ok :: "rights_row \<Rightarrow> bool" where
  "rights_ok row \<longleftrightarrow> fitsDecimal38 (rr_available row) \<and> 0 \<le> rr_available row"

definition rows_ok :: "escrow_db \<Rightarrow> bool" where
  "rows_ok db \<longleftrightarrow>
     (\<forall>k row. dget (db_authorities db) k = Some row \<longrightarrow> authority_ok row) \<and>
     (\<forall>k row. dget (db_rights db) k = Some row \<longrightarrow> rights_ok row) \<and>
     (\<forall>k row. dget (db_transfers db) k = Some row \<longrightarrow> 0 < xr_amount row \<and> fitsDecimal38 (xr_amount row)) \<and>
     (\<forall>k v. dget (db_offline_issued db) k = Some v \<longrightarrow> 0 \<le> v)"

definition shifts :: "escrow_db \<Rightarrow> escrow_db \<Rightarrow> string \<Rightarrow> string \<Rightarrow> int \<Rightarrow> bool" where
  "shifts db db' account asset d \<longleftrightarrow>
     (rows_ok db \<longrightarrow> rows_ok db') \<and>
     (\<forall>a s. slack db' a s = slack db a s + (if a = account \<and> s = asset then d else 0)) \<and>
     db_offline_issued db' = db_offline_issued db \<and> db_allowances db' = db_allowances db"

section \<open>Statements\<close>

lemma shifts_refl: "shifts db db a s 0"
  by (simp add: shifts_def)

lemma shifts_trans: "shifts db db1 a s d \<Longrightarrow> shifts db1 db2 a s e \<Longrightarrow> shifts db db2 a s (d + e)"
  by (auto simp: shifts_def)

lemma shifts_frame:
  assumes "db_authorities db' = db_authorities db" "db_rights db' = db_rights db"
    "db_transfers db' = db_transfers db" "db_offline_issued db' = db_offline_issued db"
    "db_allowances db' = db_allowances db"
  shows "shifts db db' a s 0"
  using assms by (simp add: shifts_def rows_ok_def slack_def held_def region_total_def transit_total_def offline_issued_def)

lemma write_authority_shifts:
  assumes "write_authority (a, s) tot un v db = Inr db'"
  shows "shifts db db' a s (tot - un - held db a s)"
proof -
  have db': "db' = db\<lparr>db_authorities := dset (a, s) \<lparr>ar_total_authority = tot, ar_unallocated = un, ar_version = v\<rparr>
      (db_authorities db)\<rparr>" and ok: "fitsDecimal38 tot" "0 \<le> un" "un \<le> tot"
    using assms by (auto simp: write_authority_def split: if_splits)
  show ?thesis
    using ok by (auto simp: shifts_def rows_ok_def authority_ok_def slack_def held_def region_total_def transit_total_def
        offline_issued_def db' DAList.lookup_update)
qed

definition available :: "escrow_db \<Rightarrow> string \<times> string \<times> string \<Rightarrow> int" where
  "available db k = (case dget (db_rights db) k of None \<Rightarrow> 0 | Some row \<Rightarrow> rr_available row)"

lemma write_rights_shifts:
  assumes "write_rights (a, s, region) x v db = Inr db'"
  shows "shifts db db' a s (available db (a, s, region) - x)"
proof -
  have db': "db' = db\<lparr>db_rights := dset (a, s, region) \<lparr>rr_available = x, rr_version = v\<rparr> (db_rights db)\<rparr>"
    and ok: "fitsDecimal38 x" "0 \<le> x"
    using assms by (auto simp: write_rights_def split: if_splits)
  have "slack db' b t = slack db b t + (if b = a \<and> t = s then available db (a, s, region) - x else 0)" for b t
    by (auto simp: slack_def held_def region_total_def transit_total_def offline_issued_def available_def db'
        dict_sum_dset split: option.splits)
  then show ?thesis
    using ok by (auto simp: shifts_def rows_ok_def rights_ok_def db' DAList.lookup_update)
qed

lemma add_regional_rights_shifts:
  assumes "add_regional_rights a s region x db = Inr db'"
  shows "shifts db db' a s (- x)"
proof (cases "dget (db_rights db) (a, s, region)")
  case None
  then show ?thesis
    using assms write_rights_shifts [of a s region x 0 db db'] by (auto simp: add_regional_rights_def available_def split: if_splits)
next
  case (Some row)
  then obtain v where "write_rights (a, s, region) (rr_available row + x) v db = Inr db'"
    using assms by (auto simp: add_regional_rights_def split: sum.splits)
  from write_rights_shifts [OF this] show ?thesis by (simp add: available_def Some)
qed

lemma reduce_total_shifts:
  assumes "reduce_total a s x db = Inr db'"
  shows "shifts db db' a s (- x)"
proof -
  obtain row v where "dget (db_authorities db) (a, s) = Some row"
    "write_authority (a, s) (ar_total_authority row - x) (ar_unallocated row) v db = Inr db'"
    using assms by (auto simp: reduce_total_def split: option.splits if_splits sum.splits)
  then show ?thesis using write_authority_shifts by (fastforce simp: held_def)
qed

lemma add_authority_shifts:
  assumes "add_authority a s x db = Inr db'"
  shows "shifts db db' a s x"
proof (cases "dget (db_authorities db) (a, s)")
  case None
  with assms have "write_authority (a, s) x 0 0 db = Inr db'" by (simp add: add_authority_def)
  from write_authority_shifts [OF this] None show ?thesis by (simp add: held_def)
next
  case (Some row)
  with assms obtain v where "write_authority (a, s) (ar_total_authority row + x) (ar_unallocated row) v db = Inr db'"
    by (auto simp: add_authority_def split: sum.splits)
  from write_authority_shifts [OF this] Some show ?thesis by (simp add: held_def)
qed

lemma insert_transfer_shifts:
  assumes "insert_transfer c payload db = Inr db'"
  shows "shifts db db' (ce_AccountID c) (ce_AssetID c) (- ce_Amount c)"
proof -
  obtain row where db': "db' = db\<lparr>db_transfers := dset (ce_TransferID c) row (db_transfers db)\<rparr>"
    and row: "xr_account_id row = ce_AccountID c" "xr_asset_id row = ce_AssetID c" "xr_amount row = ce_Amount c"
      "xr_status row = ''IN_TRANSIT''" "0 < ce_Amount c" "fitsDecimal38 (ce_Amount c)"
    and fresh: "dget (db_transfers db) (ce_TransferID c) = None"
    using assms by (auto simp: insert_transfer_def Let_def decimal38_def split: sum.splits if_splits)
  show ?thesis
    using row fresh by (auto simp: shifts_def rows_ok_def slack_def held_def region_total_def transit_total_def
        offline_issued_def db' DAList.lookup_update dict_sum_dset)
qed

text \<open>Replacing a transfer row: the status decides whether its amount is still in transit.\<close>

definition transit :: "transfer_row \<Rightarrow> int" where
  "transit row = (if xr_status row = ''IN_TRANSIT'' then xr_amount row else 0)"

lemma transit_signature [simp]: "transit (row\<lparr>xr_certificate_sig := g\<rparr>) = transit row"
  by (auto simp: transit_def)

lemma update_transfer_shifts:
  assumes "dget (db_transfers db) k = Some row" "xr_account_id row' = xr_account_id row"
    "xr_asset_id row' = xr_asset_id row" "xr_amount row' = xr_amount row"
  shows "shifts db (db\<lparr>db_transfers := dset k row' (db_transfers db)\<rparr>) (xr_account_id row) (xr_asset_id row)
    (transit row - transit row')"
  using assms by (auto simp: shifts_def rows_ok_def slack_def held_def region_total_def transit_total_def transit_def
      offline_issued_def DAList.lookup_update dict_sum_dset)

section \<open>Transaction bodies\<close>

lemma allocateRights_shifts:
  assumes "allocateRights r db = Inr db'"
  shows "shifts db db' (er_AccountID r) (er_AssetID r) 0"
proof -
  obtain row v db1 where row: "dget (db_authorities db) (er_AccountID r, er_AssetID r) = Some row"
    and 1: "write_authority (er_AccountID r, er_AssetID r) (ar_total_authority row) (ar_unallocated row - er_Amount r) v db
      = Inr db1"
    and 2: "add_regional_rights (er_AccountID r) (er_AssetID r) (er_Region r) (er_Amount r) db1 = Inr db'"
    using assms by (auto simp: allocateRights_def split: option.splits if_splits sum.splits)
  show ?thesis
    using shifts_trans [OF write_authority_shifts [OF 1] add_regional_rights_shifts [OF 2]] by (simp add: held_def row)
qed

lemma spendRights_shifts:
  assumes "spendRights r db = Inr db'"
  shows "shifts db db' (er_AccountID r) (er_AssetID r) 0"
proof -
  obtain row v db1 where row: "dget (db_rights db) (er_AccountID r, er_AssetID r, er_Region r) = Some row"
    and 1: "write_rights (er_AccountID r, er_AssetID r, er_Region r) (rr_available row - er_Amount r) v db = Inr db1"
    and 2: "reduce_total (er_AccountID r) (er_AssetID r) (er_Amount r) db1 = Inr db'"
    using assms by (auto simp: spendRights_def split: option.splits if_splits sum.splits)
  show ?thesis
    using shifts_trans [OF write_rights_shifts [OF 1] reduce_total_shifts [OF 2]] by (simp add: available_def row)
qed

lemma returnRights_shifts:
  assumes "returnRights r db = Inr db'"
  shows "shifts db db' (er_AccountID r) (er_AssetID r) 0"
proof -
  obtain row v db1 arow w where row: "dget (db_rights db) (er_AccountID r, er_AssetID r, er_Region r) = Some row"
    and 1: "write_rights (er_AccountID r, er_AssetID r, er_Region r) (rr_available row + er_Amount r) v db = Inr db1"
    and arow: "dget (db_authorities db1) (er_AccountID r, er_AssetID r) = Some arow"
    and 2: "write_authority (er_AccountID r, er_AssetID r) (ar_total_authority arow + er_Amount r) (ar_unallocated arow) w db1
        = Inr db'"
    using assms unfolding returnRights_def by (fastforce split: option.splits if_splits sum.splits)
  show ?thesis
    using shifts_trans [OF write_rights_shifts [OF 1] write_authority_shifts [OF 2]]
    by (simp add: available_def row held_def arow)
qed

lemma insert_effect_shifts: "insert_effect kind r db = Inr db' \<Longrightarrow> shifts db db' a s 0"
  by (rule shifts_frame) (auto simp: insert_effect_def split: sum.splits if_splits)

lemma applyEffect_shifts:
  assumes "applyEffect kind r mutate db = Inr (x, db')"
    and mutate: "\<And>d d'. mutate d = Inr d' \<Longrightarrow> shifts d d' (er_AccountID r) (er_AssetID r) 0"
  shows "shifts db db' (er_AccountID r) (er_AssetID r) 0"
proof -
  have "db' = db \<or> (\<exists>db1. insert_effect kind r db = Inr db1 \<and> mutate db1 = Inr db')"
    using assms(1) by (auto simp: applyEffect_def Let_def split: if_splits option.splits sum.splits)
  then show ?thesis
  proof (elim disjE exE conjE)
    fix db1
    assume "insert_effect kind r db = Inr db1" "mutate db1 = Inr db'"
    from shifts_trans [OF insert_effect_shifts [OF this(1)] mutate [OF this(2)]] show ?thesis by simp
  qed (simp add: shifts_refl)
qed

lemmas effect_shifts = applyEffect_shifts [OF _ allocateRights_shifts] applyEffect_shifts [OF _ spendRights_shifts]
  applyEffect_shifts [OF _ returnRights_shifts]

lemma createAuthorityTx_shifts: "createAuthorityTx a s tot db = Inr (x, db') \<Longrightarrow> shifts db db' a s 0"
  using write_authority_shifts [of a s tot tot 0 db]
  by (auto simp: createAuthorityTx_def held_def shifts_refl split: option.splits sum.splits if_splits)

lemma initiateTx_shifts:
  assumes "initiateTx r b db = Inr (c, db')"
  shows "shifts db db' (tr_AccountID r) (tr_AssetID r) 0"
proof -
  have "db' = db \<or> (\<exists>row v db1 payload. dget (db_rights db) (tr_AccountID r, tr_AssetID r, tr_SourceRegion r) = Some row \<and>
      write_rights (tr_AccountID r, tr_AssetID r, tr_SourceRegion r) (rr_available row - tr_Amount r) v db = Inr db1 \<and>
      insert_transfer (draftCertificate r b v) payload db1 = Inr db')"
    using assms by (auto simp: initiateTx_def Let_def split: sum.splits option.splits if_splits)
  then show ?thesis
  proof (elim disjE exE conjE)
    fix row v db1 payload
    assume row: "dget (db_rights db) (tr_AccountID r, tr_AssetID r, tr_SourceRegion r) = Some row"
      and 1: "write_rights (tr_AccountID r, tr_AssetID r, tr_SourceRegion r) (rr_available row - tr_Amount r) v db = Inr db1"
      and 2: "insert_transfer (draftCertificate r b v) payload db1 = Inr db'"
    from insert_transfer_shifts [OF 2] have "shifts db1 db' (tr_AccountID r) (tr_AssetID r) (- tr_Amount r)"
      by (simp add: draftCertificate_def)
    from shifts_trans [OF write_rights_shifts [OF 1] this] show ?thesis by (simp add: available_def row)
  qed (simp add: shifts_refl)
qed

lemma attachCertificateTx_shifts:
  assumes "attachCertificateTx c payload db = Inr (x, db')"
  shows "\<exists>a s. shifts db db' a s 0"
proof -
  have "db' = db \<or> (\<exists>row. dget (db_transfers db) (ce_TransferID c) = Some row \<and>
      db' = db\<lparr>db_transfers := dset (ce_TransferID c) (row\<lparr>xr_certificate_sig := Some (ce_Signature c)\<rparr>) (db_transfers db)\<rparr>)"
    using assms by (auto simp: attachCertificateTx_def split: sum.splits option.splits if_splits)
  then show ?thesis
  proof (elim disjE exE conjE)
    fix row
    assume row: "dget (db_transfers db) (ce_TransferID c) = Some row"
      and db': "db' = db\<lparr>db_transfers := dset (ce_TransferID c) (row\<lparr>xr_certificate_sig := Some (ce_Signature c)\<rparr>)
        (db_transfers db)\<rparr>"
    from update_transfer_shifts [OF row, of "row\<lparr>xr_certificate_sig := Some (ce_Signature c)\<rparr>"]
    have "shifts db db' (xr_account_id row) (xr_asset_id row) 0"
      by (simp add: db')
    then show ?thesis by blast
  qed (auto intro: shifts_refl)
qed

lemma consumeTx_new:
  assumes "consumeTx c h b db = Inr (r, db')"
  shows "co_Duplicate r \<and> (\<exists>db0. lockConsumptionIdentity c db = Inr db0 \<and> db' = db0) \<or>
    (\<exists>db0 w db1 p db2 db3. \<not> co_Duplicate r \<and> lockConsumptionIdentity c db = Inr db0 \<and>
      nextConsumptionWatermark b db0 = Inr (w, db1) \<and> insert_consumed c h b w p db1 = Inr db2 \<and>
      add_authority (ce_AccountID c) (ce_AssetID c) (ce_Amount c) db2 = Inr db3 \<and>
      add_regional_rights (ce_AccountID c) (ce_AssetID c) (ce_DestinationRegion c) (ce_Amount c) db3 = Inr db')"
  using assms by (auto simp: consumeTx_def Let_def split: sum.splits option.splits if_splits prod.splits)

lemma consumeTx_shifts:
  assumes "consumeTx c h b db = Inr (r, db')"
  shows "shifts db db' (ce_AccountID c) (ce_AssetID c) 0"
proof -
  have lock: "lockConsumptionIdentity c db = Inr d \<Longrightarrow> shifts db d (ce_AccountID c) (ce_AssetID c) 0" for d
    by (rule shifts_frame) (auto simp: lockConsumptionIdentity_def split: sum.splits if_splits)
  have mark: "nextConsumptionWatermark b d = Inr (w, d') \<Longrightarrow> shifts d d' (ce_AccountID c) (ce_AssetID c) 0" for d d' w
    by (rule shifts_frame) (auto simp: nextConsumptionWatermark_def Let_def split: if_splits)
  have ins: "insert_consumed c h b w p d = Inr d' \<Longrightarrow> shifts d d' (ce_AccountID c) (ce_AssetID c) 0" for d d' w p
    by (rule shifts_frame) (auto simp: insert_consumed_def Let_def split: sum.splits if_splits)
  from consumeTx_new [OF assms] show ?thesis
  proof (elim disjE exE conjE)
    fix db0 w db1 p db2 db3
    assume "lockConsumptionIdentity c db = Inr db0" "nextConsumptionWatermark b db0 = Inr (w, db1)"
      "insert_consumed c h b w p db1 = Inr db2"
      "add_authority (ce_AccountID c) (ce_AssetID c) (ce_Amount c) db2 = Inr db3"
      "add_regional_rights (ce_AccountID c) (ce_AssetID c) (ce_DestinationRegion c) (ce_Amount c) db3 = Inr db'"
    from shifts_trans [OF shifts_trans [OF shifts_trans [OF shifts_trans [OF lock [OF this(1)] mark [OF this(2)]]
            ins [OF this(3)]] add_authority_shifts [OF this(4)]] add_regional_rights_shifts [OF this(5)]]
    show ?thesis by simp
  qed (use lock in auto)
qed

lemma attachReceiptTx_shifts: "attachReceiptTx c r payload db = Inr (x, db') \<Longrightarrow> shifts db db' a s 0"
  by (rule shifts_frame) (auto simp: attachReceiptTx_def split: sum.splits option.splits if_splits)


text \<open>The stored certificate of a transfer is the presented one once their payloads agree.\<close>

lemma loadTransferRecord_Some:
  assumes "loadTransferRecord db k = Inr (Some rec)"
  obtains row where "dget (db_transfers db) k = Some row" "read_amount (xr_amount row) = Inr (ce_Amount (tf_Certificate rec))"
    "tf_Certificate rec = row_certificate k row (ce_Amount (tf_Certificate rec))" "tf_Status rec = xr_status row"
    "Certificate_Payload (tf_Certificate rec) = Inr (xr_certificate_payload row)"
    "tf_ReceiptPayload rec = null_bytes (xr_receipt_payload row)"
    "tf_ReceiptSignature rec = null_bytes (xr_receipt_sig row)" "tf_ReceiptHash rec = null_bytes (xr_receipt_hash row)"
  using assms
  by (auto simp: loadTransferRecord_def Let_def row_certificate_def split: option.splits sum.splits if_splits)

lemma acknowledgeTx_settles:
  assumes "acknowledgeTx c r cp rp rh db = Inr (x, db')"
    and ok: "rows_ok db" and fits: "fitsDecimal38 (ce_Amount c)" and payload: "Certificate_Payload c = Inr cp"
  obtains "db' = db" | row db1 row' where "dget (db_transfers db) (ce_TransferID c) = Some row"
    "xr_account_id row = ce_AccountID c" "xr_asset_id row = ce_AssetID c" "xr_amount row = ce_Amount c"
    "xr_status row = ''IN_TRANSIT''" "xr_certificate_sig row = Some (ce_Signature c)"
    "reduce_total (ce_AccountID c) (ce_AssetID c) (ce_Amount c) db = Inr db1"
    "row' = row\<lparr>xr_status := ''ACKNOWLEDGED'', xr_receipt_payload := Some rp,
       xr_receipt_sig := Some (cr_Signature r), xr_receipt_hash := Some rh,
       xr_destination_watermark := Some (cr_DestinationCommitWatermark r), xr_receipt_key_id := Some (cr_KeyID r),
       xr_receipt_key_epoch := Some (cr_KeyEpoch r)\<rparr>"
    "db' = db1\<lparr>db_transfers := dset (ce_TransferID c) row' (db_transfers db)\<rparr>"
proof -
  obtain rec where rec: "loadTransferRecord db (ce_TransferID c) = Inr (Some rec)"
    "Certificate_Payload (tf_Certificate rec) = Inr cp" "ce_Signature (tf_Certificate rec) = ce_Signature c"
    using assms(1) by (auto simp: acknowledgeTx_def split: sum.splits option.splits if_splits)
  obtain row where row: "dget (db_transfers db) (ce_TransferID c) = Some row"
    "read_amount (xr_amount row) = Inr (ce_Amount (tf_Certificate rec))"
    "tf_Certificate rec = row_certificate (ce_TransferID c) row (ce_Amount (tf_Certificate rec))"
    "tf_Status rec = xr_status row"
    using loadTransferRecord_Some [OF rec(1)] by metis
  have rowfits: "fitsDecimal38 (xr_amount row)"
    using row(1) ok unfolding rows_ok_def by blast
  then have amount: "ce_Amount (tf_Certificate rec) = xr_amount row" "fitsDecimal38 (xr_amount row)"
    using row(2) by simp_all
  have same: "(tf_Certificate rec)\<lparr>ce_Signature := []\<rparr> = c\<lparr>ce_Signature := []\<rparr>"
    by (rule Certificate_payload_inject [OF _ fits rec(2) payload]) (simp add: amount)
  have fields: "xr_account_id row = ce_AccountID c" "xr_asset_id row = ce_AssetID c" "xr_amount row = ce_Amount c"
    using arg_cong [OF same, of ce_AccountID] arg_cong [OF same, of ce_AssetID] arg_cong [OF same, of ce_Amount]
      arg_cong [OF row(3), of ce_AccountID] arg_cong [OF row(3), of ce_AssetID] amount
    by (simp_all add: row_certificate_def)
  have sig: "null_bytes (xr_certificate_sig row) = ce_Signature c"
    using arg_cong [OF row(3), of ce_Signature] rec(3) by (simp add: row_certificate_def)
  show thesis
  proof (cases "tf_Status rec = ''ACKNOWLEDGED''")
    case True
    then have "db' = db"
      using assms(1) rec by (auto simp: acknowledgeTx_def split: if_splits)
    then show ?thesis using that(1) by blast
  next
    case False
    then obtain db1 where red: "reduce_total (ce_AccountID c) (ce_AssetID c) (ce_Amount c) db = Inr db1"
      and st: "xr_status row = ''IN_TRANSIT''" and ne: "ce_Signature c \<noteq> []"
      using assms(1) rec row(4) by (auto simp: acknowledgeTx_def split: if_splits sum.splits)
    have frame: "db_transfers db1 = db_transfers db"
      using red by (auto simp: reduce_total_def write_authority_def split: option.splits if_splits sum.splits)
    have "xr_certificate_sig row = Some (ce_Signature c)"
      using sig ne by (auto simp: null_bytes_def split: option.splits)
    moreover have "db' = db1\<lparr>db_transfers := dset (ce_TransferID c) (row\<lparr>xr_status := ''ACKNOWLEDGED'', xr_receipt_payload := Some rp,
       xr_receipt_sig := Some (cr_Signature r), xr_receipt_hash := Some rh,
       xr_destination_watermark := Some (cr_DestinationCommitWatermark r), xr_receipt_key_id := Some (cr_KeyID r),
       xr_receipt_key_epoch := Some (cr_KeyEpoch r)\<rparr>) (db_transfers db)\<rparr>"
      using assms(1) rec row False red st ne frame
      by (auto simp: acknowledgeTx_def int8_param_def split: if_splits sum.splits)
    ultimately show ?thesis using that(2) row(1) fields st red by blast
  qed
qed

lemma acknowledgeTx_shifts:
  assumes "acknowledgeTx c r cp rp rh db = Inr (x, db')"
    and "rows_ok db" "fitsDecimal38 (ce_Amount c)" "Certificate_Payload c = Inr cp"
  shows "shifts db db' (ce_AccountID c) (ce_AssetID c) 0"
  using assms
proof (cases rule: acknowledgeTx_settles)
  case (2 row db1 row')
  have frame: "db_transfers db1 = db_transfers db"
    using 2(7) by (auto simp: reduce_total_def write_authority_def split: option.splits if_splits sum.splits)
  have "shifts db1 db' (xr_account_id row) (xr_asset_id row) (transit row - transit row')"
    unfolding 2(9) frame [symmetric] by (rule update_transfer_shifts) (auto simp: 2 frame)
  then have "shifts db1 db' (ce_AccountID c) (ce_AssetID c) (ce_Amount c)"
    by (simp add: 2 transit_def)
  from shifts_trans [OF reduce_total_shifts [OF 2(7)] this] show ?thesis by simp
qed (simp add: shifts_refl)


section \<open>Runs\<close>

text \<open>Every call of the service that can change the database, with any arguments and any transaction outcomes.\<close>

inductive escrow_run :: "escrow_db \<Rightarrow> escrow_db \<Rightarrow> bool" where
  run_start: "escrow_run db db"
| run_create: "escrow_run db d \<Longrightarrow> escrow_run db (snd (CreateAuthority at a s tot d))"
| run_allocate: "escrow_run db d \<Longrightarrow> escrow_run db (snd (Allocate at r d))"
| run_spend: "escrow_run db d \<Longrightarrow> escrow_run db (snd (Spend at r d))"
| run_return: "escrow_run db d \<Longrightarrow> escrow_run db (snd (Return at r d))"
| run_initiate: "escrow_run db d \<Longrightarrow> (\<And>e. escrow_run e (between e)) \<Longrightarrow>
    escrow_run db (snd (Service_InitiateTransfer sv at at' between q d))"
| run_consume: "escrow_run db d \<Longrightarrow> (\<And>e. escrow_run e (between e)) \<Longrightarrow>
    escrow_run db (snd (ConsumeCertificate sv at at' between c region d))"
| run_acknowledge: "escrow_run db d \<Longrightarrow> fitsDecimal38 (ce_Amount c) \<Longrightarrow>
    escrow_run db (snd (AcknowledgeTransfer sv at c r d))"

text \<open>
  A reflexive and transitive relation that every committed transaction body satisfies holds between the ends of
  every run. A locale states this once; it is interpreted for the invariant and for the permanence of records.
\<close>

locale tx_relation =
  fixes R :: "escrow_db \<Rightarrow> escrow_db \<Rightarrow> bool"
  assumes R_refl: "R db db"
    and R_trans: "R db d \<Longrightarrow> R d e \<Longrightarrow> R db e"
    and R_create: "createAuthorityTx a s tot db = Inr (x, db') \<Longrightarrow> R db db'"
    and R_allocate: "AllocateInTx r db = Inr (y, db') \<Longrightarrow> R db db'"
    and R_spend: "SpendInTx r db = Inr (y, db') \<Longrightarrow> R db db'"
    and R_return: "ReturnInTx r db = Inr (y, db') \<Longrightarrow> R db db'"
    and R_initiate: "initiateTx q b db = Inr (c, db') \<Longrightarrow> R db db'"
    and R_attach: "attachCertificateTx c p db = Inr (c', db') \<Longrightarrow> R db db'"
    and R_consume: "consumeTx c h b db = Inr (z, db') \<Longrightarrow> R db db'"
    and R_attach_receipt: "attachReceiptTx c t p db = Inr (t', db') \<Longrightarrow> R db db'"
    and R_acknowledge: "acknowledgeTx c t cp rp h db = Inr (x, db') \<Longrightarrow> fitsDecimal38 (ce_Amount c) \<Longrightarrow>
      Certificate_Payload c = Inr cp \<Longrightarrow> R db db'"
begin

lemma R_inTx: "(\<And>x db'. fn db = Inr (x, db') \<Longrightarrow> R db db') \<Longrightarrow> R db (snd (inTx n attempts fn db))"
  by (rule inTx_preserves) (auto intro: R_refl)

lemma R_runEffect:
  assumes "\<And>x db'. body db = Inr (x, db') \<Longrightarrow> R db db'"
  shows "R db (snd (runEffect attempts r body db))"
proof (cases "EffectRequest_validate r")
  case None
  have "snd (runEffect attempts r body db) = snd (inTx defaultSerializableRetries attempts body db)"
    by (simp add: runEffect_def None split: prod.splits sum.splits)
  then show ?thesis using R_inTx [of body db] assms by simp
qed (simp add: runEffect_def R_refl)

lemma R_initiate_call:
  assumes between: "\<And>e. R e (between e)"
  shows "R db (snd (Service_InitiateTransfer sv at at' between q db))"
proof -
  have first: "R db (snd (inTx n attempts (initiateTx q b) db))" for n attempts b
    by (rule R_inTx) (rule R_initiate)
  have second: "R d (snd (attachCertificateSignature attempts c d))" for attempts c d
    by (auto simp: attachCertificateSignature_def R_refl intro: R_inTx R_attach split: sum.splits)
  have verified: "snd (verified_certificate sv res) = snd res" for res
    by (auto simp: verified_certificate_def split: prod.splits sum.splits option.splits)
  have both: "inTx n attempts (initiateTx q b) db = (res, d) \<Longrightarrow>
      R db d \<and> R db (snd (attachCertificateSignature at' c (between d)))" for n attempts b res d c
    using first [of n attempts b] between [of d] second [of "between d" at' c] by (auto intro: R_trans)
  show ?thesis
    by (auto simp: Service_InitiateTransfer_def signed_transfer_def verified R_refl dest: both split: option.splits prod.splits sum.splits)
qed

lemma R_consume_call:
  assumes between: "\<And>e. R e (between e)"
  shows "R db (snd (ConsumeCertificate sv at at' between c region db))"
proof -
  have first: "R db (snd (inTx n attempts (consumeTx c h b) db))" for n attempts h b
    by (rule R_inTx) (rule R_consume)
  have second: "R d (snd (attachReceiptSignature attempts c t d))" for attempts t d
    by (auto simp: attachReceiptSignature_def R_refl intro: R_inTx R_attach_receipt split: sum.splits)
  have verified: "snd (verified_consumption sv c z res) = snd res" for z res
    by (auto simp: verified_consumption_def split: prod.splits sum.splits option.splits)
  have both: "inTx n attempts (consumeTx c h b) db = (res, d) \<Longrightarrow>
      R db d \<and> R db (snd (attachReceiptSignature at' c t (between d)))" for n attempts h b res d t
    using first [of n attempts h b] between [of d] second [of "between d" at' t] by (auto intro: R_trans)
  show ?thesis
    by (auto simp: ConsumeCertificate_def signed_consumption_def verified R_refl dest: both split: option.splits prod.splits sum.splits)
qed

lemma R_acknowledge_call:
  "fitsDecimal38 (ce_Amount c) \<Longrightarrow> R db (snd (AcknowledgeTransfer sv at c r db))"
  by (auto simp: AcknowledgeTransfer_def R_refl intro!: R_inTx intro: R_acknowledge split: option.splits sum.splits)

lemma R_create_call: "R db (snd (CreateAuthority at a s tot db))"
  by (auto simp: CreateAuthority_def R_refl intro!: R_inTx intro: R_create)

lemma R_run: "escrow_run db db' \<Longrightarrow> R db db'"
proof (induction rule: escrow_run.induct)
  case (run_initiate db d between sv at at' q)
  then show ?case using R_initiate_call [of between d sv at at' q] by (blast intro: R_trans)
next
  case (run_consume db d between sv at at' c region)
  then show ?case using R_consume_call [of between d sv at at' c region] by (blast intro: R_trans)
next
  case (run_acknowledge db d c sv at r)
  then show ?case using R_acknowledge_call [of c d sv at r] by (blast intro: R_trans)
next
  case (run_create db d at a s tot)
  then show ?case using R_create_call [of d at a s tot] by (blast intro: R_trans)
next
  case (run_allocate db d at r)
  then show ?case using R_runEffect [of "AllocateInTx r" d at r] by (auto simp: Allocate_def intro: R_trans R_allocate)
next
  case (run_spend db d at r)
  then show ?case using R_runEffect [of "SpendInTx r" d at r] by (auto simp: Spend_def intro: R_trans R_spend)
next
  case (run_return db d at r)
  then show ?case using R_runEffect [of "ReturnInTx r" d at r] by (auto simp: Return_def intro: R_trans R_return)
qed (rule R_refl)

end


section \<open>The invariant\<close>

definition issuance_unique :: "escrow_db \<Rightarrow> bool" where
  "issuance_unique db \<longleftrightarrow> (\<forall>i j r q. dget (db_consumed db) i = Some r \<and> dget (db_consumed db) j = Some q \<and>
     row_issuance r = row_issuance q \<longrightarrow> i = j)"

definition escrow_inv :: "escrow_db \<Rightarrow> bool" where
  "escrow_inv db \<longleftrightarrow> rows_ok db \<and> (\<forall>a s. slack db a s = 0) \<and>
     (\<forall>a s. offline_issued db a s = folded_offline_issued db a s) \<and> issuance_unique db"

lemma escrow_inv_shifts:
  "shifts db db' a s 0 \<Longrightarrow> (issuance_unique db \<Longrightarrow> issuance_unique db') \<Longrightarrow> escrow_inv db \<Longrightarrow> escrow_inv db'"
  by (auto simp: escrow_inv_def shifts_def offline_issued_def folded_offline_issued_def)

text \<open>The tables of permanent records, which the statements on authority and rights leave alone.\<close>

definition same_records :: "escrow_db \<Rightarrow> escrow_db \<Rightarrow> bool" where
  "same_records db db' \<longleftrightarrow> db_effects db' = db_effects db \<and> db_consumed db' = db_consumed db \<and>
     db_transfers db' = db_transfers db"

lemma same_records_refl: "same_records db db"
  by (simp add: same_records_def)

lemma same_records_trans: "same_records db d \<Longrightarrow> same_records d e \<Longrightarrow> same_records db e"
  by (simp add: same_records_def)

lemma same_records_write:
  "write_authority k tot un v db = Inr db' \<Longrightarrow> same_records db db'"
  "write_rights k' x v db = Inr db' \<Longrightarrow> same_records db db'"
  "add_regional_rights a s region x db = Inr db' \<Longrightarrow> same_records db db'"
  "reduce_total a s x db = Inr db' \<Longrightarrow> same_records db db'"
  "add_authority a s x db = Inr db' \<Longrightarrow> same_records db db'"
  by (auto simp: same_records_def write_authority_def write_rights_def add_regional_rights_def reduce_total_def
      add_authority_def split: option.splits if_splits sum.splits)

lemma same_records_effect_body:
  "allocateRights r db = Inr db' \<Longrightarrow> same_records db db'"
  "spendRights r db = Inr db' \<Longrightarrow> same_records db db'"
  "returnRights r db = Inr db' \<Longrightarrow> same_records db db'"
  by (auto simp: allocateRights_def spendRights_def returnRights_def split: option.splits if_splits sum.splits
      dest!: same_records_write intro: same_records_trans)

lemma applyEffect_Inr:
  assumes "applyEffect kind r mutate db = Inr (x, db')"
  obtains (duplicate) row where "dget (db_effects db) (er_EffectID r) = Some row" "sameEffect row kind r" "db' = db"
      "rc_Duplicate x"
  | (fresh) db1 where "dget (db_effects db) (er_EffectID r) = None" "insert_effect kind r db = Inr db1"
      "mutate db1 = Inr db'" "\<not> rc_Duplicate x"
  using assms by (auto simp: applyEffect_def Let_def split: if_splits option.splits sum.splits)

lemma effect_recorded:
  assumes "insert_effect kind r db = Inr db1"
  shows "\<exists>row. db_effects db1 = dset (er_EffectID r) row (db_effects db) \<and> sameEffect row kind r"
    "db_consumed db1 = db_consumed db" "db_transfers db1 = db_transfers db"
  using assms by (auto simp: insert_effect_def sameEffect_def decimal38_def split: sum.splits if_splits)

text \<open>What stays of a record for ever.\<close>

definition transfer_kept :: "transfer_row \<Rightarrow> transfer_row \<Rightarrow> bool" where
  "transfer_kept row row' \<longleftrightarrow>
     xr_account_id row' = xr_account_id row \<and> xr_asset_id row' = xr_asset_id row \<and>
     xr_source_region row' = xr_source_region row \<and> xr_source_epoch row' = xr_source_epoch row \<and>
     xr_destination_region row' = xr_destination_region row \<and>
     xr_amount row' = xr_amount row \<and> xr_certificate_payload row' = xr_certificate_payload row \<and>
     (xr_certificate_sig row \<noteq> None \<longrightarrow> xr_certificate_sig row' = xr_certificate_sig row) \<and>
     (xr_status row \<noteq> ''IN_TRANSIT'' \<and> xr_certificate_sig row \<noteq> None \<longrightarrow> row' = row)"

definition consumed_kept :: "consumed_row \<Rightarrow> consumed_row \<Rightarrow> bool" where
  "consumed_kept row row' \<longleftrightarrow> row'\<lparr>cn_receipt_sig := None\<rparr> = row\<lparr>cn_receipt_sig := None\<rparr> \<and>
     (cn_receipt_sig row \<noteq> None \<longrightarrow> cn_receipt_sig row' = cn_receipt_sig row)"

definition keeps :: "escrow_db \<Rightarrow> escrow_db \<Rightarrow> bool" where
  "keeps db db' \<longleftrightarrow>
     (\<forall>k row. dget (db_effects db) k = Some row \<longrightarrow> dget (db_effects db') k = Some row) \<and>
     (\<forall>k row. dget (db_consumed db) k = Some row \<longrightarrow> (\<exists>row'. dget (db_consumed db') k = Some row' \<and> consumed_kept row row')) \<and>
     (\<forall>k row. dget (db_transfers db) k = Some row \<longrightarrow> (\<exists>row'. dget (db_transfers db') k = Some row' \<and> transfer_kept row row'))"

lemma transfer_kept_refl: "transfer_kept r r"
  by (simp add: transfer_kept_def)

lemma transfer_kept_trans: "transfer_kept r q \<Longrightarrow> transfer_kept q t \<Longrightarrow> transfer_kept r t"
  by (auto simp: transfer_kept_def)

lemma consumed_kept_refl: "consumed_kept r r"
  by (simp add: consumed_kept_def)

lemma consumed_kept_trans: "consumed_kept r q \<Longrightarrow> consumed_kept q t \<Longrightarrow> consumed_kept r t"
  by (simp add: consumed_kept_def)

lemma keeps_same: "same_records db db' \<Longrightarrow> keeps db db'"
  by (auto simp: same_records_def keeps_def transfer_kept_refl consumed_kept_refl)

lemma keeps_trans: "keeps db d \<Longrightarrow> keeps d e \<Longrightarrow> keeps db e"
  unfolding keeps_def by (meson transfer_kept_trans consumed_kept_trans)

lemma applyEffect_keeps:
  assumes "applyEffect kind r mutate db = Inr (x, db')"
    and mutate: "\<And>d d'. mutate d = Inr d' \<Longrightarrow> same_records d d'"
  shows "keeps db db'" "db_consumed db' = db_consumed db"
  using assms(1)
  by (cases rule: applyEffect_Inr; fastforce simp: keeps_def same_records_def DAList.lookup_update transfer_kept_refl
      consumed_kept_refl dest: mutate effect_recorded)+

lemmas effect_keeps = applyEffect_keeps [OF _ same_records_effect_body(1)] applyEffect_keeps [OF _ same_records_effect_body(2)]
  applyEffect_keeps [OF _ same_records_effect_body(3)]


lemma keeps_after: "same_records db d \<Longrightarrow> keeps d e \<Longrightarrow> keeps db e"
  by (rule keeps_trans [OF keeps_same])

lemma acknowledged_kept:
  "xr_status row = ''IN_TRANSIT'' \<Longrightarrow> transfer_kept row (row\<lparr>xr_status := st, xr_receipt_payload := x1,
     xr_receipt_sig := x2, xr_receipt_hash := x3, xr_destination_watermark := x4, xr_receipt_key_id := x5,
     xr_receipt_key_epoch := x6\<rparr>)"
  by (simp add: transfer_kept_def)

lemma initiateTx_keeps:
  assumes "initiateTx r b db = Inr (c, db')"
  shows "keeps db db'" "db_consumed db' = db_consumed db"
proof -
  have "db' = db \<or> (\<exists>k x v db1 payload. write_rights k x v db = Inr db1 \<and>
      insert_transfer (draftCertificate r b v) payload db1 = Inr db')"
    using assms by (auto simp: initiateTx_def Let_def split: sum.splits option.splits if_splits)
  then have "keeps db db' \<and> db_consumed db' = db_consumed db"
  proof (elim disjE exE conjE)
    fix k x v db1 payload
    assume "write_rights k x v db = Inr db1" and ins: "insert_transfer (draftCertificate r b v) payload db1 = Inr db'"
    then have "same_records db db1" by (blast dest: same_records_write)
    moreover have "keeps db1 db'" "db_consumed db' = db_consumed db1"
      using ins by (auto simp: insert_transfer_def Let_def keeps_def DAList.lookup_update transfer_kept_refl consumed_kept_refl
          split: sum.splits if_splits)
    ultimately show ?thesis using keeps_after by (simp add: same_records_def)
  qed (simp add: keeps_same same_records_refl)
  then show "keeps db db'" "db_consumed db' = db_consumed db" by simp_all
qed

lemma attachCertificateTx_keeps:
  assumes "attachCertificateTx c p db = Inr (x, db')"
  shows "keeps db db'" "db_consumed db' = db_consumed db"
  using assms
  by (auto simp: attachCertificateTx_def keeps_def transfer_kept_def consumed_kept_refl DAList.lookup_update
      split: sum.splits option.splits if_splits)

lemma acknowledgeTx_keeps:
  assumes "acknowledgeTx c r cp rp h db = Inr (x, db')"
  shows "keeps db db'" "db_consumed db' = db_consumed db"
proof -
  have "db' = db \<or> (\<exists>db1 row row'. reduce_total (ce_AccountID c) (ce_AssetID c) (ce_Amount c) db = Inr db1 \<and>
      dget (db_transfers db1) (ce_TransferID c) = Some row \<and>
      db' = db1\<lparr>db_transfers := dset (ce_TransferID c) row' (db_transfers db1)\<rparr> \<and> transfer_kept row row')"
    using assms acknowledged_kept unfolding acknowledgeTx_def by (fastforce split: sum.splits option.splits if_splits)
  then have "keeps db db' \<and> db_consumed db' = db_consumed db"
  proof (elim disjE exE conjE)
    fix db1 row row'
    assume "reduce_total (ce_AccountID c) (ce_AssetID c) (ce_Amount c) db = Inr db1"
      and row: "dget (db_transfers db1) (ce_TransferID c) = Some row" "transfer_kept row row'"
        "db' = db1\<lparr>db_transfers := dset (ce_TransferID c) row' (db_transfers db1)\<rparr>"
    then have "same_records db db1" by (blast dest: same_records_write)
    moreover have "keeps db1 db'" "db_consumed db' = db_consumed db1"
      using row by (auto simp: keeps_def DAList.lookup_update transfer_kept_refl consumed_kept_refl)
    ultimately show ?thesis using keeps_after by (simp add: same_records_def)
  qed (simp add: keeps_same same_records_refl)
  then show "keeps db db'" "db_consumed db' = db_consumed db" by simp_all
qed

lemma createAuthorityTx_keeps:
  assumes "createAuthorityTx a s tot db = Inr (x, db')"
  shows "keeps db db'" "db_consumed db' = db_consumed db"
proof -
  have "same_records db db'"
    using assms by (auto simp: createAuthorityTx_def same_records_refl split: option.splits sum.splits if_splits
        dest: same_records_write)
  then show "keeps db db'" "db_consumed db' = db_consumed db" by (auto simp: keeps_same) (simp add: same_records_def)
qed

lemma insert_consumed_row:
  assumes "insert_consumed c h b w p db = Inr db'"
  obtains row where "db' = db\<lparr>db_consumed := dset (ce_TransferID c) row (db_consumed db)\<rparr>"
    "dget (db_consumed db) (ce_TransferID c) = None" "row_issuance row = issuance_of c"
    "\<forall>k r. dget (db_consumed db) k = Some r \<longrightarrow> row_issuance r \<noteq> issuance_of c"
    "cn_payload_hash row = h" "cn_amount row = ce_Amount c" "cn_receipt_payload row = p"
    "cn_account_id row = ce_AccountID c" "cn_asset_id row = ce_AssetID c"
proof -
  define row where "row = \<lparr>cn_account_id = ce_AccountID c, cn_asset_id = ce_AssetID c, cn_source_region = ce_SourceRegion c,
     cn_destination_region = ce_DestinationRegion c, cn_amount = ce_Amount c, cn_payload_hash = h,
     cn_source_legal_entity_id = ce_SourceLegalEntityID c, cn_source_key_epoch = ce_KeyEpoch c,
     cn_source_epoch = ce_SourceEpoch c, cn_destination_legal_entity_id = ce_DestinationLegalEntityID c,
     cn_destination_key_id = kb_KeyID b, cn_destination_key_epoch = kb_Epoch b,
     cn_destination_watermark = w, cn_receipt_payload = p, cn_receipt_sig = None\<rparr>"
  have key: "row_issuance row = issuance_of c" by (simp add: row_def row_issuance_def issuance_of_def)
  have new: "\<not> list_ex (\<lambda>(_, r). row_issuance r = row_issuance row) (entries (db_consumed db))"
    and upd: "db' = db\<lparr>db_consumed := dset (ce_TransferID c) row (db_consumed db)\<rparr>"
    "dget (db_consumed db) (ce_TransferID c) = None"
    using assms by (auto simp: insert_consumed_def Let_def row_def decimal38_def int8_param_def split: sum.splits if_splits)
  have "\<forall>k r. dget (db_consumed db) k = Some r \<longrightarrow> row_issuance r \<noteq> issuance_of c"
    using new key by (force simp: list_ex_iff simp flip: mem_entries_iff)
  then show thesis
    using that [OF upd key] by (simp add: row_def)
qed

lemma consumeTx_keeps:
  assumes "consumeTx c h b db = Inr (z, db')"
  shows "keeps db db'" "issuance_unique db \<Longrightarrow> issuance_unique db'"
proof -
  have lock: "lockConsumptionIdentity c db = Inr d \<Longrightarrow> same_records db d" for d
    by (auto simp: lockConsumptionIdentity_def same_records_def split: sum.splits if_splits)
  have mark: "nextConsumptionWatermark b d = Inr (w, d') \<Longrightarrow> same_records d d'" for d d' w
    by (auto simp: nextConsumptionWatermark_def same_records_def Let_def split: if_splits)
  have same: "same_records d d' \<Longrightarrow> issuance_unique d' = issuance_unique d" for d d'
    by (simp add: same_records_def issuance_unique_def)
  have "keeps db db' \<and> (issuance_unique db \<longrightarrow> issuance_unique db')"
    using consumeTx_new [OF assms]
  proof (elim disjE exE conjE)
    fix db0 w db1 p db2 db3
    assume "lockConsumptionIdentity c db = Inr db0" "nextConsumptionWatermark b db0 = Inr (w, db1)"
      and ins: "insert_consumed c h b w p db1 = Inr db2"
      and "add_authority (ce_AccountID c) (ce_AssetID c) (ce_Amount c) db2 = Inr db3"
      "add_regional_rights (ce_AccountID c) (ce_AssetID c) (ce_DestinationRegion c) (ce_Amount c) db3 = Inr db'"
    then have before: "same_records db db1" and after: "same_records db2 db'"
      using lock mark same_records_trans same_records_write by metis+
    from ins have "keeps db1 db2 \<and> (issuance_unique db1 \<longrightarrow> issuance_unique db2)"
    proof (cases rule: insert_consumed_row)
      case (1 row)
      have "issuance_unique db1 \<longrightarrow> issuance_unique db2"
        using 1(3,4) by (simp add: issuance_unique_def 1(1) DAList.lookup_update) metis
      then show ?thesis
        using 1(2) by (auto simp: keeps_def 1(1) DAList.lookup_update transfer_kept_refl consumed_kept_refl)
    qed
    then show ?thesis
      using before after same [OF before] same [OF after] keeps_same keeps_trans by blast
  qed (use lock same keeps_same in auto)
  then show "keeps db db'" "issuance_unique db \<Longrightarrow> issuance_unique db'" by blast+
qed

lemma attachReceiptTx_keeps:
  assumes "attachReceiptTx c t p db = Inr (x, db')"
  shows "keeps db db'" "issuance_unique db \<Longrightarrow> issuance_unique db'"
proof -
  have "db' = db \<or> (\<exists>row. dget (db_consumed db) (ce_TransferID c) = Some row \<and> cn_receipt_sig row = None \<and>
      db' = db\<lparr>db_consumed := dset (ce_TransferID c) (row\<lparr>cn_receipt_sig := Some (cr_Signature t)\<rparr>) (db_consumed db)\<rparr>)"
    using assms by (auto simp: attachReceiptTx_def split: sum.splits option.splits if_splits)
  then have "keeps db db' \<and> (issuance_unique db \<longrightarrow> issuance_unique db')"
  proof (elim disjE exE conjE)
    fix row
    assume row: "dget (db_consumed db) (ce_TransferID c) = Some row" "cn_receipt_sig row = None"
      and db': "db' = db\<lparr>db_consumed := dset (ce_TransferID c) (row\<lparr>cn_receipt_sig := Some (cr_Signature t)\<rparr>) (db_consumed db)\<rparr>"
    have "row_issuance (row\<lparr>cn_receipt_sig := Some (cr_Signature t)\<rparr>) = row_issuance row"
      by (simp add: row_issuance_def)
    then have "issuance_unique db \<longrightarrow> issuance_unique db'"
      using row by (auto simp: issuance_unique_def db' DAList.lookup_update)
    moreover have "consumed_kept row (row\<lparr>cn_receipt_sig := Some (cr_Signature t)\<rparr>)"
      using row by (simp add: consumed_kept_def)
    then have "keeps db db'"
      using row by (auto simp: keeps_def db' DAList.lookup_update transfer_kept_refl consumed_kept_refl)
    ultimately show ?thesis by blast
  qed (simp add: keeps_same same_records_refl)
  then show "keeps db db'" "issuance_unique db \<Longrightarrow> issuance_unique db'" by blast+
qed

lemma issuance_unique_same: "db_consumed db' = db_consumed db \<Longrightarrow> issuance_unique db \<Longrightarrow> issuance_unique db'"
  by (simp add: issuance_unique_def)

interpretation records: tx_relation keeps
proof
  show "keeps db db" for db by (rule keeps_same [OF same_records_refl])
qed (auto simp: AllocateInTx_def SpendInTx_def ReturnInTx_def intro: keeps_trans effect_keeps createAuthorityTx_keeps
    initiateTx_keeps attachCertificateTx_keeps consumeTx_keeps attachReceiptTx_keeps acknowledgeTx_keeps)

interpretation conservation: tx_relation "\<lambda>db db'. escrow_inv db \<longrightarrow> escrow_inv db'"
proof
  show "escrow_inv db \<longrightarrow> escrow_inv db'" if "acknowledgeTx c t cp rp h db = Inr (x, db')" "fitsDecimal38 (ce_Amount c)"
    "Certificate_Payload c = Inr cp" for c t cp rp h db x db'
    using that acknowledgeTx_shifts [OF that(1)] acknowledgeTx_keeps [OF that(1)]
    by (metis escrow_inv_def escrow_inv_shifts issuance_unique_same)
qed (auto simp: AllocateInTx_def SpendInTx_def ReturnInTx_def
    intro: escrow_inv_shifts [OF createAuthorityTx_shifts issuance_unique_same [OF createAuthorityTx_keeps(2)]]
      escrow_inv_shifts [OF effect_shifts(1) issuance_unique_same [OF effect_keeps(2)]]
      escrow_inv_shifts [OF effect_shifts(2) issuance_unique_same [OF effect_keeps(4)]]
      escrow_inv_shifts [OF effect_shifts(3) issuance_unique_same [OF effect_keeps(6)]]
      escrow_inv_shifts [OF initiateTx_shifts issuance_unique_same [OF initiateTx_keeps(2)]]
      escrow_inv_shifts [OF consumeTx_shifts consumeTx_keeps(2)]
      escrow_inv_shifts [OF attachReceiptTx_shifts attachReceiptTx_keeps(2)]
    dest: attachCertificateTx_shifts escrow_inv_shifts [OF _ issuance_unique_same [OF attachCertificateTx_keeps(2)]])


end
