(* ===== verification/Escrow_Properties.thy ===== *)
theory Escrow_Properties
  imports Escrow_Conservation
begin

text \<open>
  The properties of the escrow service: authority is conserved in every run, an effect is applied once however
  often its call is retried, a certificate credits rights once, and an acknowledgement settles a transfer once.
\<close>

section \<open>Snapshots\<close>

lemma read_rights_ok:
  assumes "list_all (\<lambda>(_, a). fitsDecimal38 a) xs" "distinct (map fst xs)" "\<forall>r \<in> fst ` set xs. dget m r = None"
  shows "\<exists>d. read_rights xs m = Inr d \<and> dict_sum (\<lambda>_ a. a) d = dict_sum (\<lambda>_ a. a) m + sum_list (map snd xs) \<and>
    (\<forall>k v. dget d k = Some v \<longrightarrow> dget m k = Some v \<or> (k, v) \<in> set xs)"
  using assms
proof (induction xs arbitrary: m)
  case (Cons x xs)
  obtain r a where x: "x = (r, a)" by (cases x)
  from Cons.prems x have fresh: "dget m r = None" and a: "fitsDecimal38 a" by auto
  have "\<exists>d. read_rights xs (dset r a m) = Inr d \<and>
      dict_sum (\<lambda>_ a. a) d = dict_sum (\<lambda>_ a. a) (dset r a m) + sum_list (map snd xs) \<and>
      (\<forall>k v. dget d k = Some v \<longrightarrow> dget (dset r a m) k = Some v \<or> (k, v) \<in> set xs)"
    using Cons.prems x by (intro Cons.IH) (auto simp: DAList.lookup_update)
  then show ?case
    using fresh a by (auto simp: x dict_sum_dset DAList.lookup_update split: if_splits)
qed simp

lemma regional_rights_facts:
  shows "distinct (map fst (regional_rights db a s))"
    and "sum_list (map snd (regional_rights db a s)) = region_total db a s"
    and "(r, x) \<in> set (regional_rights db a s) \<Longrightarrow> \<exists>row. dget (db_rights db) (a, s, r) = Some row \<and> x = rr_available row"
proof -
  have dist: "distinct (map fst xs) \<Longrightarrow> distinct (map fst (map (\<lambda>((_, _, region), row). (region, rr_available row))
      (filter (\<lambda>((x, y, _), _). x = a \<and> y = s) xs)))" for xs :: "((string \<times> string \<times> string) \<times> rights_row) list"
    by (induction xs) (auto simp: image_iff)
  show "distinct (map fst (regional_rights db a s))"
    unfolding regional_rights_def by (rule dist) simp
  have sum: "sum_list (map snd (map (\<lambda>((_, _, region), row). (region, rr_available row))
      (filter (\<lambda>((x, y, _), _). x = a \<and> y = s) xs))) =
      sum_list (map (\<lambda>(k, v). (\<lambda>(x, y, _) row. if x = a \<and> y = s then rr_available row else 0) k v) xs)"
    for xs :: "((string \<times> string \<times> string) \<times> rights_row) list"
    by (induction xs) (auto split: if_splits)
  show "sum_list (map snd (regional_rights db a s)) = region_total db a s"
    unfolding regional_rights_def region_total_def dict_sum_def by (rule sum)
  show "(r, x) \<in> set (regional_rights db a s) \<Longrightarrow> \<exists>row. dget (db_rights db) (a, s, r) = Some row \<and> x = rr_available row"
    by (auto simp: regional_rights_def mem_entries_iff)
qed

lemma dict_sum_nonneg: "(\<And>k v. dget m k = Some v \<Longrightarrow> 0 \<le> f k v) \<Longrightarrow> 0 \<le> dict_sum f m"
  unfolding dict_sum_def by (rule sum_list_nonneg) (auto simp: mem_entries_iff)

lemma buckets_nonneg:
  assumes "rows_ok db"
  shows "0 \<le> region_total db a s" "0 \<le> transit_total db a s" "0 \<le> offline_issued db a s"
  using assms unfolding region_total_def transit_total_def offline_issued_def
  by (intro dict_sum_nonneg; fastforce simp: rows_ok_def rights_ok_def intro: less_imp_le)+

lemma snapshot_conserved:
  assumes inv: "escrow_inv db" and row: "dget (db_authorities db) (a, s) = Some row"
  shows "\<exists>sn. snapshotTx a s db = Inr sn \<and> Authority_Conserved sn \<and> au_Total sn = ar_total_authority row \<and>
    au_InTransit sn = transit_total db a s \<and> au_OfflineIssued sn = offline_issued db a s"
proof -
  have ok: "rows_ok db" and eq: "held db a s = region_total db a s + transit_total db a s + offline_issued db a s"
    and fold: "folded_offline_issued db a s = offline_issued db a s"
    using inv by (simp_all add: escrow_inv_def slack_def) (metis add.commute diff_add_cancel diff_diff_eq)
  note nonneg = buckets_nonneg [OF ok, of a s]
  have auth: "fitsDecimal38 (ar_total_authority row)" "0 \<le> ar_unallocated row" "ar_unallocated row \<le> ar_total_authority row"
    using ok row by (auto simp: rows_ok_def authority_ok_def)
  have parts: "ar_total_authority row = ar_unallocated row + transit_total db a s + offline_issued db a s + region_total db a s"
    using eq row by (simp add: held_def)
  have fits: "fitsDecimal38 (ar_unallocated row)" "fitsDecimal38 (transit_total db a s)" "fitsDecimal38 (offline_issued db a s)"
    using auth nonneg parts by (auto simp: fitsDecimal38_iff)
  have "list_all (\<lambda>(_, x). fitsDecimal38 x) (regional_rights db a s)"
    using regional_rights_facts(3) [of _ _ db a s] ok by (fastforce simp: list_all_iff rows_ok_def rights_ok_def)
  from read_rights_ok [OF this regional_rights_facts(1), of dempty]
  obtain d where d: "read_rights (regional_rights db a s) dempty = Inr d"
    "dict_sum (\<lambda>_ x. x) d = region_total db a s" "\<And>k v. dget d k = Some v \<Longrightarrow> (k, v) \<in> set (regional_rights db a s)"
    by (auto simp: regional_rights_facts(2))
  have "list_all (\<lambda>(_, x). 0 \<le> x) (entries d)"
    using d(3) regional_rights_facts(3) [of _ _ db a s] ok
    by (fastforce simp: list_all_iff mem_entries_iff rows_ok_def rights_ok_def)
  then show ?thesis
    using parts auth nonneg fits fold d(1,2) row by (simp add: snapshotTx_def Authority_Conserved_iff)
qed

text \<open>
  C2: In every run of the service, from a database that satisfies the invariant, whatever calls its clients make,
  whatever happens to their transactions and however calls interleave, a snapshot of an existing authority
  succeeds and passes the conservation check of \<^verbatim>\<open>Authority.Conserved\<close>: the total is the unallocated amount
  plus all regional rights plus what is in transit plus what is issued offline.
\<close>

theorem authority_conserved_in_every_run:
  assumes "escrow_inv db0" "escrow_run db0 db" "dget (db_authorities db) (a, s) = Some row"
  shows "\<exists>sn. Snapshot [] a s db = (Inr sn, db) \<and> Authority_Conserved sn \<and> au_Total sn = ar_total_authority row"
proof -
  obtain sn where "snapshotTx a s db = Inr sn" "Authority_Conserved sn" "au_Total sn = ar_total_authority row"
    using snapshot_conserved [OF _ assms(3)] conservation.R_run [OF assms(2)] assms(1) by blast
  then show ?thesis by (auto simp: Snapshot_def defaultSerializableRetries_def intro!: inTx_ok)
qed

definition empty_escrow_db :: escrow_db where
  "empty_escrow_db = \<lparr>db_authorities = dempty, db_rights = dempty, db_transfers = dempty, db_consumed = dempty,
     db_effects = dempty, db_watermarks = dempty, db_transfer_locks = [], db_issuance_locks = [],
     db_offline_issued = dempty, db_allowances = dempty\<rparr>"

lemma empty_escrow_inv: "escrow_inv empty_escrow_db"
  by (simp add: escrow_inv_def empty_escrow_db_def rows_ok_def slack_def held_def region_total_def transit_total_def
      offline_issued_def folded_offline_issued_def issuance_unique_def)

text \<open>A small history: an authority of 100 units, 30 of them allocated to a region and 12 spent there.\<close>

definition sample_effect :: "string \<Rightarrow> amount \<Rightarrow> EffectRequest" where
  "sample_effect i x = \<lparr>er_EffectID = i, er_AccountID = ''acct'', er_AssetID = ''KZT'', er_Region = ''eu'', er_Amount = x\<rparr>"

definition sample_created :: escrow_db where
  "sample_created = snd (CreateAuthority [] ''acct'' ''KZT'' 100 empty_escrow_db)"

definition sample_allocated :: escrow_db where
  "sample_allocated = snd (Allocate [SerializationFailure] (sample_effect ''e1'' 30) sample_created)"

definition sample_spent :: escrow_db where
  "sample_spent = snd (Spend [AckLost] (sample_effect ''e2'' 12) sample_allocated)"

lemma inTx_first: "0 < n \<Longrightarrow> inTx n (AckLost # rest) fn db =
    (case fn db of Inl e \<Rightarrow> (Inl e, db) | Inr (x, db') \<Rightarrow> (Inl connection_lost, db'))"
  by (cases n) (auto split: sum.splits)

lemma inTx_retried: "0 < n \<Longrightarrow> inTx n (SerializationFailure # rest) fn db = inTx (n - 1) rest fn db"
  by (cases n) auto

lemma inTx_plain: "0 < n \<Longrightarrow> inTx n [] fn db = (case fn db of Inl e \<Rightarrow> (Inl e, db) | Inr (x, db') \<Rightarrow> (Inr x, db'))"
  by (cases n) (auto split: sum.splits)

lemmas sample_simps = inTx_first inTx_retried inTx_plain defaultSerializableRetries_def sample_effect_def
  runEffect_def applyEffect_def insert_effect_def EffectRequest_validate_def EffectKind_valid_def
  EffectAllocate_def EffectSpend_def EffectReturn_def decimal38_def fitsDecimal38_iff write_authority_def write_rights_def
  int8_succ_def add_regional_rights_def reduce_total_def DAList.lookup_update

lemma sample_created_eval:
  "sample_created = empty_escrow_db\<lparr>db_authorities := dset (''acct'', ''KZT'')
     \<lparr>ar_total_authority = 100, ar_unallocated = 100, ar_version = 0\<rparr> dempty\<rparr>"
  by (simp add: sample_created_def CreateAuthority_def createAuthorityTx_def sample_simps empty_escrow_db_def)

lemma sample_allocated_eval:
  "dget (db_authorities sample_allocated) (''acct'', ''KZT'') = Some \<lparr>ar_total_authority = 100, ar_unallocated = 70, ar_version = 1\<rparr>"
  "dget (db_rights sample_allocated) (''acct'', ''KZT'', ''eu'') = Some \<lparr>rr_available = 30, rr_version = 0\<rparr>"
  "dget (db_effects sample_allocated) ''e2'' = None"
  "db_transfers sample_allocated = dempty"
  by (simp_all add: sample_allocated_def sample_created_eval empty_escrow_db_def Allocate_def AllocateInTx_def
      allocateRights_def sample_simps)

lemma sample_spent_eval:
  "dget (db_authorities sample_spent) (''acct'', ''KZT'') = Some \<lparr>ar_total_authority = 88, ar_unallocated = 70, ar_version = 2\<rparr>"
  "dget (db_rights sample_spent) (''acct'', ''KZT'', ''eu'') = Some \<lparr>rr_available = 18, rr_version = 1\<rparr>"
  "fst (Spend [AckLost] (sample_effect ''e2'' 12) sample_allocated) = Inl connection_lost"
  "db_transfers sample_spent = dempty"
  using sample_allocated_eval
  by (simp_all add: sample_spent_def Spend_def SpendInTx_def spendRights_def sample_simps mapEffectDatabaseError_def
      connection_lost_def foreign_key_violation_def)

lemma sample_run: "escrow_run empty_escrow_db sample_spent"
  unfolding sample_spent_def sample_allocated_def sample_created_def
  by (intro run_spend run_allocate run_create run_start)

theorem authority_conserved_in_every_run_witness:
  "escrow_inv empty_escrow_db \<and> escrow_run empty_escrow_db sample_spent \<and>
   (\<exists>sn. Snapshot [] ''acct'' ''KZT'' sample_spent = (Inr sn, sample_spent) \<and> Authority_Conserved sn \<and> au_Total sn = 88)"
  using authority_conserved_in_every_run [OF empty_escrow_inv sample_run sample_spent_eval(1)] empty_escrow_inv sample_run
  by simp


section \<open>Effects\<close>

text \<open>The three calls and the kind each records.\<close>

definition effect_calls ::
  "(EffectKind \<times> (attempt list \<Rightarrow> EffectRequest \<Rightarrow> escrow_db \<Rightarrow> (escrow_error + EffectReceipt) \<times> escrow_db)) set" where
  "effect_calls = {(EffectAllocate, Allocate), (EffectSpend, Spend), (EffectReturn, Return)}"

lemma effect_call_body:
  assumes "(kind, call) \<in> effect_calls"
  shows "\<exists>mutate. (\<forall>at r. call at r = runEffect at r (applyEffect kind r (mutate r))) \<and> EffectKind_valid kind \<and>
    (\<forall>r d d'. mutate r d = Inr d' \<longrightarrow> same_records d d')"
proof -
  consider "kind = EffectAllocate" "call = Allocate" | "kind = EffectSpend" "call = Spend" | "kind = EffectReturn" "call = Return"
    using assms by (auto simp: effect_calls_def)
  then show ?thesis
  proof cases
    case 1
    then show ?thesis using same_records_effect_body(1)
      by (intro exI [of _ allocateRights]) (auto simp: Allocate_def AllocateInTx_def EffectKind_valid_def)
  next
    case 2
    then show ?thesis using same_records_effect_body(2)
      by (intro exI [of _ spendRights]) (auto simp: Spend_def SpendInTx_def EffectKind_valid_def)
  next
    case 3
    then show ?thesis using same_records_effect_body(3)
      by (intro exI [of _ returnRights]) (auto simp: Return_def ReturnInTx_def EffectKind_valid_def)
  qed
qed

lemma applyEffect_recorded:
  assumes "applyEffect kind r mutate db = Inr (x, db')" "\<And>d d'. mutate d = Inr d' \<Longrightarrow> same_records d d'"
  shows "\<exists>row. dget (db_effects db') (er_EffectID r) = Some row \<and> sameEffect row kind r" "EffectRequest_validate r = None"
proof -
  show "\<exists>row. dget (db_effects db') (er_EffectID r) = Some row \<and> sameEffect row kind r"
    using assms(1)
  proof (cases rule: applyEffect_Inr)
    case (fresh db1)
    then show ?thesis
      using assms(2) [OF fresh(3)] effect_recorded(1) [OF fresh(2)] by (auto simp: same_records_def DAList.lookup_update)
  qed simp
  show "EffectRequest_validate r = None"
    using assms(1) by (auto simp: applyEffect_def split: if_splits option.splits)
qed

lemma runEffect_recorded:
  assumes "fst (runEffect at r body db) = Inr rc \<or> snd (runEffect at r body db) \<noteq> db"
  shows "EffectRequest_validate r = None \<and> (\<exists>x. body db = Inr (x, snd (runEffect at r body db)))"
proof (cases "EffectRequest_validate r")
  case None
  let ?res = "inTx defaultSerializableRetries at body db"
  have "snd (runEffect at r body db) = snd ?res" "fst (runEffect at r body db) = Inr rc \<longleftrightarrow> fst ?res = Inr rc"
    by (simp_all add: runEffect_def None split: prod.splits sum.splits)
  with assms show ?thesis
    by (cases rule: inTx_cases [of defaultSerializableRetries at body db]) (auto simp: None)
qed (use assms in \<open>simp add: runEffect_def\<close>)

lemma sameEffect_request:
  assumes "sameEffect row kind r" "sameEffect row kind' r'" "er_EffectID r = er_EffectID r'"
    "fitsDecimal38 (er_Amount r)" "fitsDecimal38 (er_Amount r')"
  shows "kind = kind' \<and> r = r'"
proof -
  have "Amount_String (er_Amount r) = Amount_String (er_Amount r')"
    using assms(1,2) unfolding sameEffect_def by metis
  then have "er_Amount r = er_Amount r'"
    using ParseAmount_String [OF assms(4)] ParseAmount_String [OF assms(5)] by (metis sum.inject(2))
  moreover have "kind = kind'" "er_AccountID r = er_AccountID r'" "er_AssetID r = er_AssetID r'" "er_Region r = er_Region r'"
    using assms(1,2) unfolding sameEffect_def by metis+
  ultimately show ?thesis
    using assms(3) by (intro conjI EffectRequest.equality) simp_all
qed

lemma runEffect_Inr:
  assumes "runEffect at r body db = (Inr rc, db')"
  shows "body db = Inr (rc, db')"
proof -
  have "inTx defaultSerializableRetries at body db = (Inr rc, db')"
    using assms by (auto simp: runEffect_def split: option.splits prod.splits sum.splits)
  then show ?thesis using inTx_Inr [of defaultSerializableRetries at body db rc] by simp
qed

text \<open>
  C6: An effect is applied once. Suppose a call of \<^verbatim>\<open>Allocate\<close>, \<^verbatim>\<open>Spend\<close> or \<^verbatim>\<open>Return\<close> succeeded, or failed from the
  caller's view although its transaction committed. Then after any further calls by any clients, repeating the
  request succeeds with the receipt marked duplicate and changes nothing, and any other valid request under the
  same effect identifier, of whatever kind, is refused with \<^verbatim>\<open>ErrEffectConflict\<close> and changes nothing.
\<close>

theorem effect_applied_once:
  assumes "(kind, call) \<in> effect_calls" "(kind', call') \<in> effect_calls"
    and "fst (call at r db) = Inr rc \<or> snd (call at r db) \<noteq> db"
    and "escrow_run (snd (call at r db)) db2"
    and "er_EffectID r' = er_EffectID r" "EffectRequest_validate r' = None" "(kind', r') \<noteq> (kind, r)"
    and "fitsDecimal38 (er_Amount r)" "fitsDecimal38 (er_Amount r')"
  shows "call [] r db2 = (Inr \<lparr>rc_EffectID = er_EffectID r, rc_Kind = kind, rc_RequestHash = hashEffect kind r,
           rc_Duplicate = True\<rparr>, db2) \<and>
    call' [] r' db2 = (Inl ErrEffectConflict, db2)"
proof -
  obtain mutate where call: "call at r = runEffect at r (applyEffect kind r (mutate r))" "EffectKind_valid kind"
    and mutate: "mutate r d = Inr d' \<Longrightarrow> same_records d d'" for at r d d'
    using effect_call_body [OF assms(1)] by blast
  obtain mutate' where call': "call' at r = runEffect at r (applyEffect kind' r (mutate' r))" "EffectKind_valid kind'" for at r
    using effect_call_body [OF assms(2)] by blast
  obtain x where body: "applyEffect kind r (mutate r) db = Inr (x, snd (call at r db))" and valid: "EffectRequest_validate r = None"
    using runEffect_recorded [OF assms(3) [unfolded call(1)]] by (auto simp: call(1))
  have "\<exists>row. dget (db_effects (snd (call at r db))) (er_EffectID r) = Some row \<and> sameEffect row kind r"
    by (rule applyEffect_recorded(1) [OF body]) (rule mutate)
  with records.R_run [OF assms(4)]
  obtain row where row: "dget (db_effects db2) (er_EffectID r) = Some row" "sameEffect row kind r"
    unfolding keeps_def by blast
  have other: "\<not> sameEffect row kind' r'"
    using sameEffect_request [OF row(2) _ assms(5) [symmetric] assms(8,9)] assms(7) by blast
  have "applyEffect kind r (mutate r) db2 = Inr (\<lparr>rc_EffectID = er_EffectID r, rc_Kind = kind,
      rc_RequestHash = hashEffect kind r, rc_Duplicate = True\<rparr>, db2)"
    by (simp add: applyEffect_def call(2) valid row)
  moreover have "applyEffect kind' r' (mutate' r') db2 = Inl ErrEffectConflict"
    by (simp add: applyEffect_def call'(2) assms(5,6) row(1) other)
  ultimately show ?thesis
    by (simp add: call(1) call'(1) runEffect_def valid assms(6) inTx_plain defaultSerializableRetries_def
        mapEffectDatabaseError_def foreign_key_violation_def)
qed

theorem effect_applied_once_witness:
  "fst (Spend [AckLost] (sample_effect ''e2'' 12) sample_allocated) = Inl connection_lost \<and>
   fst (Spend [] (sample_effect ''e2'' 12) sample_spent) = Inr \<lparr>rc_EffectID = ''e2'', rc_Kind = EffectSpend,
     rc_RequestHash = hashEffect EffectSpend (sample_effect ''e2'' 12), rc_Duplicate = True\<rparr> \<and>
   snd (Spend [] (sample_effect ''e2'' 12) sample_spent) = sample_spent \<and>
   Return [] (sample_effect ''e2'' 12) sample_spent = (Inl ErrEffectConflict, sample_spent)"
proof -
  have changed: "snd (Spend [AckLost] (sample_effect ''e2'' 12) sample_allocated) \<noteq> sample_allocated"
    using sample_spent_eval(1) sample_allocated_eval(1) by (auto simp: sample_spent_def)
  have "fst (Spend [AckLost] (sample_effect ''e2'' 12) sample_allocated) = Inl connection_lost"
    by (rule sample_spent_eval(3))
  moreover have "Spend [] (sample_effect ''e2'' 12) sample_spent =
      (Inr \<lparr>rc_EffectID = er_EffectID (sample_effect ''e2'' 12), rc_Kind = EffectSpend,
        rc_RequestHash = hashEffect EffectSpend (sample_effect ''e2'' 12), rc_Duplicate = True\<rparr>, sample_spent) \<and>
      Return [] (sample_effect ''e2'' 12) sample_spent = (Inl ErrEffectConflict, sample_spent)"
  proof (rule effect_applied_once [where at = "[AckLost]" and db = sample_allocated and call = Spend and call' = Return
        and kind' = EffectReturn])
    show "(EffectSpend, Spend) \<in> effect_calls" "(EffectReturn, Return) \<in> effect_calls" by (simp_all add: effect_calls_def)
    show "escrow_run (snd (Spend [AckLost] (sample_effect ''e2'' 12) sample_allocated)) sample_spent"
      unfolding sample_spent_def by (rule run_start)
    show "(EffectReturn, sample_effect ''e2'' 12) \<noteq> (EffectSpend, sample_effect ''e2'' 12)"
      by (simp add: EffectReturn_def EffectSpend_def)
  qed (use changed in \<open>simp_all add: EffectRequest_validate_def sample_effect_def fitsDecimal38_iff\<close>)
  ultimately show ?thesis by (simp add: sample_effect_def)
qed

text \<open>
  C27: A spend is authorised by the regional rights alone and moves exactly its amount: a call that applied the effect
  found the amount in the region's rights, took it from those rights and from the account's total, and left every
  other authority row, every other region and every transfer as they were.
\<close>

theorem spend_exact:
  assumes "Spend at r db = (Inr rc, db')" "\<not> rc_Duplicate rc"
  shows "er_Amount r \<le> available db (er_AccountID r, er_AssetID r, er_Region r) \<and>
    available db' = (available db)((er_AccountID r, er_AssetID r, er_Region r) :=
      available db (er_AccountID r, er_AssetID r, er_Region r) - er_Amount r) \<and>
    (\<exists>row row'. dget (db_authorities db) (er_AccountID r, er_AssetID r) = Some row \<and>
      ar_total_authority row' = ar_total_authority row - er_Amount r \<and> ar_unallocated row' = ar_unallocated row \<and>
      dget (db_authorities db') = (dget (db_authorities db))((er_AccountID r, er_AssetID r) \<mapsto> row')) \<and>
    db_transfers db' = db_transfers db"
proof -
  have "SpendInTx r db = Inr (rc, db')"
    using assms(1) unfolding Spend_def by (rule runEffect_Inr)
  then obtain db1 where ins: "insert_effect EffectSpend r db = Inr db1" and sp: "spendRights r db1 = Inr db'"
    unfolding SpendInTx_def using assms(2) by (cases rule: applyEffect_Inr) auto
  have frame: "db_rights db1 = db_rights db" "db_authorities db1 = db_authorities db" "db_transfers db1 = db_transfers db"
    using ins by (auto simp: insert_effect_def split: sum.splits if_splits)
  obtain row v arow w where
    row: "dget (db_rights db) (er_AccountID r, er_AssetID r, er_Region r) = Some row" "er_Amount r \<le> rr_available row"
    and arow: "dget (db_authorities db) (er_AccountID r, er_AssetID r) = Some arow"
    and db': "db' = db1\<lparr>db_rights := dset (er_AccountID r, er_AssetID r, er_Region r)
          \<lparr>rr_available = rr_available row - er_Amount r, rr_version = v\<rparr> (db_rights db),
        db_authorities := dset (er_AccountID r, er_AssetID r)
          \<lparr>ar_total_authority = ar_total_authority arow - er_Amount r, ar_unallocated = ar_unallocated arow, ar_version = w\<rparr>
          (db_authorities db)\<rparr>"
    using sp by (auto simp: spendRights_def reduce_total_def write_rights_def write_authority_def frame
        split: option.splits if_splits sum.splits)
  have "\<exists>row'. ar_total_authority row' = ar_total_authority arow - er_Amount r \<and> ar_unallocated row' = ar_unallocated arow \<and>
      dget (db_authorities db') = (dget (db_authorities db))((er_AccountID r, er_AssetID r) \<mapsto> row')"
    by (rule exI [of _ "\<lparr>ar_total_authority = ar_total_authority arow - er_Amount r, ar_unallocated = ar_unallocated arow,
        ar_version = w\<rparr>"]) (simp add: db' DAList.lookup_update fun_eq_iff)
  moreover have "available db' = (available db)((er_AccountID r, er_AssetID r, er_Region r) :=
      available db (er_AccountID r, er_AssetID r, er_Region r) - er_Amount r)"
    by (simp add: db' available_def fun_eq_iff DAList.lookup_update row)
  ultimately show ?thesis using row arow frame by (simp add: db' available_def)
qed

theorem spend_exact_witness:
  "\<exists>rc db'. Spend [] (sample_effect ''e2'' 12) sample_allocated = (Inr rc, db') \<and> \<not> rc_Duplicate rc \<and>
     available db' (''acct'', ''KZT'', ''eu'') = 18 \<and> available sample_allocated (''acct'', ''KZT'', ''eu'') = 30"
proof -
  obtain rc db' where call: "Spend [] (sample_effect ''e2'' 12) sample_allocated = (Inr rc, db')" "\<not> rc_Duplicate rc"
    using sample_allocated_eval by (simp add: Spend_def SpendInTx_def spendRights_def sample_simps)
  from spend_exact [OF this] have "available db' (''acct'', ''KZT'', ''eu'') = available sample_allocated (''acct'', ''KZT'', ''eu'') - 12"
    by (simp add: sample_effect_def)
  with call show ?thesis using sample_allocated_eval(2) by (auto simp: available_def)
qed

section \<open>Certificates\<close>

lemma loadConsumption_matches:
  assumes "loadConsumptionByTransfer db k = Inr (Some stored)" "receiptMatchesCertificate stored c h"
  shows "\<exists>row. dget (db_consumed db) k = Some row \<and> row_issuance row = issuance_of c"
  using assms
  by (auto simp: loadConsumptionByTransfer_def loadConsumptionRow_def Let_def receiptMatchesCertificate_def row_receipt_def
      row_issuance_def issuance_of_def split: option.splits sum.splits if_splits)

lemma consumeTx_recorded:
  assumes "consumeTx c h b db = Inr (z, db')"
  shows "\<exists>row. dget (db_consumed db') (ce_TransferID c) = Some row \<and> row_issuance row = issuance_of c"
  using consumeTx_new [OF assms]
proof (elim disjE exE conjE)
  fix db0
  assume dup: "co_Duplicate z" and lock: "lockConsumptionIdentity c db = Inr db0" "db' = db0"
  have "\<exists>stored. loadConsumptionByTransfer db0 (ce_TransferID c) = Inr (Some stored) \<and> receiptMatchesCertificate stored c h"
    using assms dup lock by (auto simp: consumeTx_def Let_def split: sum.splits option.splits if_splits prod.splits)
  then show ?thesis using loadConsumption_matches lock(2) by blast
next
  fix db0 w db1 p db2 db3
  assume ins: "insert_consumed c h b w p db1 = Inr db2"
    and "add_authority (ce_AccountID c) (ce_AssetID c) (ce_Amount c) db2 = Inr db3"
      "add_regional_rights (ce_AccountID c) (ce_AssetID c) (ce_DestinationRegion c) (ce_Amount c) db3 = Inr db'"
  then have "same_records db2 db'" using same_records_write same_records_trans by metis
  with ins show ?thesis by (cases rule: insert_consumed_row) (auto simp: same_records_def DAList.lookup_update)
qed

lemma consumed_blocks:
  assumes row: "dget (db_consumed db) k = Some row" "ce_TransferID c = k \<or> issuance_of c = row_issuance row"
    and tx: "consumeTx c h b db = Inr (z, db')"
  shows "co_Duplicate z \<and> db_rights db' = db_rights db \<and> db_authorities db' = db_authorities db"
  using consumeTx_new [OF tx]
proof (elim disjE exE conjE)
  fix db0
  assume "co_Duplicate z" and lock: "lockConsumptionIdentity c db = Inr db0" "db' = db0"
  then show ?thesis by (auto simp: lockConsumptionIdentity_def split: sum.splits if_splits)
next
  fix db0 w db1 p db2 db3
  assume "lockConsumptionIdentity c db = Inr db0" "nextConsumptionWatermark b db0 = Inr (w, db1)"
    and ins: "insert_consumed c h b w p db1 = Inr db2"
  then have "db_consumed db1 = db_consumed db"
    by (auto simp: lockConsumptionIdentity_def nextConsumptionWatermark_def Let_def split: sum.splits if_splits)
  with ins row have False by (cases rule: insert_consumed_row) (auto dest: spec [of _ k])
  then show ?thesis ..
qed

lemma consumed_kept_issuance: "consumed_kept row row' \<Longrightarrow> row_issuance row' = row_issuance row"
proof -
  assume "consumed_kept row row'"
  then have "row'\<lparr>cn_receipt_sig := None\<rparr> = row\<lparr>cn_receipt_sig := None\<rparr>" by (simp add: consumed_kept_def)
  from arg_cong [OF this, of row_issuance] show ?thesis by (simp add: row_issuance_def)
qed

lemma attachReceipt_rights:
  "db_rights (snd (attachReceiptSignature at c t db)) = db_rights db \<and>
   db_authorities (snd (attachReceiptSignature at c t db)) = db_authorities db"
proof (cases "ConsumptionReceipt_Payload t")
  case (Inr p)
  have tx: "attachReceiptTx c t p db = Inr (x, d) \<Longrightarrow> db_rights d = db_rights db \<and> db_authorities d = db_authorities db" for x d
    by (auto simp: attachReceiptTx_def split: sum.splits option.splits if_splits)
  have "db_rights (snd (inTx defaultSerializableRetries at (attachReceiptTx c t p) db)) = db_rights db \<and>
      db_authorities (snd (inTx defaultSerializableRetries at (attachReceiptTx c t p) db)) = db_authorities db"
    by (rule inTx_preserves [where P = "\<lambda>d. db_rights d = db_rights db \<and> db_authorities d = db_authorities db"])
      (simp, rule tx)
  then show ?thesis by (simp only: attachReceiptSignature_def Inr sum.case)
qed (simp add: attachReceiptSignature_def)

lemma ConsumeCertificate_phase1:
  assumes "ConsumeCertificate sv at at' between c region db = (res, db')" "\<not> isl res \<or> db' \<noteq> db"
  obtains h b z d where "consumeTx c h b db = Inr (z, d)" "Certificate_PayloadHash c = Inr h"
    "db' = d \<or> (\<exists>t. db' = snd (attachReceiptSignature at' c t (between d)))"
proof -
  have verified: "snd (verified_consumption sv c z res) = snd res" for z res
    by (auto simp: verified_consumption_def split: prod.splits sum.splits option.splits)
  have "snd (signed_consumption sv sg at' between c z d) = d \<or>
      (\<exists>t. snd (signed_consumption sv sg at' between c z d) = snd (attachReceiptSignature at' c t (between d)))" for sg z d
    by (auto simp: signed_consumption_def verified split: sum.splits option.splits)
  then have rest: "signed_consumption sv sg at' between c z d = (res, d') \<Longrightarrow>
      d' = d \<or> (\<exists>t. d' = snd (attachReceiptSignature at' c t (between d)))" for sg z d d'
    by (metis snd_conv)
  have "\<exists>b sg h. Certificate_PayloadHash c = Inr h \<and>
     ((\<exists>e. inTx defaultSerializableRetries at (consumeTx c h b) db = (Inl e, db') \<and> isl res) \<or>
      (\<exists>z d. inTx defaultSerializableRetries at (consumeTx c h b) db = (Inr z, d) \<and>
         signed_consumption sv sg at' between c z d = (res, db')))"
    using assms unfolding ConsumeCertificate_def
    by (auto split: option.splits prod.splits sum.splits if_splits) blast+
  then obtain b sg h where h: "Certificate_PayloadHash c = Inr h"
    and calls: "(\<exists>e. inTx defaultSerializableRetries at (consumeTx c h b) db = (Inl e, db') \<and> isl res) \<or>
      (\<exists>z d. inTx defaultSerializableRetries at (consumeTx c h b) db = (Inr z, d) \<and>
         signed_consumption sv sg at' between c z d = (res, db'))"
    by blast
  show thesis
  proof (cases rule: inTx_cases [of defaultSerializableRetries at "consumeTx c h b" db])
    case unchanged
    then show ?thesis using calls assms(2) by auto
  next
    case (committed z d)
    then show ?thesis using that [OF committed(1) h] calls rest by auto
  qed
qed

lemma attachReceipt_keeps: "keeps db (snd (attachReceiptSignature at c t db))"
  by (cases "ConsumptionReceipt_Payload t")
    (auto simp: attachReceiptSignature_def intro: records.R_refl records.R_inTx records.R_attach_receipt)

lemma consume_call_recorded:
  "snd (ConsumeCertificate sv at at' id c region db) = db \<or>
   (\<exists>row. dget (db_consumed (snd (ConsumeCertificate sv at at' id c region db))) (ce_TransferID c) = Some row \<and>
      row_issuance row = issuance_of c)"
proof -
  obtain res db' where call: "ConsumeCertificate sv at at' id c region db = (res, db')" by fastforce
  show ?thesis
  proof (cases "db' = db")
    case False
    then obtain h b z d where tx: "consumeTx c h b db = Inr (z, d)"
      and db': "db' = d \<or> (\<exists>t. db' = snd (attachReceiptSignature at' c t (id d)))"
      using ConsumeCertificate_phase1 [OF call] by metis
    have "keeps d db'"
      using db' attachReceipt_keeps [of d] by (auto intro: records.R_refl)
    then show ?thesis
      using consumeTx_recorded [OF tx] consumed_kept_issuance unfolding keeps_def call by (metis snd_conv)
  qed (simp add: call)
qed

text \<open>
  C7: A certificate credits rights once. A call of \<^verbatim>\<open>ConsumeCertificate\<close> that changes the database leaves a record of the
  transfer with the certificate's issuance tuple (source entity, region, key epoch, account, asset and source epoch).
  Once such a record exists, then after any further calls of any clients, whatever their transactions'
  outcomes, no service credits rights or authority for a certificate with the same transfer identifier or
  the same issuance tuple, and the record itself stays.
\<close>

theorem certificate_credited_once:
  assumes "dget (db_consumed db) k = Some row" "escrow_run db db2"
    and "ce_TransferID c = k \<or> issuance_of c = row_issuance row"
  shows "(snd (ConsumeCertificate sv at at' id d region db) = db \<or>
     (\<exists>r. dget (db_consumed (snd (ConsumeCertificate sv at at' id d region db))) (ce_TransferID d) = Some r \<and>
        row_issuance r = issuance_of d)) \<and>
    db_rights (snd (ConsumeCertificate sv at at' id c region db2)) = db_rights db2 \<and>
    db_authorities (snd (ConsumeCertificate sv at at' id c region db2)) = db_authorities db2 \<and>
    (\<exists>row'. dget (db_consumed db2) k = Some row' \<and> row_issuance row' = row_issuance row)"
proof -
  obtain row' where row': "dget (db_consumed db2) k = Some row'" "row_issuance row' = row_issuance row"
    using records.R_run [OF assms(2)] assms(1) consumed_kept_issuance unfolding keeps_def by metis
  obtain res db3 where call: "ConsumeCertificate sv at at' id c region db2 = (res, db3)" by fastforce
  have "db_rights db3 = db_rights db2 \<and> db_authorities db3 = db_authorities db2"
  proof (cases "db3 = db2")
    case False
    from ConsumeCertificate_phase1 [OF call] False obtain h b z e where tx: "consumeTx c h b db2 = Inr (z, e)"
      and db3: "db3 = e \<or> (\<exists>t. db3 = snd (attachReceiptSignature at' c t (id e)))"
      by metis
    from consumed_blocks [OF row'(1) _ tx] assms(3) row'(2)
    have "db_rights e = db_rights db2 \<and> db_authorities e = db_authorities db2" by auto
    then show ?thesis using db3 attachReceipt_rights by auto
  qed simp
  then show ?thesis using row' consume_call_recorded call by auto
qed

definition sample_consumed :: consumed_row where
  "sample_consumed = \<lparr>cn_account_id = ''acct'', cn_asset_id = ''KZT'', cn_source_region = ''us'', cn_destination_region = ''eu'',
     cn_amount = 7, cn_payload_hash = replicate 32 (CHR ''h''), cn_source_legal_entity_id = ''le1'', cn_source_key_epoch = 1,
     cn_source_epoch = 4, cn_destination_legal_entity_id = ''le2'', cn_destination_key_id = ''k2'', cn_destination_key_epoch = 1,
     cn_destination_watermark = 1, cn_receipt_payload = [], cn_receipt_sig = None\<rparr>"

theorem certificate_credited_once_witness:
  "\<exists>db. dget (db_consumed db) ''t1'' = Some sample_consumed \<and>
    (\<forall>sv at. db_rights (snd (ConsumeCertificate sv at [] id (sample_certificate\<lparr>ce_TransferID := ''t1''\<rparr>) ''eu''
      (snd (CreateAuthority [] ''acct'' ''KZT'' 100 db)))) = db_rights (snd (CreateAuthority [] ''acct'' ''KZT'' 100 db)))"
proof (intro exI [of _ "empty_escrow_db\<lparr>db_consumed := dset ''t1'' sample_consumed dempty\<rparr>"] conjI allI)
  let ?db = "empty_escrow_db\<lparr>db_consumed := dset ''t1'' sample_consumed dempty\<rparr>"
  show row: "dget (db_consumed ?db) ''t1'' = Some sample_consumed" by (simp add: DAList.lookup_update)
  fix sv at
  have run: "escrow_run ?db (snd (CreateAuthority [] ''acct'' ''KZT'' 100 ?db))" by (intro run_create run_start)
  show "db_rights (snd (ConsumeCertificate sv at [] id (sample_certificate\<lparr>ce_TransferID := ''t1''\<rparr>) ''eu''
      (snd (CreateAuthority [] ''acct'' ''KZT'' 100 ?db)))) = db_rights (snd (CreateAuthority [] ''acct'' ''KZT'' 100 ?db))"
    by (rule certificate_credited_once [OF row run, THEN conjunct2, THEN conjunct1]) simp
qed

section \<open>Acknowledgements\<close>

lemma acknowledged_total:
  assumes "reduce_total a s x db = Inr db'"
  shows "\<exists>row row'. dget (db_authorities db) (a, s) = Some row \<and> x \<le> ar_total_authority row \<and>
    ar_total_authority row' = ar_total_authority row - x \<and> ar_unallocated row' = ar_unallocated row \<and>
    dget (db_authorities db') = (dget (db_authorities db))((a, s) \<mapsto> row')"
proof -
  obtain row v where row: "dget (db_authorities db) (a, s) = Some row" "x \<le> ar_total_authority row"
    and db': "db' = db\<lparr>db_authorities := dset (a, s) \<lparr>ar_total_authority = ar_total_authority row - x,
        ar_unallocated = ar_unallocated row, ar_version = v\<rparr> (db_authorities db)\<rparr>"
    using assms by (auto simp: reduce_total_def write_authority_def split: option.splits if_splits sum.splits)
  have "dget (db_authorities db') = (dget (db_authorities db))((a, s) \<mapsto> \<lparr>ar_total_authority = ar_total_authority row - x,
        ar_unallocated = ar_unallocated row, ar_version = v\<rparr>)"
    by (simp add: db' DAList.lookup_update fun_eq_iff)
  with row show ?thesis
    by (intro exI [of _ row] exI [of _ "\<lparr>ar_total_authority = ar_total_authority row - x,
        ar_unallocated = ar_unallocated row, ar_version = v\<rparr>"]) simp
qed

text \<open>
  C8: An acknowledgement settles a transfer once and only on proof. A call of \<^verbatim>\<open>AcknowledgeTransfer\<close> either leaves the
  database as it was, or the certificate and the destination's receipt verified, the transfer was in
  transit with exactly the certificate's account, asset, amount and signature, the account's total goes down by that amount and
  no other authority row changes; the transfer is then acknowledged, and stays so with the same row
  after any further calls, so that it cannot be settled again.
\<close>

theorem acknowledgement_settles_once:
  assumes "escrow_inv db" "fitsDecimal38 (ce_Amount c)" "escrow_run (snd (AcknowledgeTransfer sv at c r db)) db2"
  shows "snd (AcknowledgeTransfer sv at c r db) = db \<or>
    (VerifyCertificate (sv_ed_verify sv) c (sv_verifier sv) = None \<and>
     VerifyConsumptionReceipt (sv_ed_verify sv) r c (sv_verifier sv) = None \<and>
     (\<exists>row row'. dget (db_transfers db) (ce_TransferID c) = Some row \<and> xr_status row = ''IN_TRANSIT'' \<and>
        xr_account_id row = ce_AccountID c \<and> xr_asset_id row = ce_AssetID c \<and> xr_amount row = ce_Amount c \<and>
        xr_certificate_sig row = Some (ce_Signature c) \<and> xr_status row' = ''ACKNOWLEDGED'' \<and>
        dget (db_transfers (snd (AcknowledgeTransfer sv at c r db))) (ce_TransferID c) = Some row' \<and>
        dget (db_transfers db2) (ce_TransferID c) = Some row') \<and>
     (\<exists>row row'. dget (db_authorities db) (ce_AccountID c, ce_AssetID c) = Some row \<and>
        ce_Amount c \<le> ar_total_authority row \<and>
        ar_total_authority row' = ar_total_authority row - ce_Amount c \<and> ar_unallocated row' = ar_unallocated row \<and>
        dget (db_authorities (snd (AcknowledgeTransfer sv at c r db))) =
          (dget (db_authorities db))((ce_AccountID c, ce_AssetID c) \<mapsto> row')))"
proof (cases "snd (AcknowledgeTransfer sv at c r db) = db")
  case False
  then obtain cp rp where verified: "VerifyCertificate (sv_ed_verify sv) c (sv_verifier sv) = None"
      "VerifyConsumptionReceipt (sv_ed_verify sv) r c (sv_verifier sv) = None"
    and cp: "Certificate_Payload c = Inr cp"
    and call: "AcknowledgeTransfer sv at c r db = inTx defaultSerializableRetries at (acknowledgeTx c r cp rp (sha256 rp)) db"
    by (auto simp: AcknowledgeTransfer_def split: if_splits option.splits sum.splits)
  define db' where "db' = snd (AcknowledgeTransfer sv at c r db)"
  have changed: "db' \<noteq> db" and run: "escrow_run db' db2" using False assms(3) by (simp_all add: db'_def)
  from False call obtain x where tx: "acknowledgeTx c r cp rp (sha256 rp) db = Inr (x, db')"
    unfolding db'_def by (cases rule: inTx_cases [of defaultSerializableRetries at "acknowledgeTx c r cp rp (sha256 rp)" db]) auto
  have ok: "rows_ok db" using assms(1) by (simp add: escrow_inv_def)
  from tx ok assms(2) cp show ?thesis
  proof (cases rule: acknowledgeTx_settles)
    case (2 row db1 row')
    have kept: "dget (db_transfers db') (ce_TransferID c) = Some row'" "xr_status row' = ''ACKNOWLEDGED''"
      "xr_certificate_sig row' = Some (ce_Signature c)"
      by (simp_all add: 2 DAList.lookup_update)
    then have later: "dget (db_transfers db2) (ce_TransferID c) = Some row'"
      using records.R_run [OF run] by (fastforce simp: keeps_def transfer_kept_def)
    have "db_authorities db' = db_authorities db1" by (simp add: 2)
    then show ?thesis
      using acknowledged_total [OF 2(7)] 2(1-6) kept later verified unfolding db'_def by auto
  qed (use changed in simp)
qed simp

theorem acknowledgement_settles_once_witness:
  "escrow_inv sample_spent \<and> fitsDecimal38 (ce_Amount sample_certificate) \<and>
   (\<forall>sv at r. snd (AcknowledgeTransfer sv at sample_certificate r sample_spent) = sample_spent)"
proof -
  have inv: "escrow_inv sample_spent" using conservation.R_run [OF sample_run] empty_escrow_inv by blast
  have fits: "fitsDecimal38 (ce_Amount sample_certificate)" by (simp add: sample_certificate_def fitsDecimal38_iff)
  have "snd (AcknowledgeTransfer sv at sample_certificate r sample_spent) = sample_spent" for sv at r
    using acknowledgement_settles_once [OF inv fits run_start, of sv at r] by (simp add: sample_spent_eval(4))
  with inv fits show ?thesis by blast
qed

end
