(* ===== verification/Store.thy ===== *)
theory Store
  imports Prelude
begin

text \<open>
  The transaction boundary of \<^verbatim>\<open>internal/store/tx.go\<close>: \<open>RunSerializable\<close>, the retry loop around a transaction
  body, and the backoff between attempts.

  A body maps the database to an error or to a result and the new database; under SERIALIZABLE isolation
  a committed body takes effect at one point. What the server and the network do with an attempt is an argument:
  a list of outcomes, one per attempt, read as commits once it is exhausted.
\<close>

section \<open>Attempts\<close>

text \<open>
  \<open>Commit\<close>: the body ran and the commit was acknowledged. \<open>Conflict\<close>: the body or the commit met SQLSTATE 40001 and the
  transaction was rolled back. \<open>LostAck\<close>: the transaction committed and the acknowledgement was lost. \<open>LostCommit\<close>: the
  commit failed with another error and nothing was written. \<open>BodyAmbiguous\<close>: a statement of the body failed with
  40003 and the transaction was rolled back. \<open>BeginFails\<close>, \<open>Cancelled\<close>: no transaction was opened.
\<close>

datatype outcome = Commit | Conflict | LostAck | LostCommit | BodyAmbiguous | BeginFails | Cancelled

datatype 'e store_error =
    BodyError 'e
  | ErrAmbiguousCommit
  | BeginError
  | ContextError
  | RetryExhausted

type_synonym ('db, 'e, 'a) body = "'db \<Rightarrow> 'e + 'a \<times> 'db"

definition defaultMaxAttempts :: nat where "defaultMaxAttempts = 8"

text \<open>
  The loop, on the number of attempts left. A \<open>True\<close> beside the outcome says that the context was cancelled during the
  wait that follows a conflict.
\<close>

fun serializable_loop ::
  "nat \<Rightarrow> (outcome \<times> bool) list \<Rightarrow> ('db, 'e, 'a) body \<Rightarrow> 'db \<Rightarrow> ('e store_error + 'a) \<times> 'db" where
  "serializable_loop 0 outcomes fn db = (Inl RetryExhausted, db)"
| "serializable_loop (Suc left) outcomes fn db =
     (let (oc, cancelled) = (case outcomes of [] \<Rightarrow> (Commit, False) | x # _ \<Rightarrow> x);
          retry = (if left = 0 then (Inl RetryExhausted, db)
                   else if cancelled then (Inl ContextError, db)
                   else serializable_loop left (tl outcomes) fn db)
      in case oc of
        Cancelled \<Rightarrow> (Inl ContextError, db)
      | BeginFails \<Rightarrow> (Inl BeginError, db)
      | Conflict \<Rightarrow> retry
      | BodyAmbiguous \<Rightarrow> (Inl ErrAmbiguousCommit, db)
      | Commit \<Rightarrow> (case fn db of Inl e \<Rightarrow> (Inl (BodyError e), db) | Inr (x, db') \<Rightarrow> (Inr x, db'))
      | LostAck \<Rightarrow> (case fn db of Inl e \<Rightarrow> (Inl (BodyError e), db) | Inr (x, db') \<Rightarrow> (Inl ErrAmbiguousCommit, db'))
      | LostCommit \<Rightarrow> (case fn db of Inl e \<Rightarrow> (Inl (BodyError e), db) | Inr (x, db') \<Rightarrow> (Inl ErrAmbiguousCommit, db)))"

definition RunSerializable ::
  "int \<Rightarrow> (outcome \<times> bool) list \<Rightarrow> ('db, 'e, 'a) body \<Rightarrow> 'db \<Rightarrow> ('e store_error + 'a) \<times> 'db" where
  "RunSerializable MaxAttempts outcomes fn db =
     serializable_loop (if MaxAttempts \<le> 0 then 1 else nat MaxAttempts) outcomes fn db"

section \<open>Backoff\<close>

text \<open>Durations are integers of nanoseconds; \<open>random\<close> is what the 8 random bytes read as, absent when reading them failed.\<close>

fun double_delay :: "nat \<Rightarrow> int \<Rightarrow> int \<Rightarrow> int" where
  "double_delay 0 maximum delay = delay"
| "double_delay (Suc left) maximum delay =
     (if delay < maximum div 2 then double_delay left maximum (delay * 2) else delay)"

definition wait_delay :: "int \<Rightarrow> int \<Rightarrow> nat \<Rightarrow> uint64 option \<Rightarrow> int" where
  "wait_delay BaseBackoff MaxBackoff attempt random =
     (let base = (if BaseBackoff \<le> 0 then 1000000 else BaseBackoff);
          maximum = (if MaxBackoff \<le> 0 then 250000000 else MaxBackoff);
          delay = double_delay attempt maximum base;
          delay = (if delay > maximum then maximum else delay)
      in case random of
           Some r \<Rightarrow> if delay > 0 then uint r mod (delay + 1) else delay
         | None \<Rightarrow> delay)"

section \<open>Lemmas\<close>

declare serializable_loop.simps(2) [simp del]

lemma serializable_loop_result:
  "snd (serializable_loop n outcomes fn db) = db \<and> (\<nexists>x. fst (serializable_loop n outcomes fn db) = Inr x) \<or>
   (\<exists>x db'. fn db = Inr (x, db') \<and> snd (serializable_loop n outcomes fn db) = db' \<and>
      (fst (serializable_loop n outcomes fn db) = Inr x \<or> fst (serializable_loop n outcomes fn db) = Inl ErrAmbiguousCommit))"
proof (induction n arbitrary: outcomes)
  case (Suc n)
  obtain oc c where oc: "(case outcomes of [] \<Rightarrow> (Commit, False) | x # _ \<Rightarrow> x) = (oc, c)"
    by (cases "case outcomes of [] \<Rightarrow> (Commit, False) | x # _ \<Rightarrow> x")
  show ?case
  proof (cases "oc = Conflict")
    case True
    then show ?thesis using Suc.IH [of "tl outcomes"] by (simp add: serializable_loop.simps(2) oc)
  next
    case False
    then show ?thesis
      by (cases oc) (auto simp: serializable_loop.simps(2) oc split: sum.splits prod.splits)
  qed
qed simp

text \<open>Either nothing was committed, or the body ran once on the database and its result is the new database.\<close>

lemma RunSerializable_cases:
  obtains (unchanged) "snd (RunSerializable m outcomes fn db) = db" "\<nexists>x. fst (RunSerializable m outcomes fn db) = Inr x"
  | (committed) x db' where "fn db = Inr (x, db')" "snd (RunSerializable m outcomes fn db) = db'"
      "fst (RunSerializable m outcomes fn db) = Inr x \<or> fst (RunSerializable m outcomes fn db) = Inl ErrAmbiguousCommit"
  unfolding RunSerializable_def using serializable_loop_result by metis

lemma RunSerializable_preserves:
  assumes "P db" "\<And>x db'. fn db = Inr (x, db') \<Longrightarrow> P db'"
  shows "P (snd (RunSerializable m outcomes fn db))"
  by (rule RunSerializable_cases [of m outcomes fn db]) (use assms in auto)

lemma RunSerializable_Inr:
  "fst (RunSerializable m outcomes fn db) = Inr x \<Longrightarrow> fn db = Inr (x, snd (RunSerializable m outcomes fn db))"
  by (rule RunSerializable_cases [of m outcomes fn db]) auto

lemma serializable_loop_plain:
  "serializable_loop (Suc k) [] fn db =
     (case fn db of Inl e \<Rightarrow> (Inl (BodyError e), db) | Inr (x, db') \<Rightarrow> (Inr x, db'))"
  by (simp add: serializable_loop.simps(2))

lemma RunSerializable_Suc: "RunSerializable (int (Suc n)) = serializable_loop (Suc n)"
  by (intro ext) (simp add: RunSerializable_def nat_add_distrib)

lemma RunSerializable_plain:
  "RunSerializable m [] fn db =
     (case fn db of Inl e \<Rightarrow> (Inl (BodyError e), db) | Inr (x, db') \<Rightarrow> (Inr x, db'))"
proof (cases "m \<le> 0")
  case True
  then show ?thesis using serializable_loop_plain [of 0 fn db] by (simp add: RunSerializable_def)
next
  case False
  then obtain k where "nat m = Suc k" by (metis gr0_implies_Suc not_le zero_less_nat_eq)
  then show ?thesis using False serializable_loop_plain [of k fn db] by (simp add: RunSerializable_def)
qed

text \<open>
  A run of conflicts is survived as long as attempts remain; when one follows that commits, the body takes effect.
\<close>

lemma serializable_loop_conflicts:
  "k < n \<Longrightarrow> serializable_loop n (replicate k (Conflict, False) @ rest) fn db =
     serializable_loop (n - k) rest fn db"
proof (induction k arbitrary: n)
  case (Suc k)
  then obtain m where n: "n = Suc m" "k < m" by (cases n) auto
  then show ?case using Suc.IH [of m] by (simp add: serializable_loop.simps(2))
qed simp

text \<open>Only an ambiguous commit leaves the caller in doubt; every other error means that nothing was written.\<close>

lemma serializable_loop_contract:
  "case serializable_loop n outcomes fn db of
     (Inr x, db') \<Rightarrow> fn db = Inr (x, db')
   | (Inl e, db') \<Rightarrow> db' = db \<or> e = ErrAmbiguousCommit \<and> (\<exists>x. fn db = Inr (x, db'))"
proof (induction n arbitrary: outcomes)
  case (Suc n)
  obtain oc c where oc: "(case outcomes of [] \<Rightarrow> (Commit, False) | x # _ \<Rightarrow> x) = (oc, c)"
    by (cases "case outcomes of [] \<Rightarrow> (Commit, False) | x # _ \<Rightarrow> x")
  show ?case
  proof (cases "oc = Conflict")
    case True
    then show ?thesis using Suc.IH [of "tl outcomes"] by (simp add: serializable_loop.simps(2) oc)
  next
    case False
    then show ?thesis
      by (cases oc) (auto simp: serializable_loop.simps(2) oc split: sum.splits prod.splits)
  qed
qed simp

lemma serializable_loop_exhausted:
  "serializable_loop (Suc n) (replicate (Suc n) (Conflict, False) @ rest) fn db = (Inl RetryExhausted, db)"
proof (induction n)
  case (Suc n)
  then show ?case by (simp add: serializable_loop.simps(2))
qed (simp add: serializable_loop.simps(2))

lemma serializable_loop_commit:
  "serializable_loop (Suc n) ((Commit, c) # rest) fn db =
     (case fn db of Inl e \<Rightarrow> (Inl (BodyError e), db) | Inr (x, db') \<Rightarrow> (Inr x, db'))"
  by (simp add: serializable_loop.simps(2))

lemma double_delay_bounds: "0 < delay \<Longrightarrow> delay \<le> double_delay k maximum delay \<and>
    double_delay k maximum delay \<le> max delay maximum"
proof (induction k arbitrary: delay)
  case (Suc k)
  show ?case
  proof (cases "delay < maximum div 2")
    case True
    then have "delay * 2 \<le> maximum" by linarith
    then show ?thesis using Suc.IH [of "delay * 2"] Suc.prems True by auto
  qed (use Suc.prems in simp)
qed auto

section \<open>Properties\<close>

text \<open>
  C37: The retry loop ends and is honest about what it committed. When \<open>k\<close> serialization conflicts precede an attempt that
  commits and the budget has an attempt left for it, the caller gets the result of the body and the database is the one
  the body computed from the state before the call, or the error of the body with nothing written; when the
  conflicts use up the budget, the caller gets the exhaustion error and nothing was written. Under any outcomes at all, a
  result is only returned with the effect of exactly one execution of the body in place, and an error other than
  \<^verbatim>\<open>ErrAmbiguousCommit\<close> means that nothing was written.
\<close>

theorem retries_make_progress:
  "RunSerializable (int (Suc n)) (replicate k (Conflict, False) @ (Commit, cancelled) # rest) fn db =
     (if n < k then (Inl RetryExhausted, db)
      else case fn db of Inl e \<Rightarrow> (Inl (BodyError e), db) | Inr (x, db') \<Rightarrow> (Inr x, db')) \<and>
   (case RunSerializable m outcomes fn db of
      (Inr x, db') \<Rightarrow> fn db = Inr (x, db')
    | (Inl e, db') \<Rightarrow> db' = db \<or> e = ErrAmbiguousCommit \<and> (\<exists>x. fn db = Inr (x, db')))"
proof
  show "RunSerializable (int (Suc n)) (replicate k (Conflict, False) @ (Commit, cancelled) # rest) fn db =
     (if n < k then (Inl RetryExhausted, db)
      else case fn db of Inl e \<Rightarrow> (Inl (BodyError e), db) | Inr (x, db') \<Rightarrow> (Inr x, db'))"
  proof (cases "n < k")
    case True
    then obtain j where "k = Suc n + j" by (metis add_Suc less_iff_Suc_add)
    then show ?thesis
      using True serializable_loop_exhausted [of n "replicate j (Conflict, False) @ (Commit, cancelled) # rest" fn db]
      by (simp only: RunSerializable_Suc replicate_add append_assoc if_True)
  next
    case False
    then obtain j where "Suc n - k = Suc j" by (metis Suc_diff_le not_less)
    then show ?thesis
      using False serializable_loop_conflicts [of k "Suc n" "(Commit, cancelled) # rest" fn db]
      by (simp only: RunSerializable_Suc serializable_loop_commit) simp
  qed
qed (unfold RunSerializable_def, rule serializable_loop_contract)

text \<open>
  The backoff before a retry is never negative and never exceeds the configured maximum, or the default of 250
  milliseconds when none is configured, whatever the attempt number and the random bytes.
\<close>

theorem backoff_bounded:
  "wait_delay base maximum attempt random \<in> {0 .. (if maximum \<le> 0 then 250000000 else maximum)}"
proof -
  define b m where "b = (if base \<le> 0 then 1000000 else base)" and "m = (if maximum \<le> 0 then 250000000 else maximum)"
  define d where "d = (if double_delay attempt m b > m then m else double_delay attempt m b)"
  have "0 < b" "0 < m" by (simp_all add: b_def m_def)
  then have d: "0 < d" "d \<le> m" using double_delay_bounds [of b attempt m] by (auto simp: d_def)
  have "uint r mod (d + 1) \<le> d" "0 \<le> uint r mod (d + 1)" for r :: uint64
    using d pos_mod_bound [of "d + 1" "uint r"] by (auto simp: pos_mod_sign)
  moreover have eq: "wait_delay base maximum attempt random =
      (case random of Some r \<Rightarrow> if d > 0 then uint r mod (d + 1) else d | None \<Rightarrow> d)"
    unfolding wait_delay_def Let_def d_def b_def m_def by (rule refl)
  ultimately have "0 \<le> wait_delay base maximum attempt random" "wait_delay base maximum attempt random \<le> m"
    using d by (auto simp: eq split: option.splits intro: order_trans)
  then show ?thesis by (simp add: m_def)
qed

end
