(* ===== verification/Idgen.thy ===== *)
theory Idgen
  imports Store Json_Facts
begin

text \<open>
  Durable identifiers, \<^verbatim>\<open>internal/idgen/generator.go\<close>: processes reserve disjoint blocks of a counter kept in the
  table \<^verbatim>\<open>id_issuers\<close> (migrations 005 and 010) and hand the values of a block out one by one.

  \<^verbatim>\<open>INT8\<close> and \<^verbatim>\<open>int64\<close> values are integers with the bounds written out. The mutex makes a call of
  \<^verbatim>\<open>Next\<close> atomic within its process; processes interleave freely.
\<close>

section \<open>The counter table\<close>

record issuer_row =
  is_incarnation :: int
  is_next_counter :: int
  is_retired :: bool

type_synonym id_db = "(string, issuer_row) dict"

datatype id_error = ErrNoIssuer | ErrInvalidBlock | ErrAllocate

definition maxInt64 :: int where "maxInt64 = 2 ^ 63 - 1"

record counterBlock =
  cb_incarnation :: int
  cb_first :: int
  cb_last :: int

definition valid_block :: "counterBlock \<Rightarrow> bool" where
  "valid_block b \<longleftrightarrow> \<not> (cb_incarnation b \<le> 0 \<or> cb_first b \<le> 0 \<or> cb_last b < cb_first b)"

text \<open>The trigger of migration 010 limits one advance of the counter to 1000000.\<close>

definition reserveBlock_body :: "string \<Rightarrow> int \<Rightarrow> (id_db, id_error, counterBlock) body" where
  "reserveBlock_body issuer blockSize db =
     (case dget db issuer of
        None \<Rightarrow> Inl ErrNoIssuer
      | Some row \<Rightarrow>
        if is_retired row then Inl ErrNoIssuer
        else
          let counter = is_next_counter row + blockSize in
          if counter > maxInt64 \<or> counter \<le> is_next_counter row \<or> blockSize > 1000000 then Inl ErrAllocate
          else
            let block = \<lparr>cb_incarnation = is_incarnation row, cb_first = counter - blockSize, cb_last = counter - 1\<rparr> in
            if \<not> valid_block block then Inl ErrInvalidBlock
            else Inr (block, dset issuer (row\<lparr>is_next_counter := counter\<rparr>) db))"

section \<open>Generators\<close>

record Generator =
  ge_issuer :: string
  ge_blockSize :: int
  ge_incarnation :: int
  ge_next :: int
  ge_end :: int

definition New :: "string \<Rightarrow> int \<Rightarrow> Generator option" where
  "New issuer blockSize =
     (if issuer = [] \<or> blockSize \<le> 0 then None
      else Some \<lparr>ge_issuer = issuer, ge_blockSize = blockSize, ge_incarnation = 0, ge_next = 0, ge_end = 0\<rparr>)"

definition reserveBlock ::
  "(outcome \<times> bool) list \<Rightarrow> Generator \<Rightarrow> id_db \<Rightarrow> (id_error store_error + counterBlock) \<times> id_db" where
  "reserveBlock outcomes g db =
     RunSerializable (int defaultMaxAttempts) outcomes (reserveBlock_body (ge_issuer g) (ge_blockSize g)) db"

definition allocate ::
  "(outcome \<times> bool) list \<Rightarrow> Generator \<Rightarrow> id_db \<Rightarrow> id_error store_error option \<times> Generator \<times> id_db" where
  "allocate outcomes g db =
     (case reserveBlock outcomes g db of
        (Inl e, db) \<Rightarrow> (Some e, g, db)
      | (Inr block, db) \<Rightarrow>
        if \<not> valid_block block then (Some (BodyError ErrInvalidBlock), g, db)
        else (None, g\<lparr>ge_incarnation := cb_incarnation block, ge_next := cb_first block, ge_end := cb_last block\<rparr>, db))"

definition id_text :: "string \<times> int \<times> int \<Rightarrow> string" where
  "id_text = (\<lambda>(issuer, incarnation, counter).
     issuer @ ''-'' @ hex_fixed 16 (nat (incarnation mod 2 ^ 64)) @ ''-'' @ hex_fixed 16 (nat (counter mod 2 ^ 64)))"

definition Next ::
  "(outcome \<times> bool) list \<Rightarrow> Generator \<Rightarrow> id_db \<Rightarrow> (id_error store_error + string) \<times> Generator \<times> id_db" where
  "Next outcomes g db =
     (case (if ge_next g = 0 \<or> ge_next g > ge_end g then allocate outcomes g db else (None, g, db)) of
        (Some e, g, db) \<Rightarrow> (Inl e, g, db)
      | (None, g, db) \<Rightarrow>
          (Inr (id_text (ge_issuer g, ge_incarnation g, ge_next g)), g\<lparr>ge_next := ge_next g + 1\<rparr>, db))"

section \<open>Processes\<close>

text \<open>
  A fleet of processes over one database: a process starts, or starts again after a crash, with an empty cache; a
  process asks its generator for an identifier; a control plane may add or retire an issuer prefix that is new.
\<close>

record fleet =
  fl_db :: id_db
  fl_gens :: "nat \<Rightarrow> Generator option"
  fl_issued :: "string list"

datatype fleet_op = Start nat string int | Ask nat "(outcome \<times> bool) list" | Retire string

fun fleet_step :: "fleet_op \<Rightarrow> fleet \<Rightarrow> fleet" where
  "fleet_step (Start pid issuer blockSize) w = w\<lparr>fl_gens := (fl_gens w)(pid := New issuer blockSize)\<rparr>"
| "fleet_step (Ask pid outcomes) w =
     (case fl_gens w pid of
        None \<Rightarrow> w
      | Some g \<Rightarrow>
        (case Next outcomes g (fl_db w) of
           (Inl _, g', db) \<Rightarrow> w\<lparr>fl_db := db, fl_gens := (fl_gens w)(pid \<mapsto> g')\<rparr>
         | (Inr i, g', db) \<Rightarrow>
             w\<lparr>fl_db := db, fl_gens := (fl_gens w)(pid \<mapsto> g'), fl_issued := i # fl_issued w\<rparr>))"
| "fleet_step (Retire issuer) w = w\<lparr>fl_db := dmodify issuer (\<lambda>row. row\<lparr>is_retired := True\<rparr>) (fl_db w)\<rparr>"

definition fleet_run :: "fleet_op list \<Rightarrow> id_db \<Rightarrow> fleet" where
  "fleet_run ops db = fold fleet_step ops \<lparr>fl_db = db, fl_gens = (\<lambda>_. None), fl_issued = []\<rparr>"

definition id_rows_ok :: "id_db \<Rightarrow> bool" where
  "id_rows_ok db \<longleftrightarrow> list_all (\<lambda>(_, row). 0 < is_incarnation row \<and> is_incarnation row \<le> maxInt64 \<and>
     0 < is_next_counter row \<and> is_next_counter row \<le> maxInt64) (entries db)"

section \<open>Lemmas\<close>

lemma hex_digit_inject: "a < 16 \<Longrightarrow> b < 16 \<Longrightarrow> hex_digit a = hex_digit b \<longleftrightarrow> a = b"
  by (metis hex_value_digit option.inject)

lemma length_hex_fixed [simp]: "length (hex_fixed k v) = k"
  by (induction k arbitrary: v) auto

lemma hex_fixed_inject: "v < 16 ^ k \<Longrightarrow> w < 16 ^ k \<Longrightarrow> hex_fixed k v = hex_fixed k w \<longleftrightarrow> v = w"
proof (induction k arbitrary: v w)
  case (Suc k)
  have "hex_fixed (Suc k) v = hex_fixed (Suc k) w \<longleftrightarrow> v div 16 = w div 16 \<and> v mod 16 = w mod 16"
    using Suc.IH [of "v div 16" "w div 16"] Suc.prems by (simp add: hex_digit_inject less_mult_imp_div_less mult.commute)
  also have "\<dots> \<longleftrightarrow> v = w" by (metis div_mult_mod_eq)
  finally show ?case .
qed simp

lemma suffixes_inject:
  assumes "a < 16 ^ k" "b < 16 ^ k" "a' < 16 ^ k" "b' < 16 ^ k"
  shows "i @ ''-'' @ hex_fixed k a @ ''-'' @ hex_fixed k b = i' @ ''-'' @ hex_fixed k a' @ ''-'' @ hex_fixed k b' \<longleftrightarrow>
    i = i' \<and> a = a' \<and> b = b'"
  using assms by (simp add: hex_fixed_inject length_hex_fixed)

lemma int64_text:
  assumes "0 \<le> x" "x \<le> maxInt64"
  shows "x mod 2 ^ 64 = x" and "nat x < 16 ^ 16"
  using assms by (auto simp: maxInt64_def)

lemma id_text_inject:
  assumes "0 \<le> m" "m \<le> maxInt64" "0 \<le> n" "n \<le> maxInt64" "0 \<le> m'" "m' \<le> maxInt64" "0 \<le> n'" "n' \<le> maxInt64"
  shows "id_text (i, m, n) = id_text (i', m', n') \<longleftrightarrow> (i, m, n) = (i', m', n')"
  unfolding id_text_def prod.case int64_text(1) [OF assms(1-2)] int64_text(1) [OF assms(3-4)]
    int64_text(1) [OF assms(5-6)] int64_text(1) [OF assms(7-8)]
    suffixes_inject [OF int64_text(2) [OF assms(1-2)] int64_text(2) [OF assms(3-4)]
      int64_text(2) [OF assms(5-6)] int64_text(2) [OF assms(7-8)]]
  using assms by (simp add: eq_nat_nat_iff)

text \<open>The identifiers a generator still holds, and what the invariant says of an identifier.\<close>

definition cached :: "Generator \<Rightarrow> (string \<times> int \<times> int) set" where
  "cached g = {(ge_issuer g, ge_incarnation g, c) | c. ge_next g \<noteq> 0 \<and> ge_next g \<le> c \<and> c \<le> ge_end g}"

definition reserved :: "id_db \<Rightarrow> (string \<times> int \<times> int) set" where
  "reserved db = {(i, m, c). \<exists>row. dget db i = Some row \<and> m = is_incarnation row \<and> 0 < c \<and> c < is_next_counter row}"

definition fleet_inv :: "fleet \<Rightarrow> bool" where
  "fleet_inv w \<longleftrightarrow>
     (\<forall>i row. dget (fl_db w) i = Some row \<longrightarrow>
        0 < is_incarnation row \<and> is_incarnation row \<le> maxInt64 \<and> 0 < is_next_counter row \<and> is_next_counter row \<le> maxInt64) \<and>
     (\<forall>p g. fl_gens w p = Some g \<longrightarrow> 0 \<le> ge_next g \<and> 0 < ge_blockSize g \<and> cached g \<subseteq> reserved (fl_db w)) \<and>
     (\<forall>p q g h. fl_gens w p = Some g \<and> fl_gens w q = Some h \<and> p \<noteq> q \<longrightarrow> cached g \<inter> cached h = {}) \<and>
     (\<exists>ids. fl_issued w = map id_text ids \<and> distinct ids \<and> set ids \<subseteq> reserved (fl_db w) \<and>
        (\<forall>p g. fl_gens w p = Some g \<longrightarrow> set ids \<inter> cached g = {}))"

lemma reserveBlock_body_Inr:
  assumes "reserveBlock_body issuer len db = Inr (block, db')"
  obtains row where "dget db issuer = Some row" "0 < len"
    "cb_incarnation block = is_incarnation row" "cb_first block = is_next_counter row"
    "cb_last block = is_next_counter row + len - 1" "is_next_counter row + len \<le> maxInt64"
    "db' = dset issuer (row\<lparr>is_next_counter := is_next_counter row + len\<rparr>) db"
  using assms by (auto simp: reserveBlock_body_def Let_def split: option.splits if_splits)

text \<open>Advancing the counter keeps what is reserved and reserves nothing that the new block does not hold.\<close>

lemma reserved_advance:
  assumes "dget db issuer = Some row" "0 < is_next_counter row" "0 < len"
  shows "reserved (dset issuer (row\<lparr>is_next_counter := is_next_counter row + len\<rparr>) db) =
    reserved db \<union> {(issuer, is_incarnation row, c) | c. is_next_counter row \<le> c \<and> c < is_next_counter row + len}"
  using assms by (auto simp: reserved_def DAList.lookup_update split: if_splits)

lemma fleet_inv_row: "fleet_inv w \<Longrightarrow> dget (fl_db w) i = Some r \<Longrightarrow>
    0 < is_incarnation r \<and> is_incarnation r \<le> maxInt64 \<and> 0 < is_next_counter r \<and> is_next_counter r \<le> maxInt64"
  by (auto simp: fleet_inv_def)

lemma fleet_inv_gen: "fleet_inv w \<Longrightarrow> fl_gens w p = Some g \<Longrightarrow>
    0 \<le> ge_next g \<and> 0 < ge_blockSize g \<and> cached g \<subseteq> reserved (fl_db w)"
  by (auto simp: fleet_inv_def)

lemma fleet_inv_disjoint: "fleet_inv w \<Longrightarrow> fl_gens w p = Some g \<Longrightarrow> fl_gens w q = Some h \<Longrightarrow> p \<noteq> q \<Longrightarrow> cached g \<inter> cached h = {}"
  unfolding fleet_inv_def by metis

lemma fleet_inv_issued:
  assumes "fleet_inv w"
  obtains ids where "fl_issued w = map id_text ids" "distinct ids" "set ids \<subseteq> reserved (fl_db w)"
    "\<And>p g. fl_gens w p = Some g \<Longrightarrow> set ids \<inter> cached g = {}"
  using assms unfolding fleet_inv_def by blast

lemma fleet_invI:
  assumes "\<And>i r. dget (fl_db w) i = Some r \<Longrightarrow>
      0 < is_incarnation r \<and> is_incarnation r \<le> maxInt64 \<and> 0 < is_next_counter r \<and> is_next_counter r \<le> maxInt64"
    and "\<And>p g. fl_gens w p = Some g \<Longrightarrow> 0 \<le> ge_next g \<and> 0 < ge_blockSize g \<and> cached g \<subseteq> reserved (fl_db w)"
    and "\<And>p q g h. fl_gens w p = Some g \<Longrightarrow> fl_gens w q = Some h \<Longrightarrow> p \<noteq> q \<Longrightarrow> cached g \<inter> cached h = {}"
    and "fl_issued w = map id_text ids" "distinct ids" "set ids \<subseteq> reserved (fl_db w)"
    and "\<And>p g. fl_gens w p = Some g \<Longrightarrow> set ids \<inter> cached g = {}"
  shows "fleet_inv w"
  unfolding fleet_inv_def using assms by metis

lemma fleet_inv_advance:
  assumes inv: "fleet_inv w" and row: "dget (fl_db w) issuer = Some row" and len: "0 < len" "is_next_counter row + len \<le> maxInt64"
  shows "fleet_inv (w\<lparr>fl_db := dset issuer (row\<lparr>is_next_counter := is_next_counter row + len\<rparr>) (fl_db w)\<rparr>)"
    (is "fleet_inv ?w")
proof -
  have pos: "0 < is_next_counter row" using fleet_inv_row [OF inv row] by simp
  have sub: "reserved (fl_db w) \<subseteq> reserved (fl_db ?w)"
    using reserved_advance [OF row pos len(1)] by auto
  obtain ids where ids: "fl_issued w = map id_text ids" "distinct ids" "set ids \<subseteq> reserved (fl_db w)"
    "\<And>p g. fl_gens w p = Some g \<Longrightarrow> set ids \<inter> cached g = {}"
    using fleet_inv_issued [OF inv] by metis
  show ?thesis
  proof (rule fleet_invI [where ids = ids])
    fix i r
    assume "dget (fl_db ?w) i = Some r"
    then show "0 < is_incarnation r \<and> is_incarnation r \<le> maxInt64 \<and> 0 < is_next_counter r \<and> is_next_counter r \<le> maxInt64"
      using fleet_inv_row [OF inv row] fleet_inv_row [OF inv, of i r] len by (auto simp: DAList.lookup_update split: if_splits)
  next
    fix p g
    assume "fl_gens ?w p = Some g"
    then show "0 \<le> ge_next g \<and> 0 < ge_blockSize g \<and> cached g \<subseteq> reserved (fl_db ?w)"
      using fleet_inv_gen [OF inv, of p g] sub by auto
  qed (use fleet_inv_disjoint [OF inv] ids sub in \<open>auto simp del: fun_upd_apply\<close>)
qed

lemma fleet_inv_load:
  assumes inv: "fleet_inv w" and g: "fl_gens w p = Some g" and row: "dget (fl_db w) (ge_issuer g) = Some row"
    and len: "0 < len" "is_next_counter row + len \<le> maxInt64"
  shows "fleet_inv (w\<lparr>fl_db := dset (ge_issuer g) (row\<lparr>is_next_counter := is_next_counter row + len\<rparr>) (fl_db w),
      fl_gens := (fl_gens w)(p \<mapsto> g\<lparr>ge_incarnation := is_incarnation row, ge_next := is_next_counter row,
        ge_end := is_next_counter row + len - 1\<rparr>)\<rparr>)"
    (is "fleet_inv (w\<lparr>fl_db := ?db, fl_gens := (fl_gens w)(p \<mapsto> ?g)\<rparr>)")
proof -
  let ?new = "{(ge_issuer g, is_incarnation row, c) | c. is_next_counter row \<le> c \<and> c < is_next_counter row + len}"
  let ?w = "w\<lparr>fl_db := ?db, fl_gens := (fl_gens w)(p \<mapsto> ?g)\<rparr>"
  have pos: "0 < is_next_counter row" "0 < ge_blockSize g" using fleet_inv_row [OF inv row] fleet_inv_gen [OF inv g] by auto
  have new: "cached ?g = ?new" using pos by (auto simp: cached_def)
  have fresh: "cached ?g \<inter> reserved (fl_db w) = {}" unfolding new using row by (auto simp: reserved_def)
  have adv: "reserved ?db = reserved (fl_db w) \<union> cached ?g" unfolding new by (rule reserved_advance [OF row pos(1) len(1)])
  have gens: "q = p \<and> h = ?g \<or> q \<noteq> p \<and> fl_gens w q = Some h" if "fl_gens ?w q = Some h" for q h
    using that by (auto split: if_splits)
  have others: "cached h \<inter> cached ?g = {}" if "fl_gens w q = Some h" for q h
    using fleet_inv_gen [OF inv that] fresh by blast
  obtain ids where ids: "fl_issued w = map id_text ids" "distinct ids" "set ids \<subseteq> reserved (fl_db w)"
    "\<And>p g. fl_gens w p = Some g \<Longrightarrow> set ids \<inter> cached g = {}"
    using fleet_inv_issued [OF inv] by metis
  show ?thesis
  proof (rule fleet_invI [where ids = ids])
    fix i r
    assume "dget (fl_db ?w) i = Some r"
    then show "0 < is_incarnation r \<and> is_incarnation r \<le> maxInt64 \<and> 0 < is_next_counter r \<and> is_next_counter r \<le> maxInt64"
      using fleet_inv_row [OF inv row] fleet_inv_row [OF inv, of i r] len by (auto simp: DAList.lookup_update split: if_splits)
  next
    fix q h
    assume "fl_gens ?w q = Some h"
    from gens [OF this] show "0 \<le> ge_next h \<and> 0 < ge_blockSize h \<and> cached h \<subseteq> reserved (fl_db ?w)"
      using fleet_inv_gen [OF inv, of q h] pos adv by auto
  next
    fix q r h k
    assume "fl_gens ?w q = Some h" "fl_gens ?w r = Some k" "q \<noteq> r"
    then show "cached h \<inter> cached k = {}"
      using gens [of q h] gens [of r k] others [of q h] others [of r k] fleet_inv_disjoint [OF inv, of q h r k] by blast
  next
    fix q h
    assume "fl_gens ?w q = Some h"
    from gens [OF this] show "set ids \<inter> cached h = {}" using ids(3) ids(4) [of q h] fresh by blast
  qed (use ids adv in auto)
qed

lemma fleet_inv_emit:
  assumes inv: "fleet_inv w" and g: "fl_gens w p = Some g" and live: "ge_next g \<noteq> 0" "ge_next g \<le> ge_end g"
  shows "fleet_inv (w\<lparr>fl_gens := (fl_gens w)(p \<mapsto> g\<lparr>ge_next := ge_next g + 1\<rparr>),
      fl_issued := id_text (ge_issuer g, ge_incarnation g, ge_next g) # fl_issued w\<rparr>)"
    (is "fleet_inv (w\<lparr>fl_gens := (fl_gens w)(p \<mapsto> ?g), fl_issued := id_text ?i # _\<rparr>)")
proof -
  let ?w = "w\<lparr>fl_gens := (fl_gens w)(p \<mapsto> ?g), fl_issued := id_text ?i # fl_issued w\<rparr>"
  note old = fleet_inv_gen [OF inv g]
  have here: "?i \<in> cached g" and rest: "cached ?g \<subseteq> cached g - {?i}"
    using live old by (auto simp: cached_def)
  obtain ids where ids: "fl_issued w = map id_text ids" "distinct ids" "set ids \<subseteq> reserved (fl_db w)"
    "\<And>p g. fl_gens w p = Some g \<Longrightarrow> set ids \<inter> cached g = {}"
    using fleet_inv_issued [OF inv] by metis
  have gens: "\<exists>h'. fl_gens w q = Some h' \<and> cached h \<subseteq> cached h' - {?i} \<and> 0 \<le> ge_next h \<and> 0 < ge_blockSize h"
    if *: "fl_gens ?w q = Some h" for q h
  proof (cases "q = p")
    case True
    then show ?thesis using * g rest old by auto
  next
    case False
    then have "fl_gens w q = Some h" using * by simp
    then show ?thesis using fleet_inv_disjoint [OF inv _ g, of q h] fleet_inv_gen [OF inv, of q h] here False by blast
  qed
  show ?thesis
  proof (rule fleet_invI [where ids = "?i # ids"])
    fix q h
    assume "fl_gens ?w q = Some h"
    from gens [OF this] obtain h' where "fl_gens w q = Some h'" "cached h \<subseteq> cached h' - {?i}" "0 \<le> ge_next h" "0 < ge_blockSize h"
      by blast
    then show "0 \<le> ge_next h \<and> 0 < ge_blockSize h \<and> cached h \<subseteq> reserved (fl_db ?w)"
      and "set (?i # ids) \<inter> cached h = {}"
      using fleet_inv_gen [OF inv, of q h'] ids(4) [of q h'] by auto
  next
    fix q r h k
    assume "fl_gens ?w q = Some h" "fl_gens ?w r = Some k" "q \<noteq> r"
    then show "cached h \<inter> cached k = {}"
      using gens [of q h] gens [of r k] fleet_inv_disjoint [OF inv, of q _ r] by blast
  qed (use fleet_inv_row [OF inv] ids here ids(4) [OF g] old in auto)
qed

lemma allocate_cases:
  obtains (failed) e where "allocate outcomes g db = (Some e, g, db)"
  | (reserved) e row where "dget db (ge_issuer g) = Some row" "0 < ge_blockSize g" "is_next_counter row + ge_blockSize g \<le> maxInt64"
      "allocate outcomes g db = (Some e, g, dset (ge_issuer g) (row\<lparr>is_next_counter := is_next_counter row + ge_blockSize g\<rparr>) db)"
  | (loaded) row where "dget db (ge_issuer g) = Some row" "0 < ge_blockSize g" "is_next_counter row + ge_blockSize g \<le> maxInt64"
      "0 < is_next_counter row"
      "allocate outcomes g db = (None, g\<lparr>ge_incarnation := is_incarnation row, ge_next := is_next_counter row,
         ge_end := is_next_counter row + ge_blockSize g - 1\<rparr>,
         dset (ge_issuer g) (row\<lparr>is_next_counter := is_next_counter row + ge_blockSize g\<rparr>) db)"
proof -
  obtain r db' where run: "reserveBlock outcomes g db = (r, db')" by fastforce
  show thesis
  proof (rule RunSerializable_cases [of "int defaultMaxAttempts" outcomes "reserveBlock_body (ge_issuer g) (ge_blockSize g)" db])
    assume "snd (RunSerializable (int defaultMaxAttempts) outcomes (reserveBlock_body (ge_issuer g) (ge_blockSize g)) db) = db"
      "\<nexists>x. fst (RunSerializable (int defaultMaxAttempts) outcomes (reserveBlock_body (ge_issuer g) (ge_blockSize g)) db) = Inr x"
    then show thesis
      using run failed by (cases r) (auto simp: allocate_def reserveBlock_def)
  next
    fix block db2
    assume body: "reserveBlock_body (ge_issuer g) (ge_blockSize g) db = Inr (block, db2)"
      and "snd (RunSerializable (int defaultMaxAttempts) outcomes (reserveBlock_body (ge_issuer g) (ge_blockSize g)) db) = db2"
      "fst (RunSerializable (int defaultMaxAttempts) outcomes (reserveBlock_body (ge_issuer g) (ge_blockSize g)) db) = Inr block \<or>
       fst (RunSerializable (int defaultMaxAttempts) outcomes (reserveBlock_body (ge_issuer g) (ge_blockSize g)) db) = Inl ErrAmbiguousCommit"
    then have "db' = db2" "r = Inr block \<or> r = Inl ErrAmbiguousCommit" using run by (auto simp: reserveBlock_def)
    moreover obtain row where row: "dget db (ge_issuer g) = Some row" "0 < ge_blockSize g"
      "cb_incarnation block = is_incarnation row" "cb_first block = is_next_counter row"
      "cb_last block = is_next_counter row + ge_blockSize g - 1" "is_next_counter row + ge_blockSize g \<le> maxInt64"
      "db2 = dset (ge_issuer g) (row\<lparr>is_next_counter := is_next_counter row + ge_blockSize g\<rparr>) db"
      by (rule reserveBlock_body_Inr [OF body])
    moreover have "valid_block block"
      using body by (auto simp: reserveBlock_body_def Let_def split: option.splits if_splits)
    ultimately show thesis
      using run row reserved [OF row(1,2,6)] loaded [OF row(1,2,6)] by (auto simp: allocate_def valid_block_def)
  qed
qed

lemma fleet_step_ask:
  assumes inv: "fleet_inv w" and g: "fl_gens w p = Some g"
  shows "fleet_inv (fleet_step (Ask p outcomes) w)"
proof (cases "ge_next g = 0 \<or> ge_next g > ge_end g")
  case False
  have "w\<lparr>fl_db := fl_db w, fl_gens := x\<rparr> = w\<lparr>fl_gens := x\<rparr>" for x by simp
  then show ?thesis using fleet_inv_emit [OF inv g] False g by (simp add: Next_def)
next
  case True
  then have alloc: "Next outcomes g (fl_db w) = (case allocate outcomes g (fl_db w) of (Some e, g, db) \<Rightarrow> (Inl e, g, db)
      | (None, g, db) \<Rightarrow> (Inr (id_text (ge_issuer g, ge_incarnation g, ge_next g)), g\<lparr>ge_next := ge_next g + 1\<rparr>, db))"
    by (simp add: Next_def)
  have same: "(fl_gens w)(p \<mapsto> g) = fl_gens w" using g by auto
  show ?thesis
  proof (cases rule: allocate_cases [of outcomes g "fl_db w"])
    case (failed e)
    then show ?thesis using inv g by (simp add: alloc same)
  next
    case (reserved e row)
    then show ?thesis using fleet_inv_advance [OF inv reserved(1-3)] g by (simp add: alloc same)
  next
    case (loaded row)
    let ?w = "w\<lparr>fl_db := dset (ge_issuer g) (row\<lparr>is_next_counter := is_next_counter row + ge_blockSize g\<rparr>) (fl_db w),
      fl_gens := (fl_gens w)(p \<mapsto> g\<lparr>ge_incarnation := is_incarnation row, ge_next := is_next_counter row,
        ge_end := is_next_counter row + ge_blockSize g - 1\<rparr>)\<rparr>"
    show ?thesis
      using fleet_inv_emit [OF fleet_inv_load [OF inv g loaded(1-3)], of p] loaded g by (simp add: alloc)
  qed
qed

lemma fleet_step_inv: "fleet_inv w \<Longrightarrow> fleet_inv (fleet_step op w)"
proof (cases op)
  case (Start p issuer n)
  assume inv: "fleet_inv w"
  obtain ids where ids: "fl_issued w = map id_text ids" "distinct ids" "set ids \<subseteq> reserved (fl_db w)"
    "\<And>p g. fl_gens w p = Some g \<Longrightarrow> set ids \<inter> cached g = {}"
    using fleet_inv_issued [OF inv] by metis
  have gens: "cached h = {} \<and> ge_next h = 0 \<and> 0 < ge_blockSize h \<or> q \<noteq> p \<and> fl_gens w q = Some h"
    if "((fl_gens w)(p := New issuer n)) q = Some h" for q h
    using that by (auto simp: New_def cached_def split: if_splits)
  show ?thesis unfolding Start fleet_step.simps
  proof (rule fleet_invI [where ids = ids], goal_cases)
    case (2 q h)
    then show ?case using gens [of q h] fleet_inv_gen [OF inv, of q h] by auto
  next
    case (3 q r h k)
    then show ?case using gens [of q h] gens [of r k] fleet_inv_disjoint [OF inv, of q h r k] by (simp del: fun_upd_apply) blast
  next
    case (7 q h)
    then show ?case using gens [of q h] ids(4) [of q h] by auto
  qed (use fleet_inv_row [OF inv] ids in auto)
next
  case (Ask p outcomes)
  then show "fleet_inv w \<Longrightarrow> ?thesis" using fleet_step_ask by (cases "fl_gens w p") auto
next
  case (Retire issuer)
  assume inv: "fleet_inv w"
  have "reserved (fl_db (fleet_step op w)) = reserved (fl_db w)"
    by (auto simp: Retire reserved_def dmodify_def DAList.lookup_update split: option.splits if_splits)
  then show ?thesis
    using inv unfolding Retire fleet_inv_def
    by (auto simp: dmodify_def DAList.lookup_update split: option.splits if_splits)
qed

text \<open>
  C10: the processes of a fleet share one counter table whose rows satisfy the column constraints. However they start,
  crash and start again, ask for identifiers, lose acknowledgements of the reserving transaction and have their issuer
  retired, in any interleaving, no identifier string is handed out twice.
\<close>

theorem identifiers_never_repeat:
  assumes "id_rows_ok db"
  shows "distinct (fl_issued (fleet_run ops db))"
proof -
  have "fleet_inv \<lparr>fl_db = db, fl_gens = (\<lambda>_. None), fl_issued = []\<rparr>"
    using assms by (intro fleet_invI [where ids = "[]"])
      (auto simp: id_rows_ok_def list_all_iff mem_entries_iff)
  then have inv: "fleet_inv (fleet_run ops db)"
    unfolding fleet_run_def by (rule fold_invariant [where Q = "\<lambda>_. True", OF TrueI]) (rule fleet_step_inv)
  obtain ids where ids: "fl_issued (fleet_run ops db) = map id_text ids" "distinct ids" "set ids \<subseteq> reserved (fl_db (fleet_run ops db))"
    using fleet_inv_issued [OF inv] by metis
  moreover have "inj_on id_text (reserved (fl_db (fleet_run ops db)))"
    by (rule inj_onI) (auto simp: reserved_def id_text_inject dest!: fleet_inv_row [OF inv])
  ultimately show ?thesis by (simp add: distinct_map inj_on_subset)
qed

theorem identifiers_never_repeat_witness:
  "id_rows_ok (dset ''pay'' \<lparr>is_incarnation = 1, is_next_counter = 1, is_retired = False\<rparr> dempty) \<and>
   distinct (fl_issued (fleet_run [Start 0 ''pay'' 2, Ask 0 [], Start 1 ''pay'' 2, Ask 1 [], Start 0 ''pay'' 2, Ask 0 []]
     (dset ''pay'' \<lparr>is_incarnation = 1, is_next_counter = 1, is_retired = False\<rparr> dempty)))"
proof (rule conjI)
  show ok: "id_rows_ok (dset ''pay'' \<lparr>is_incarnation = 1, is_next_counter = 1, is_retired = False\<rparr> dempty)"
    by code_simp
  show "distinct (fl_issued (fleet_run [Start 0 ''pay'' 2, Ask 0 [], Start 1 ''pay'' 2, Ask 1 [], Start 0 ''pay'' 2, Ask 0 []]
     (dset ''pay'' \<lparr>is_incarnation = 1, is_next_counter = 1, is_retired = False\<rparr> dempty)))"
    by (rule identifiers_never_repeat [OF ok])
qed

end
