(* ===== verification/Payment_State.thy ===== *)
theory Payment_State
  imports Ledger_Amount
begin

text \<open>
  The payment state machine of \<^verbatim>\<open>internal/payment/state.go\<close>: the declared states, the transition table, and the states a
  capture or a refund leads to.
\<close>

section \<open>States\<close>

text \<open>A Go string type: any string is a value, the constants are the declared states.\<close>

type_synonym State = string

definition Created :: State where "Created = ''CREATED''"
definition Authorized :: State where "Authorized = ''AUTHORIZED''"
definition Held :: State where "Held = ''HELD''"
definition PartiallyCaptured :: State where "PartiallyCaptured = ''PARTIALLY_CAPTURED''"
definition Captured :: State where "Captured = ''CAPTURED''"
definition Settled :: State where "Settled = ''SETTLED''"
definition PartiallyRefunded :: State where "PartiallyRefunded = ''PARTIALLY_REFUNDED''"
definition Refunded :: State where "Refunded = ''REFUNDED''"
definition Reversed :: State where "Reversed = ''REVERSED''"
definition Disputed :: State where "Disputed = ''DISPUTED''"
definition ChargedBack :: State where "ChargedBack = ''CHARGED_BACK''"
definition Failed :: State where "Failed = ''FAILED''"
definition Unknown :: State where "Unknown = ''UNKNOWN''"

datatype payment_error = ErrInvalidTransition | ErrInvalidRequest | ErrPaymentNotFound | ErrOverCapture | ErrOverRefund
  | ErrCashbackRule

text \<open>The map literal, a list of keys with their sets; a missing key reads as the empty set.\<close>

definition transitions :: "(State \<times> State list) list" where
  "transitions =
     [(Created, [Authorized, Held, Failed, Unknown]),
      (Authorized, [Held, Captured, Reversed, Failed, Unknown]),
      (Held, [PartiallyCaptured, Captured, Reversed, Unknown]),
      (PartiallyCaptured, [Captured, Reversed, Unknown]),
      (Captured, [Settled, PartiallyRefunded, Refunded, Disputed, ChargedBack, Unknown]),
      (Settled, [PartiallyRefunded, Refunded, Disputed, ChargedBack]),
      (PartiallyRefunded, [Refunded, Disputed, ChargedBack]),
      (Disputed, [ChargedBack, Settled, PartiallyRefunded, Refunded]),
      (Unknown, [Authorized, Held, Captured, Settled, Failed, Reversed])]"

definition CanTransition :: "State \<Rightarrow> State \<Rightarrow> bool" where
  "CanTransition src dst =
     (if src = dst then True
      else case map_of transitions src of None \<Rightarrow> False | Some tos \<Rightarrow> dst \<in> set tos)"

definition ValidateTransition :: "State \<Rightarrow> State \<Rightarrow> payment_error option" where
  "ValidateTransition src dst = (if \<not> CanTransition src dst then Some ErrInvalidTransition else None)"

definition captureState :: "amount \<Rightarrow> amount \<Rightarrow> amount \<Rightarrow> payment_error + State" where
  "captureState authorized captured released =
     (case Amount_Add captured released of
        Inl _ \<Rightarrow> Inl ErrOverCapture
      | Inr used \<Rightarrow>
        if Amount_Cmp used authorized > 0 then Inl ErrOverCapture
        else if Amount_Cmp used authorized = 0 \<and> Amount_Sign captured > 0 then Inr Captured
        else Inr PartiallyCaptured)"

definition refundState :: "amount \<Rightarrow> amount \<Rightarrow> amount \<Rightarrow> payment_error + State" where
  "refundState captured refunded chargedBack =
     (case Amount_Add refunded chargedBack of
        Inl _ \<Rightarrow> Inl ErrOverRefund
      | Inr returned \<Rightarrow>
        if Amount_Cmp returned captured > 0 then Inl ErrOverRefund
        else if Amount_Cmp returned captured = 0 then
          if Amount_Sign chargedBack > 0 \<and> Amount_IsZero refunded then Inr ChargedBack else Inr Refunded
        else Inr PartiallyRefunded)"

section \<open>Lemmas\<close>

definition states :: "State set" where
  "states = {Created, Authorized, Held, PartiallyCaptured, Captured, Settled, PartiallyRefunded, Refunded, Reversed,
     Disputed, ChargedBack, Failed, Unknown}"

lemmas state_defs = Created_def Authorized_def Held_def PartiallyCaptured_def Captured_def Settled_def
  PartiallyRefunded_def Refunded_def Reversed_def Disputed_def ChargedBack_def Failed_def Unknown_def

text \<open>The table as a relation: one rule per pair of distinct states.\<close>

lemma CanTransition_iff:
  "CanTransition s t \<longleftrightarrow> s = t \<or> (\<exists>tos. (s, tos) \<in> set transitions \<and> t \<in> set tos)"
proof -
  have "distinct (map fst transitions)" by (simp add: transitions_def state_defs)
  then have pairs: "(s, tos) \<in> set transitions \<longleftrightarrow> map_of transitions s = Some tos" for tos by simp
  show ?thesis unfolding CanTransition_def pairs by (simp split: option.splits)
qed

text \<open>A history of a payment: every state it takes is reached by an allowed transition.\<close>

inductive lifecycle :: "State \<Rightarrow> State \<Rightarrow> bool" where
  start: "lifecycle s s"
| move: "lifecycle s t \<Longrightarrow> ValidateTransition t u = None \<Longrightarrow> lifecycle s u"

lemma move_cases:
  assumes "ValidateTransition s t = None" "s \<noteq> t"
  shows "\<exists>tos. (s, tos) \<in> set transitions \<and> t \<in> set tos"
  using assms by (auto simp: ValidateTransition_def CanTransition_iff split: if_splits)

definition final_states :: "State set" where
  "final_states = {Refunded, Reversed, ChargedBack, Failed}"

text \<open>States of a payment whose principal has been captured.\<close>

definition captured_states :: "State set" where
  "captured_states = {Settled, PartiallyRefunded, Refunded, Disputed, ChargedBack}"

lemma move_states: "s \<in> states \<Longrightarrow> ValidateTransition s t = None \<Longrightarrow> t \<in> states"
  by (cases "s = t") (auto dest!: move_cases simp: transitions_def states_def)

lemma move_final: "s \<in> final_states \<Longrightarrow> ValidateTransition s t = None \<Longrightarrow> t = s"
  by (rule ccontr) (drule move_cases; auto simp: transitions_def final_states_def state_defs)

lemma move_captured: "s \<in> captured_states \<Longrightarrow> ValidateTransition s t = None \<Longrightarrow> t \<in> captured_states"
  by (cases "s = t") (auto dest!: move_cases simp: transitions_def captured_states_def state_defs)

lemma lifecycle_in: "lifecycle s t \<Longrightarrow> s \<in> S \<Longrightarrow> (\<And>u v. u \<in> S \<Longrightarrow> ValidateTransition u v = None \<Longrightarrow> v \<in> S) \<Longrightarrow> t \<in> S"
  by (induction rule: lifecycle.induct) auto

lemma lifecycle_final: "s \<in> final_states \<Longrightarrow> {t. lifecycle s t} = {s}"
  using lifecycle_in [where S = "{s}" and s = s] move_final by (auto intro: lifecycle.start)

lemma lifecycle_step: "lifecycle s t \<Longrightarrow> CanTransition t u \<Longrightarrow> lifecycle s u"
  by (rule lifecycle.move) (simp_all add: ValidateTransition_def)

lemma move_to_created: "ValidateTransition s Created = None \<Longrightarrow> s = Created"
  by (rule ccontr) (drule move_cases; auto simp: transitions_def state_defs)

lemma lifecycle_reaches: "s \<in> states \<Longrightarrow> lifecycle Created s"
proof -
  note table = CanTransition_def transitions_def state_defs
  have held: "lifecycle Created Held" by (rule lifecycle_step [OF lifecycle.start]) (simp add: table)
  have captured: "lifecycle Created Captured" by (rule lifecycle_step [OF held]) (simp add: table)
  have first: "\<forall>s \<in> {Authorized, Failed, Unknown}. lifecycle Created s"
    by (auto intro!: lifecycle_step [OF lifecycle.start]) (simp_all add: table)
  have second: "\<forall>s \<in> {PartiallyCaptured, Reversed}. lifecycle Created s"
    by (auto intro!: lifecycle_step [OF held]) (simp_all add: table)
  have third: "\<forall>s \<in> {Settled, PartiallyRefunded, Refunded, Disputed, ChargedBack}. lifecycle Created s"
    by (auto intro!: lifecycle_step [OF captured]) (simp_all add: table)
  show "s \<in> states \<Longrightarrow> lifecycle Created s"
    unfolding states_def using held captured first second third lifecycle.start [of Created] by auto
qed

section \<open>Properties\<close>

text \<open>
  C38: The values of the state type that a payment can take: the histories that start in \<^verbatim>\<open>CREATED\<close> visit exactly the
  thirteen declared states, and \<^verbatim>\<open>captureState\<close> and \<^verbatim>\<open>refundState\<close> compute one of the declared states that a
  capture or a refund may have, or the error of that operation.
\<close>

theorem payment_states_declared:
  "{t. lifecycle Created t} = states \<and>
   captureState a c r \<in> {Inl ErrOverCapture, Inr Captured, Inr PartiallyCaptured} \<and>
   refundState a c r \<in> {Inl ErrOverRefund, Inr Refunded, Inr PartiallyRefunded, Inr ChargedBack}"
proof (intro conjI)
  have start: "Created \<in> states" by (simp add: states_def)
  show "{t. lifecycle Created t} = states"
  proof (intro equalityI subsetI)
    fix t
    assume "t \<in> {t. lifecycle Created t}"
    then have "lifecycle Created t" by simp
    then show "t \<in> states" by (rule lifecycle_in [where S = states]) (use start move_states in blast)+
  qed (simp add: lifecycle_reaches)
qed (auto simp: captureState_def refundState_def split: sum.splits)

text \<open>
  C39: A payment that was settled, disputed, refunded or charged back stays among those states for ever, the four final states
  are never left, and no payment gets back to \<^verbatim>\<open>CREATED\<close>.
\<close>

theorem payment_lifecycle_one_way:
  "(\<Union>s \<in> captured_states. {t. lifecycle s t}) = captured_states \<and>
   {t. lifecycle Refunded t} = {Refunded} \<and> {t. lifecycle Reversed t} = {Reversed} \<and>
   {t. lifecycle ChargedBack t} = {ChargedBack} \<and> {t. lifecycle Failed t} = {Failed} \<and>
   {s. lifecycle s Created} = {Created}"
proof -
  have "(\<Union>s \<in> captured_states. {t. lifecycle s t}) = captured_states"
  proof (intro equalityI subsetI)
    fix t
    assume "t \<in> (\<Union>s \<in> captured_states. {t. lifecycle s t})"
    then obtain s where "s \<in> captured_states" "lifecycle s t" by blast
    then show "t \<in> captured_states" by (blast intro: lifecycle_in [where S = captured_states] move_captured)
  qed (blast intro: lifecycle.start)
  moreover have "lifecycle s t \<Longrightarrow> t = Created \<Longrightarrow> s = Created" for s t
    by (induction rule: lifecycle.induct) (auto dest: move_to_created)
  then have "{s. lifecycle s Created} = {Created}" by (auto intro: lifecycle.start)
  ultimately show ?thesis by (simp add: lifecycle_final final_states_def)
qed

text \<open>
  C40: The state after a capture or a refund follows from the amounts: a capture is refused exactly when captured and
  released principal exceed the authorization, and complete exactly when they exhaust it with something captured; a refund is refused
  exactly when refunds and chargebacks exceed the captured principal, and complete exactly when they exhaust it.
\<close>

theorem capture_refund_states_exact:
  assumes "0 \<le> captured" "0 \<le> released" "fitsDecimal38 authorized" "0 \<le> refunded" "0 \<le> chargedBack"
  shows "(captureState authorized captured released = Inl ErrOverCapture \<longleftrightarrow> authorized < captured + released) \<and>
    (captureState authorized captured released = Inr Captured \<longleftrightarrow> captured + released = authorized \<and> 0 < captured) \<and>
    (refundState authorized refunded chargedBack = Inl ErrOverRefund \<longleftrightarrow> authorized < refunded + chargedBack) \<and>
    (refundState authorized refunded chargedBack \<in> {Inr Refunded, Inr ChargedBack} \<longleftrightarrow> refunded + chargedBack = authorized) \<and>
    (refundState authorized refunded chargedBack = Inr ChargedBack \<longleftrightarrow>
       refunded = 0 \<and> 0 < chargedBack \<and> chargedBack = authorized)"
  using assms
  by (auto simp: captureState_def refundState_def Amount_Add_def Amount_Cmp_def Amount_IsZero_def fitsDecimal38_iff state_defs
      split: sum.splits if_splits)

theorem capture_refund_states_exact_witness:
  "captureState 100 60 40 = Inr Captured \<and> captureState 100 60 41 = Inl ErrOverCapture \<and>
   refundState 100 0 100 = Inr ChargedBack"
  using capture_refund_states_exact [of 60 40 100 0 100] capture_refund_states_exact [of 60 41 100 0 100]
  by (simp add: fitsDecimal38_iff)

end
