(* ===== verification/Ledger_Db.thy ===== *)
theory Ledger_Db
  imports Ledger_Posting Store
begin

text \<open>
  The ledger tables of migration 001 with the columns later migrations add, and the SQL functions that guard them: the line
  trigger and the finalizer \<^verbatim>\<open>finalize_ledger_transaction\<close> in the version of migration 018.

  A table is a finite map from its primary key to the remaining columns; timestamps and the two constant \<^verbatim>\<open>status\<close>
  columns of assets and accounts are left out. \<^verbatim>\<open>INT8\<close> columns that a CHECK keeps positive are natural numbers bounded
  by \<open>maxInt8\<close>. A row of \<^verbatim>\<open>ledger_lines\<close> is a line behind its number, in the list of its transaction. A JSONB
  value is the text the server prints for it; \<open>jsonb\<close>, the cast from text, belongs to the server and is an argument.
  A failing statement is a value of \<open>service_error\<close> and leaves no trace.

  The server keeps \<^verbatim>\<open>STRING\<close> values in UTF-8 and refuses to write anything else. A lookup by ill-formed text finds no row
  here; the server answers it with the same encoding error as a write.
\<close>

section \<open>Tables\<close>

record asset_row =
  as_display_code :: string
  as_atomic_scale :: "64 word"

record book_row =
  bk_legal_entity_id :: string
  bk_jurisdiction :: string
  bk_next_sequence_no :: nat
  bk_last_entry_hash :: bytes

record balance_row =
  ba_debit_atoms :: amount
  ba_credit_atoms :: amount
  ba_current_balance_atoms :: amount
  ba_last_sequence_no :: nat

record transaction_row =
  tr_book_id :: string
  tr_operation_id :: string
  tr_effect_id :: string
  tr_transaction_kind :: string
  tr_reference_transaction_id :: "string option"
  tr_posting_rule_version :: string
  tr_schema_version :: "64 word"
  tr_request_hash :: bytes
  tr_metadata :: bytes
  tr_canonical_metadata :: "bytes option"
  tr_status :: string
  tr_sequence_no :: nat
  tr_prev_hash :: bytes
  tr_entry_hash :: bytes

record reference_row =
  rf_reference_type :: string
  rf_reference_id :: string
  rf_source_schema_version :: "64 word"

record ledger_db =
  ld_assets :: "(string, asset_row) dict"
  ld_books :: "(string, book_row) dict"
  ld_accounts :: "(string, Account) dict"
  ld_balances :: "(string, balance_row) dict"
  ld_transactions :: "(string, transaction_row) dict"
  ld_lines :: "(string, (nat \<times> Line) list) dict"
  ld_reference_phase :: "string option"
  ld_references :: "(string, reference_row) dict"

definition empty_ledger :: "string option \<Rightarrow> ledger_db" where
  "empty_ledger phase = \<lparr>ld_assets = dempty, ld_books = dempty, ld_accounts = dempty, ld_balances = dempty,
     ld_transactions = dempty, ld_lines = dempty, ld_reference_phase = phase, ld_references = dempty\<rparr>"

section \<open>Errors\<close>

text \<open>An error of the package, an error of the server with its SQLSTATE and message, or \<^verbatim>\<open>pgx.ErrNoRows\<close>.\<close>

datatype service_error = LedgerError ledger_error | SqlError string string | ErrNoRows

definition raise_exception :: "string \<Rightarrow> service_error" where
  "raise_exception message = SqlError ''P0001'' message"

definition sql_unique :: service_error where "sql_unique = SqlError ''23505'' ''duplicate key value violates unique constraint''"

definition sql_foreign_key :: service_error where "sql_foreign_key = SqlError ''23503'' ''violates foreign key constraint''"

definition sql_check :: service_error where "sql_check = SqlError ''23514'' ''failed to satisfy CHECK constraint''"

definition sql_range :: service_error where "sql_range = SqlError ''22003'' ''value out of range''"

definition sql_invalid_json :: service_error where "sql_invalid_json = SqlError ''22P02'' ''could not parse JSON''"

definition sql_invalid_hex :: service_error where "sql_invalid_hex = SqlError ''22023'' ''invalid hex''"

definition sql_encoding :: service_error where "sql_encoding = SqlError ''22021'' ''invalid UTF-8 sequence''"

definition maxInt8 :: nat where "maxInt8 = 2 ^ 63 - 1"

definition DRAFT :: string where "DRAFT = ''DRAFT''"

definition POSTED :: string where "POSTED = ''POSTED''"

section \<open>Inserting a draft\<close>

text \<open>
  \<^verbatim>\<open>INSERT INTO ledger_transactions ... ON CONFLICT (effect_id) DO NOTHING\<close>: \<open>None\<close> when no row was inserted. The trigger
  \<^verbatim>\<open>enforce_ledger_transaction_insert\<close> demands a draft with canonical metadata.
\<close>

definition effect_rows :: "string \<Rightarrow> ledger_db \<Rightarrow> (string \<times> transaction_row) list" where
  "effect_rows effect db = filter (\<lambda>(_, row). tr_effect_id row = effect) (entries (ld_transactions db))"

definition enforce_ledger_transaction_insert :: "transaction_row \<Rightarrow> service_error option" where
  "enforce_ledger_transaction_insert row =
     (if tr_status row \<noteq> DRAFT then Some (raise_exception ''ledger transaction must be inserted as DRAFT'')
      else if tr_canonical_metadata row = None
      then Some (raise_exception ''new ledger transaction requires canonical metadata bytes'')
      else None)"

definition transaction_text :: "string \<Rightarrow> transaction_row \<Rightarrow> string list" where
  "transaction_text key row =
     [key, tr_book_id row, tr_operation_id row, tr_effect_id row, tr_transaction_kind row, tr_posting_rule_version row]
     @ (case tr_reference_transaction_id row of None \<Rightarrow> [] | Some ref \<Rightarrow> [ref])"

definition insert_transaction :: "string \<Rightarrow> transaction_row \<Rightarrow> ledger_db \<Rightarrow> service_error + ledger_db option" where
  "insert_transaction key row db =
     (if \<not> list_all valid_utf8 (transaction_text key row) then Inl sql_encoding
      else case enforce_ledger_transaction_insert row of
        Some e \<Rightarrow> Inl e
      | None \<Rightarrow>
        if effect_rows (tr_effect_id row) db \<noteq> [] then Inr None
        else if dget (ld_transactions db) key \<noteq> None then Inl sql_unique
        else if dget (ld_books db) (tr_book_id row) = None then Inl sql_foreign_key
        else if (case tr_reference_transaction_id row of None \<Rightarrow> False
          | Some ref \<Rightarrow> dget (ld_transactions db) ref = None \<and> ref \<noteq> key) then Inl sql_foreign_key
        else if \<not> 0 <s tr_schema_version row \<or> length (tr_request_hash row) \<noteq> 32 \<or> tr_sequence_no row = 0
          \<or> length (tr_prev_hash row) \<noteq> 32 \<or> length (tr_entry_hash row) \<noteq> 32 then Inl sql_check
        else Inr (Some (db\<lparr>ld_transactions := dset key row (ld_transactions db)\<rparr>)))"

definition raw_lines :: "string \<Rightarrow> ledger_db \<Rightarrow> (nat \<times> Line) list" where
  "raw_lines key db = dget_or [] (ld_lines db) key"

definition enforce_ledger_line_insert :: "string \<Rightarrow> Line \<Rightarrow> ledger_db \<Rightarrow> service_error option" where
  "enforce_ledger_line_insert key l db =
     (case dget (ld_transactions db) key of
        None \<Rightarrow> Some (raise_exception ''ledger lines may only be appended to a DRAFT transaction'')
      | Some parent \<Rightarrow>
        if tr_status parent \<noteq> DRAFT
        then Some (raise_exception ''ledger lines may only be appended to a DRAFT transaction'')
        else case dget (ld_accounts db) (line_AccountID l) of
          None \<Rightarrow> Some (raise_exception ''ledger line account belongs to a different book'')
        | Some account \<Rightarrow>
          if acc_BookID account \<noteq> tr_book_id parent
          then Some (raise_exception ''ledger line account belongs to a different book'')
          else if acc_AssetID account \<noteq> line_AssetID l
          then Some (raise_exception ''ledger line asset does not match account asset'')
          else None)"

definition line_text :: "Line \<Rightarrow> string list" where
  "line_text l = [line_AccountID l, line_AssetID l, line_Side l, line_Memo l]"

definition insert_line :: "string \<Rightarrow> nat \<Rightarrow> Line \<Rightarrow> ledger_db \<Rightarrow> service_error + ledger_db" where
  "insert_line key no l db =
     (if \<not> list_all valid_utf8 (line_text l) then Inl sql_encoding
      else case enforce_ledger_line_insert key l db of
        Some e \<Rightarrow> Inl e
      | None \<Rightarrow>
        if no \<in> fst ` set (raw_lines key db) then Inl sql_unique
        else if \<not> fitsDecimal38 (line_AmountAtoms l) then Inl sql_range
        else if no = 0 \<or> line_AmountAtoms l \<le> 0 \<or> line_Side l \<noteq> Debit \<and> line_Side l \<noteq> Credit then Inl sql_check
        else if dget (ld_assets db) (line_AssetID l) = None then Inl sql_foreign_key
        else Inr (db\<lparr>ld_lines := dset key (raw_lines key db @ [(no, l)]) (ld_lines db)\<rparr>))"

fun insert_lines :: "string \<Rightarrow> nat \<Rightarrow> Line list \<Rightarrow> ledger_db \<Rightarrow> service_error + ledger_db" where
  "insert_lines key no [] db = Inr db"
| "insert_lines key no (l # ls) db =
     (case insert_line key no l db of Inl e \<Rightarrow> Inl e | Inr db \<Rightarrow> insert_lines key (Suc no) ls db)"

section \<open>The hash of an entry, computed by the database\<close>

fun to_hex :: "nat \<Rightarrow> string" where
  "to_hex v = (if v < 16 then [hex_digit v] else to_hex (v div 16) @ [hex_digit (v mod 16)])"

declare to_hex.simps [simp del]

definition lpad :: "string \<Rightarrow> nat \<Rightarrow> string" where
  "lpad s n = take n (replicate (n - length s) (CHR ''0'') @ s)"

fun decode_hex :: "string \<Rightarrow> bytes option" where
  "decode_hex [] = Some []"
| "decode_hex [c] = None"
| "decode_hex (c # d # s) =
     (case (hex_value c, hex_value d, decode_hex s) of
        (Some h, Some l, Some bs) \<Rightarrow> Some (char_of (16 * h + l) # bs)
      | _ \<Rightarrow> None)"

definition ledger_hash_uint32 :: "nat \<Rightarrow> bytes option" where
  "ledger_hash_uint32 v = decode_hex (lpad (to_hex v) 8)"

definition ledger_hash_int64 :: "nat \<Rightarrow> bytes option" where
  "ledger_hash_int64 v = decode_hex (lpad (to_hex v) 16)"

definition ledger_hash_length_prefixed :: "bytes \<Rightarrow> bytes option" where
  "ledger_hash_length_prefixed v = map_option (\<lambda>n. n @ v) (ledger_hash_uint32 (length v))"

definition concat_bytes :: "bytes option list \<Rightarrow> bytes option" where
  "concat_bytes parts = map_option concat (those parts)"

definition line_frame :: "nat \<times> Line \<Rightarrow> bytes option" where
  "line_frame = (\<lambda>(no, l). concat_bytes
     [ledger_hash_int64 no,
      ledger_hash_length_prefixed (line_AccountID l),
      ledger_hash_length_prefixed (line_AssetID l),
      ledger_hash_length_prefixed (line_Side l),
      ledger_hash_length_prefixed (line_Memo l),
      ledger_hash_length_prefixed (Amount_String (line_AmountAtoms l))])"

definition canonical_line_bytes :: "(nat \<times> Line) list \<Rightarrow> bytes option" where
  "canonical_line_bytes ls =
     (case those (map line_frame ls) of
        None \<Rightarrow> None
      | Some frames \<Rightarrow> decode_hex (concat (map hex_bytes frames)))"

definition canonical_hash_input ::
  "string \<Rightarrow> transaction_row \<Rightarrow> bytes \<Rightarrow> (nat \<times> Line) list \<Rightarrow> bytes option" where
  "canonical_hash_input key row metadata ls =
     concat_bytes
       [decode_hex ''7061796d656e742d706c6174666f726d2f6c65646765722d656e7472792f763100'',
        Some (tr_prev_hash row),
        ledger_hash_int64 (tr_sequence_no row),
        ledger_hash_length_prefixed key,
        ledger_hash_length_prefixed (tr_book_id row),
        ledger_hash_length_prefixed (tr_operation_id row),
        ledger_hash_length_prefixed (tr_effect_id row),
        ledger_hash_length_prefixed (tr_transaction_kind row),
        ledger_hash_length_prefixed (tr_posting_rule_version row),
        ledger_hash_int64 (unat (tr_schema_version row)),
        (case tr_reference_transaction_id row of
           None \<Rightarrow> decode_hex ''00''
         | Some ref \<Rightarrow> concat_bytes [decode_hex ''01'', ledger_hash_length_prefixed ref]),
        Some (tr_request_hash row),
        ledger_hash_length_prefixed metadata,
        ledger_hash_uint32 (length ls),
        canonical_line_bytes ls]"

section \<open>The finalizer\<close>

definition ordered_lines :: "string \<Rightarrow> ledger_db \<Rightarrow> (nat \<times> Line) list" where
  "ordered_lines key db = sort_key fst (raw_lines key db)"

definition account_side_total :: "Side \<Rightarrow> string \<Rightarrow> Line list \<Rightarrow> int" where
  "account_side_total side account ls =
     sum_list (map line_AmountAtoms (filter (\<lambda>l. line_AccountID l = account \<and> line_Side l = side) ls))"

definition unbalanced_lines :: "Line list \<Rightarrow> bool" where
  "unbalanced_lines ls \<longleftrightarrow>
     list_ex (\<lambda>l. side_total Debit (line_AssetID l) ls \<noteq> side_total Credit (line_AssetID l) ls) ls"

definition mismatched_line :: "string \<Rightarrow> ledger_db \<Rightarrow> Line \<Rightarrow> bool" where
  "mismatched_line book db l =
     (case dget (ld_accounts db) (line_AccountID l) of
        None \<Rightarrow> False
      | Some account \<Rightarrow> line_AssetID l \<noteq> acc_AssetID account \<or> acc_BookID account \<noteq> book)"

text \<open>The checks before the chain advances, up to the recomputed hash.\<close>

definition finalize_checks ::
  "(bytes \<Rightarrow> bytes option) \<Rightarrow> string \<Rightarrow> transaction_row \<Rightarrow> ledger_db \<Rightarrow> service_error option" where
  "finalize_checks jsonb key row db =
     (let numbered = ordered_lines key db; ls = map snd numbered in
      if length ls < 2 then Some (raise_exception ''a posted ledger transaction requires at least two lines'')
      else if unbalanced_lines ls then Some (raise_exception ''ledger transaction is not balanced for every asset'')
      else if list_ex (mismatched_line (tr_book_id row) db) ls
      then Some (raise_exception ''ledger line account/book/asset mismatch'')
      else if fst (hd numbered) \<noteq> 1 \<or> fst (last numbered) \<noteq> length ls
      then Some (raise_exception ''ledger line numbers must be contiguous from one'')
      else case tr_canonical_metadata row of
        None \<Rightarrow> Some (raise_exception ''ledger finalization requires canonical metadata bytes'')
      | Some canonical \<Rightarrow>
        (case jsonb canonical of
           None \<Rightarrow> Some sql_invalid_json
         | Some value \<Rightarrow>
           if value \<noteq> tr_metadata row
           then Some (raise_exception ''canonical metadata bytes do not represent stored metadata'')
           else case canonical_hash_input key row canonical numbered of
             None \<Rightarrow> Some sql_invalid_hex
           | Some input \<Rightarrow>
             if sha256 input \<noteq> tr_entry_hash row then Some (raise_exception ''ledger entry hash verification failed'')
             else None))"

definition advance_book :: "transaction_row \<Rightarrow> ledger_db \<Rightarrow> service_error + ledger_db" where
  "advance_book row db =
     (case dget (ld_books db) (tr_book_id row) of
        None \<Rightarrow> Inl (raise_exception ''ledger hash-chain compare-and-swap failed'')
      | Some book \<Rightarrow>
        if bk_next_sequence_no book \<noteq> tr_sequence_no row \<or> bk_last_entry_hash book \<noteq> tr_prev_hash row
        then Inl (raise_exception ''ledger hash-chain compare-and-swap failed'')
        else if bk_next_sequence_no book + 1 > maxInt8 then Inl sql_range
        else Inr (db\<lparr>ld_books := dset (tr_book_id row)
               (book\<lparr>bk_next_sequence_no := bk_next_sequence_no book + 1, bk_last_entry_hash := tr_entry_hash row\<rparr>)
               (ld_books db)\<rparr>))"

text \<open>The partial unique index on \<^verbatim>\<open>(book_id, sequence_no)\<close> of posted rows.\<close>

definition posted_at :: "string \<Rightarrow> nat \<Rightarrow> ledger_db \<Rightarrow> (string \<times> transaction_row) list" where
  "posted_at book no db =
     filter (\<lambda>(_, row). tr_status row = POSTED \<and> tr_book_id row = book \<and> tr_sequence_no row = no)
       (entries (ld_transactions db))"

definition mark_posted :: "string \<Rightarrow> transaction_row \<Rightarrow> ledger_db \<Rightarrow> service_error + ledger_db" where
  "mark_posted key row db =
     (if posted_at (tr_book_id row) (tr_sequence_no row) db \<noteq> [] then Inl sql_unique
      else Inr (db\<lparr>ld_transactions := dset key (row\<lparr>tr_status := POSTED\<rparr>) (ld_transactions db)\<rparr>))"

definition shadow_reference :: "string \<Rightarrow> transaction_row \<Rightarrow> ledger_db \<Rightarrow> ledger_db" where
  "shadow_reference key row db =
     (case (tr_reference_transaction_id row, ld_reference_phase db) of
        (Some ref, Some phase) \<Rightarrow>
          if phase \<in> {''SHADOWING'', ''VERIFIED'', ''CUTOVER'', ''CONTRACTED''} \<and> dget (ld_references db) key = None
          then db\<lparr>ld_references := dset key \<lparr>rf_reference_type = ''LEDGER_TRANSACTION'', rf_reference_id = ref,
                 rf_source_schema_version = tr_schema_version row\<rparr> (ld_references db)\<rparr>
          else db
      | _ \<Rightarrow> db)"

definition normal_amount :: "Side \<Rightarrow> int \<Rightarrow> int \<Rightarrow> int" where
  "normal_amount side debit credit = (if side = Debit then debit - credit else credit - debit)"

definition upsert_balance :: "nat \<Rightarrow> Line list \<Rightarrow> string \<Rightarrow> Account \<Rightarrow> ledger_db \<Rightarrow> service_error + ledger_db" where
  "upsert_balance no ls key account db =
     (let debit = account_side_total Debit key ls; credit = account_side_total Credit key ls;
          current = normal_amount (acc_NormalSide account) debit credit in
      if \<not> fitsDecimal38 debit \<or> \<not> fitsDecimal38 credit \<or> \<not> fitsDecimal38 current then Inl sql_range
      else case dget (ld_balances db) key of
        None \<Rightarrow> Inr (db\<lparr>ld_balances := dset key \<lparr>ba_debit_atoms = debit, ba_credit_atoms = credit,
                 ba_current_balance_atoms = current, ba_last_sequence_no = no\<rparr> (ld_balances db)\<rparr>)
      | Some b \<Rightarrow>
        if \<not> fitsDecimal38 (ba_debit_atoms b + debit) \<or> \<not> fitsDecimal38 (ba_credit_atoms b + credit)
           \<or> \<not> fitsDecimal38 (ba_current_balance_atoms b + current) then Inl sql_range
        else Inr (db\<lparr>ld_balances := dset key \<lparr>ba_debit_atoms = ba_debit_atoms b + debit,
                 ba_credit_atoms = ba_credit_atoms b + credit,
                 ba_current_balance_atoms = ba_current_balance_atoms b + current,
                 ba_last_sequence_no = max (ba_last_sequence_no b) no\<rparr> (ld_balances db)\<rparr>))"

fun upsert_balances :: "nat \<Rightarrow> Line list \<Rightarrow> string list \<Rightarrow> ledger_db \<Rightarrow> service_error + ledger_db" where
  "upsert_balances no ls [] db = Inr db"
| "upsert_balances no ls (key # ids) db =
     (case dget (ld_accounts db) key of
        None \<Rightarrow> upsert_balances no ls ids db
      | Some account \<Rightarrow>
        (case upsert_balance no ls key account db of Inl e \<Rightarrow> Inl e | Inr db \<Rightarrow> upsert_balances no ls ids db))"

definition over_limit :: "ledger_db \<Rightarrow> string \<Rightarrow> bool" where
  "over_limit db key =
     (case (dget (ld_balances db) key, dget (ld_accounts db) key) of
        (Some b, Some account) \<Rightarrow>
          acc_EnforceSpendLimit account \<and> ba_current_balance_atoms b < - acc_CreditLimitAtoms account
      | _ \<Rightarrow> False)"

text \<open>\<^verbatim>\<open>finalize_ledger_transaction\<close>: the result is \<open>None\<close> for NULL.\<close>

definition finalize_ledger_transaction ::
  "(bytes \<Rightarrow> bytes option) \<Rightarrow> string \<Rightarrow> (ledger_db, service_error, string option) body" where
  "finalize_ledger_transaction jsonb key db =
     (case dget (ld_transactions db) key of
        None \<Rightarrow> Inr (None, db)
      | Some row \<Rightarrow>
        if tr_status row \<noteq> DRAFT then Inr (None, db)
        else
          let ls = map snd (ordered_lines key db); touched = remdups (map line_AccountID ls) in
          (case finalize_checks jsonb key row db of Some e \<Rightarrow> Inl e | None \<Rightarrow>
          (case advance_book row db of Inl e \<Rightarrow> Inl e | Inr db \<Rightarrow>
          (case mark_posted key row db of Inl e \<Rightarrow> Inl e | Inr db \<Rightarrow>
          (case upsert_balances (tr_sequence_no row) ls touched (shadow_reference key row db) of Inl e \<Rightarrow> Inl e | Inr db \<Rightarrow>
             if list_ex (over_limit db) touched
             then Inl (raise_exception ''posting exceeds available balance plus explicit credit'')
             else Inr (Some key, db))))))"

end
