(* ===== verification/Ledger_Service.thy ===== *)
theory Ledger_Service
  imports Ledger_Db
begin

text \<open>
  The ledger service of \<^verbatim>\<open>internal/ledger/service.go\<close> over the tables of \<open>Ledger_Db\<close>: assets, books, accounts, the posting
  primitive and the readers. The argument \<open>m\<close> of a method is the attempt limit of its \<^verbatim>\<open>store.Runner\<close>, \<open>outcomes\<close> what happens to
  the attempts.
\<close>

section \<open>Data\<close>

record Asset =
  ast_AssetID :: string
  ast_DisplayCode :: string
  ast_AtomicScale :: "64 word"

record PostingReceipt =
  rc_TransactionID :: string
  rc_BookID :: string
  rc_OperationID :: string
  rc_EffectID :: string
  rc_SequenceNo :: nat
  rc_EntryHash :: bytes
  rc_Duplicate :: bool

record Balance =
  bl_AccountID :: string
  bl_DebitAtoms :: amount
  bl_CreditAtoms :: amount
  bl_CurrentBalanceAtoms :: amount
  bl_CreditLimitAtoms :: amount
  bl_LastSequenceNo :: nat

type_synonym attempts = "(outcome \<times> bool) list"

definition invalid_posting :: "string \<Rightarrow> service_error" where
  "invalid_posting detail = LedgerError (ErrInvalidPosting detail)"

definition ledger_message :: "string \<Rightarrow> service_error" where
  "ledger_message m = LedgerError (ErrLedgerOther m)"

section \<open>Assets, books and accounts\<close>

definition registerAssetTx :: "Asset \<Rightarrow> (ledger_db, service_error, unit) body" where
  "registerAssetTx asset db =
     (if \<not> list_all valid_utf8 [ast_AssetID asset, ast_DisplayCode asset] then Inl sql_encoding
      else case dget (ld_assets db) (ast_AssetID asset) of
        None \<Rightarrow>
          if list_ex (\<lambda>(_, row). as_display_code row = ast_DisplayCode asset) (entries (ld_assets db)) then Inl sql_unique
          else Inr ((), db\<lparr>ld_assets := dset (ast_AssetID asset)
            \<lparr>as_display_code = ast_DisplayCode asset, as_atomic_scale = ast_AtomicScale asset\<rparr> (ld_assets db)\<rparr>)
      | Some row \<Rightarrow>
          if as_display_code row \<noteq> ast_DisplayCode asset \<or> as_atomic_scale row \<noteq> ast_AtomicScale asset
          then Inl (invalid_posting ''asset id exists with different definition'')
          else Inr ((), db))"

definition RegisterAsset ::
  "int \<Rightarrow> attempts \<Rightarrow> Asset \<Rightarrow> ledger_db \<Rightarrow> (service_error store_error + unit) \<times> ledger_db" where
  "RegisterAsset m outcomes asset db =
     (if ast_AssetID asset = [] \<or> ast_DisplayCode asset = [] \<or> ast_AtomicScale asset <s 0 \<or> 18 <s ast_AtomicScale asset
      then (Inl (BodyError (invalid_posting ''invalid asset'')), db)
      else RunSerializable m outcomes (registerAssetTx asset) db)"

definition upsertBookInTx :: "Book \<Rightarrow> bool \<Rightarrow> (ledger_db, service_error, unit) body" where
  "upsertBookInTx book requireUnposted db =
     (case Book_Validate book of
        Some e \<Rightarrow> Inl (LedgerError e)
      | None \<Rightarrow>
        let genesis = (if book_GenesisHash book = zero_hash then GenesisHash (book_BookID book) else book_GenesisHash book) in
        if \<not> list_all valid_utf8 [book_BookID book, book_LegalEntityID book, book_Jurisdiction book] then Inl sql_encoding
        else (case dget (ld_books db) (book_BookID book) of
           None \<Rightarrow>
             if length genesis \<noteq> 32 then Inl sql_check
             else Inr ((), db\<lparr>ld_books := dset (book_BookID book)
             \<lparr>bk_legal_entity_id = book_LegalEntityID book, bk_jurisdiction = book_Jurisdiction book,
              bk_next_sequence_no = 1, bk_last_entry_hash = genesis\<rparr> (ld_books db)\<rparr>)
         | Some row \<Rightarrow>
             if bk_legal_entity_id row \<noteq> book_LegalEntityID book \<or> bk_jurisdiction row \<noteq> book_Jurisdiction book
             then Inl (invalid_posting ''book id exists with a different definition'')
             else if requireUnposted \<and> bk_next_sequence_no row \<noteq> 1
             then Inl (invalid_posting ''book id exists and has already posted'')
             else if bk_next_sequence_no row = 1 \<and> bk_last_entry_hash row \<noteq> genesis
             then Inl (invalid_posting ''book id exists with a different genesis'')
             else Inr ((), db)))"

definition CreateBookInTx :: "Book \<Rightarrow> (ledger_db, service_error, unit) body" where
  "CreateBookInTx book = upsertBookInTx book True"

definition EnsureBookInTx :: "Book \<Rightarrow> (ledger_db, service_error, unit) body" where
  "EnsureBookInTx book = upsertBookInTx book False"

definition CreateBook :: "int \<Rightarrow> attempts \<Rightarrow> Book \<Rightarrow> ledger_db \<Rightarrow> (service_error store_error + unit) \<times> ledger_db" where
  "CreateBook m outcomes book = RunSerializable m outcomes (CreateBookInTx book)"

definition EnsureBook :: "int \<Rightarrow> attempts \<Rightarrow> Book \<Rightarrow> ledger_db \<Rightarrow> (service_error store_error + unit) \<times> ledger_db" where
  "EnsureBook m outcomes book = RunSerializable m outcomes (EnsureBookInTx book)"

definition insert_account :: "Account \<Rightarrow> ledger_db \<Rightarrow> service_error + ledger_db option" where
  "insert_account account db =
     (if \<not> list_all valid_utf8 [acc_AccountID account, acc_BookID account, acc_AssetID account, acc_AccountType account, acc_NormalSide account]
      then Inl sql_encoding
      else if dget (ld_accounts db) (acc_AccountID account) \<noteq> None then Inr None
      else if dget (ld_books db) (acc_BookID account) = None \<or> dget (ld_assets db) (acc_AssetID account) = None
      then Inl sql_foreign_key
      else Inr (Some (db\<lparr>ld_accounts := dset (acc_AccountID account) account (ld_accounts db)\<rparr>)))"

definition sameAccount :: "Account \<Rightarrow> Account \<Rightarrow> bool" where
  "sameAccount stored account \<longleftrightarrow>
     acc_AccountID stored = acc_AccountID account \<and> acc_BookID stored = acc_BookID account \<and>
     acc_AssetID stored = acc_AssetID account \<and> acc_AccountType stored = acc_AccountType account \<and>
     acc_NormalSide stored = acc_NormalSide account \<and> acc_EnforceSpendLimit stored = acc_EnforceSpendLimit account \<and>
     Amount_Cmp (acc_CreditLimitAtoms stored) (acc_CreditLimitAtoms account) = 0"

definition read_column :: "amount \<Rightarrow> service_error + amount" where
  "read_column a = (case ParseAmount (Amount_String a) of Inl e \<Rightarrow> Inl (LedgerError e) | Inr v \<Rightarrow> Inr v)"

definition insert_balance :: "string \<Rightarrow> ledger_db \<Rightarrow> ledger_db" where
  "insert_balance key db =
     (case dget (ld_balances db) key of
        None \<Rightarrow> db\<lparr>ld_balances := dset key \<lparr>ba_debit_atoms = 0, ba_credit_atoms = 0, ba_current_balance_atoms = 0,
                 ba_last_sequence_no = 0\<rparr> (ld_balances db)\<rparr>
      | Some _ \<Rightarrow> db)"

definition CreateAccountInTx :: "Account \<Rightarrow> (ledger_db, service_error, unit) body" where
  "CreateAccountInTx account db =
     (case Account_Validate account of
        Some e \<Rightarrow> Inl (LedgerError e)
      | None \<Rightarrow>
        (case insert_account account db of
           Inl e \<Rightarrow> Inl e
         | Inr (Some db') \<Rightarrow> Inr ((), insert_balance (acc_AccountID account) db')
         | Inr None \<Rightarrow>
             (case dget (ld_accounts db) (acc_AccountID account) of
                None \<Rightarrow> Inl ErrNoRows
              | Some stored \<Rightarrow>
                (case read_column (acc_CreditLimitAtoms stored) of
                   Inl e \<Rightarrow> Inl e
                 | Inr limit \<Rightarrow>
                   if \<not> sameAccount (stored\<lparr>acc_CreditLimitAtoms := limit\<rparr>) account
                   then Inl (invalid_posting ''account id exists with different definition'')
                   else Inr ((), insert_balance (acc_AccountID account) db)))))"

definition CreateAccount :: "int \<Rightarrow> attempts \<Rightarrow> Account \<Rightarrow> ledger_db \<Rightarrow> (service_error store_error + unit) \<times> ledger_db" where
  "CreateAccount m outcomes account = RunSerializable m outcomes (CreateAccountInTx account)"

section \<open>Posting\<close>

fun str_contains :: "string \<Rightarrow> string \<Rightarrow> bool" where
  "str_contains [] sub = (sub = [])"
| "str_contains (c # s) sub = (take (length sub) (c # s) = sub \<or> str_contains s sub)"

definition mapDatabaseError :: "service_error \<Rightarrow> service_error" where
  "mapDatabaseError err =
     (case err of
        SqlError code message \<Rightarrow>
          if str_contains message ''available balance plus explicit credit'' \<or>
             str_contains message ''posting exceeds available''
          then LedgerError ErrLedgerInsufficientFunds
          else if str_contains message ''different book'' then LedgerError ErrCrossBook
          else if str_contains message ''asset does not match'' then LedgerError ErrAssetMismatch
          else if code = ''23505'' then LedgerError ErrLedgerEffectConflict
          else err
      | _ \<Rightarrow> err)"

definition sameOptionalReference :: "string option \<Rightarrow> string option \<Rightarrow> bool" where
  "sameOptionalReference stored expected =
     (case expected of None \<Rightarrow> stored = None | Some ref \<Rightarrow> stored = Some ref)"

definition receipt_of :: "bool \<Rightarrow> string \<Rightarrow> transaction_row \<Rightarrow> PostingReceipt" where
  "receipt_of duplicate key row = \<lparr>rc_TransactionID = key, rc_BookID = tr_book_id row, rc_OperationID = tr_operation_id row,
     rc_EffectID = tr_effect_id row, rc_SequenceNo = tr_sequence_no row, rc_EntryHash = tr_entry_hash row,
     rc_Duplicate = duplicate\<rparr>"

definition sameRequest :: "transaction_row \<Rightarrow> PostRequest \<Rightarrow> bool" where
  "sameRequest row request \<longleftrightarrow>
     tr_request_hash row = pr_RequestHash request \<and> tr_book_id row = pr_BookID request \<and>
     tr_operation_id row = pr_OperationID request \<and> tr_transaction_kind row = pr_Kind request \<and>
     tr_posting_rule_version row = pr_PostingRuleVersion request \<and> tr_schema_version row = pr_SchemaVersion request \<and>
     sameOptionalReference (tr_reference_transaction_id row) (pr_ReferenceTransactionID request)"

definition receiptByEffect :: "ledger_db \<Rightarrow> PostRequest \<Rightarrow> service_error + PostingReceipt option" where
  "receiptByEffect db request =
     (case effect_rows (pr_EffectID request) db of
        [] \<Rightarrow> Inr None
      | (key, row) # _ \<Rightarrow>
        if \<not> sameRequest row request then Inl (LedgerError ErrLedgerEffectConflict)
        else if tr_status row \<noteq> POSTED \<or> length (tr_entry_hash row) \<noteq> 32
        then Inl (ledger_message ''ledger: visible effect has no durable POSTED receipt'')
        else Inr (Some (receipt_of True key row)))"

definition draft_row :: "PostRequest \<Rightarrow> bytes \<Rightarrow> bytes \<Rightarrow> nat \<Rightarrow> bytes \<Rightarrow> bytes \<Rightarrow> transaction_row" where
  "draft_row request stored metadata sequence previous entryHash =
     \<lparr>tr_book_id = pr_BookID request, tr_operation_id = pr_OperationID request, tr_effect_id = pr_EffectID request,
      tr_transaction_kind = pr_Kind request, tr_reference_transaction_id = pr_ReferenceTransactionID request,
      tr_posting_rule_version = pr_PostingRuleVersion request, tr_schema_version = pr_SchemaVersion request,
      tr_request_hash = pr_RequestHash request, tr_metadata = stored, tr_canonical_metadata = Some metadata,
      tr_status = DRAFT, tr_sequence_no = sequence, tr_prev_hash = previous, tr_entry_hash = entryHash\<rparr>"

text \<open>From the validated request to the draft and its lines; \<open>Inl\<close> of the result is the receipt of an existing effect.\<close>

definition insertDraft ::
  "(bytes \<Rightarrow> bytes option) \<Rightarrow> PostRequest \<Rightarrow> bytes \<Rightarrow> (ledger_db, service_error, PostingReceipt + PostingReceipt) body" where
  "insertDraft jsonb request metadata db =
     (case dget (ld_books db) (pr_BookID request) of
        None \<Rightarrow> Inl ErrNoRows
      | Some book \<Rightarrow>
        let sequence = bk_next_sequence_no book; previous = bk_last_entry_hash book in
        if length previous \<noteq> 32 then Inl (ledger_message ''ledger: corrupt book chain head'')
        else case HashEntry previous (word_of_nat sequence) request of
          Inl e \<Rightarrow> Inl (LedgerError e)
        | Inr entryHash \<Rightarrow>
          (case jsonb metadata of
             None \<Rightarrow> Inl (mapDatabaseError sql_invalid_json)
           | Some stored \<Rightarrow>
             let row = draft_row request stored metadata sequence previous entryHash in
             (case insert_transaction (pr_TransactionID request) row db of
                Inl e \<Rightarrow> Inl (mapDatabaseError e)
              | Inr None \<Rightarrow>
                  (case receiptByEffect db request of
                     Inl e \<Rightarrow> Inl e
                   | Inr None \<Rightarrow> Inl (ledger_message ''ledger: effect conflict did not expose committed row'')
                   | Inr (Some existing) \<Rightarrow> Inr (Inl existing, db))
              | Inr (Some db) \<Rightarrow>
                  (case insert_lines (pr_TransactionID request) 1 (pr_Lines request) db of
                     Inl e \<Rightarrow> Inl (mapDatabaseError e)
                   | Inr db \<Rightarrow> Inr (Inr (receipt_of False (pr_TransactionID request) row), db)))))"

definition postInTx ::
  "(bytes \<Rightarrow> bytes option) \<Rightarrow> PostRequest \<Rightarrow> bool \<Rightarrow> (ledger_db, service_error, PostingReceipt) body" where
  "postInTx jsonb request paymentDraft db =
     (case PostRequest_Validate request of
        Some e \<Rightarrow> Inl (LedgerError e)
      | None \<Rightarrow>
        (case CanonicalJSON (pr_Metadata request) of
           None \<Rightarrow> Inl (ledger_message ''metadata'')
         | Some metadata \<Rightarrow>
           let request = request\<lparr>pr_Metadata := metadata\<rparr> in
           (case receiptByEffect db request of
              Inl e \<Rightarrow> Inl e
            | Inr (Some existing) \<Rightarrow> Inr (existing, db)
            | Inr None \<Rightarrow>
              (case insertDraft jsonb request metadata db of
                 Inl e \<Rightarrow> Inl e
               | Inr (Inl existing, db) \<Rightarrow> Inr (existing, db)
               | Inr (Inr receipt, db) \<Rightarrow>
                 if paymentDraft then Inr (receipt, db)
                 else case finalize_ledger_transaction jsonb (pr_TransactionID request) db of
                   Inl e \<Rightarrow> Inl (mapDatabaseError e)
                 | Inr (finalized, db) \<Rightarrow>
                     if finalized \<noteq> Some (pr_TransactionID request)
                     then Inl (ledger_message ''ledger: DRAFT to POSTED transition did not affect one row'')
                     else Inr (receipt, db)))))"

definition PostInTx :: "(bytes \<Rightarrow> bytes option) \<Rightarrow> PostRequest \<Rightarrow> (ledger_db, service_error, PostingReceipt) body" where
  "PostInTx jsonb request = postInTx jsonb request False"

definition PreparePaymentInTx :: "(bytes \<Rightarrow> bytes option) \<Rightarrow> PostRequest \<Rightarrow> (ledger_db, service_error, PostingReceipt) body" where
  "PreparePaymentInTx jsonb request = postInTx jsonb request True"

definition map_store_error :: "(service_error \<Rightarrow> service_error) \<Rightarrow> service_error store_error \<Rightarrow> service_error store_error" where
  "map_store_error f err = (case err of BodyError e \<Rightarrow> BodyError (f e) | _ \<Rightarrow> err)"

definition Post ::
  "(bytes \<Rightarrow> bytes option) \<Rightarrow> int \<Rightarrow> attempts \<Rightarrow> PostRequest \<Rightarrow> ledger_db \<Rightarrow>
    (service_error store_error + PostingReceipt) \<times> ledger_db" where
  "Post jsonb m outcomes request db =
     (case PostRequest_Validate request of
        Some e \<Rightarrow> (Inl (BodyError (LedgerError e)), db)
      | None \<Rightarrow>
        (case RunSerializable m outcomes (PostInTx jsonb request) db of
           (Inl e, db) \<Rightarrow> (Inl (map_store_error mapDatabaseError e), db)
         | (Inr receipt, db) \<Rightarrow> (Inr receipt, db)))"

section \<open>Reading\<close>

text \<open>\<^verbatim>\<open>if errors.Is(err, pgx.ErrNoRows)\<close>.\<close>

definition no_rows_as :: "ledger_error \<Rightarrow> service_error store_error \<Rightarrow> service_error store_error" where
  "no_rows_as e = map_store_error (\<lambda>err. if err = ErrNoRows then LedgerError e else err)"

definition balanceTx :: "string \<Rightarrow> (ledger_db, service_error, Balance) body" where
  "balanceTx key db =
     (case (dget (ld_balances db) key, dget (ld_accounts db) key) of
        (Some b, Some account) \<Rightarrow>
          (case read_column (ba_debit_atoms b) of Inl e \<Rightarrow> Inl e | Inr debit \<Rightarrow>
          (case read_column (ba_credit_atoms b) of Inl e \<Rightarrow> Inl e | Inr credit \<Rightarrow>
          (case read_column (ba_current_balance_atoms b) of Inl e \<Rightarrow> Inl e | Inr current \<Rightarrow>
          (case read_column (acc_CreditLimitAtoms account) of Inl e \<Rightarrow> Inl e | Inr limit \<Rightarrow>
             Inr (\<lparr>bl_AccountID = key, bl_DebitAtoms = debit, bl_CreditAtoms = credit, bl_CurrentBalanceAtoms = current,
                   bl_CreditLimitAtoms = limit, bl_LastSequenceNo = ba_last_sequence_no b\<rparr>, db)))))
      | _ \<Rightarrow> Inl ErrNoRows)"

definition Balance_of ::
  "int \<Rightarrow> attempts \<Rightarrow> string \<Rightarrow> ledger_db \<Rightarrow> (service_error store_error + Balance) \<times> ledger_db" where
  "Balance_of m outcomes key db =
     (case RunSerializable m outcomes (balanceTx key) db of
        (Inl e, db) \<Rightarrow> (Inl (no_rows_as ErrAccountNotFound e), db)
      | (Inr b, db) \<Rightarrow> (Inr b, db))"

definition posted_sum :: "Side \<Rightarrow> string \<Rightarrow> ledger_db \<Rightarrow> int" where
  "posted_sum side account db =
     dict_sum (\<lambda>key row. if tr_status row = POSTED then account_side_total side account (map snd (raw_lines key db)) else 0)
       (ld_transactions db)"

definition foldBalanceTx :: "string \<Rightarrow> (ledger_db, service_error, amount) body" where
  "foldBalanceTx key db =
     (case dget (ld_accounts db) key of
        None \<Rightarrow> Inl ErrNoRows
      | Some account \<Rightarrow>
        let value = normal_amount (acc_NormalSide account) (posted_sum Debit key db) (posted_sum Credit key db) in
        if \<not> fitsDecimal38 value then Inl sql_range
        else case read_column value of Inl e \<Rightarrow> Inl e | Inr folded \<Rightarrow> Inr (folded, db))"

definition FoldBalance ::
  "int \<Rightarrow> attempts \<Rightarrow> string \<Rightarrow> ledger_db \<Rightarrow> (service_error store_error + amount) \<times> ledger_db" where
  "FoldBalance m outcomes key db =
     (case RunSerializable m outcomes (foldBalanceTx key) db of
        (Inl e, db) \<Rightarrow> (Inl (no_rows_as ErrAccountNotFound e), db)
      | (Inr b, db) \<Rightarrow> (Inr b, db))"

fun read_lines :: "(nat \<times> Line) list \<Rightarrow> service_error + Line list" where
  "read_lines [] = Inr []"
| "read_lines ((no, l) # ls) =
     (case read_column (line_AmountAtoms l) of
        Inl e \<Rightarrow> Inl e
      | Inr a \<Rightarrow> (case read_lines ls of Inl e \<Rightarrow> Inl e | Inr rest \<Rightarrow> Inr (l\<lparr>line_AmountAtoms := a\<rparr> # rest)))"

definition row_transaction :: "string \<Rightarrow> transaction_row \<Rightarrow> bytes \<Rightarrow> Line list \<Rightarrow> Transaction" where
  "row_transaction key row metadata ls =
     \<lparr>pr_TransactionID = key, pr_BookID = tr_book_id row, pr_OperationID = tr_operation_id row,
      pr_EffectID = tr_effect_id row, pr_Kind = tr_transaction_kind row,
      pr_ReferenceTransactionID = tr_reference_transaction_id row, pr_PostingRuleVersion = tr_posting_rule_version row,
      pr_SchemaVersion = tr_schema_version row, pr_RequestHash = tr_request_hash row, pr_Metadata = metadata,
      pr_Lines = ls, tx_SequenceNo = word_of_nat (tr_sequence_no row), tx_PrevHash = tr_prev_hash row,
      tx_EntryHash = tr_entry_hash row, tx_Status = tr_status row\<rparr>"

definition loadTransactionTx :: "string \<Rightarrow> (ledger_db, service_error, Transaction) body" where
  "loadTransactionTx key db =
     (case dget (ld_transactions db) key of
        None \<Rightarrow> Inl ErrNoRows
      | Some row \<Rightarrow>
        if length (tr_request_hash row) \<noteq> 32 \<or> length (tr_prev_hash row) \<noteq> 32 \<or> length (tr_entry_hash row) \<noteq> 32
        then Inl (ledger_message ''ledger: corrupt hash length'')
        else case read_lines (ordered_lines key db) of
          Inl e \<Rightarrow> Inl e
        | Inr ls \<Rightarrow> Inr (row_transaction key row (tr_metadata row) ls, db))"

definition LoadTransaction ::
  "int \<Rightarrow> attempts \<Rightarrow> string \<Rightarrow> ledger_db \<Rightarrow> (service_error store_error + Transaction) \<times> ledger_db" where
  "LoadTransaction m outcomes key db =
     (case RunSerializable m outcomes (loadTransactionTx key) db of
        (Inl e, db) \<Rightarrow> (Inl (no_rows_as ErrTransactionNotFound e), db)
      | (Inr t, db) \<Rightarrow> (Inr t, db))"

end
