(* ===== verification/Ledger_Invariant.thy ===== *)
theory Ledger_Invariant
  imports Ledger_Service
begin

text \<open>
  What every run of the ledger service keeps: stored entries hash to their digest, the posted entries of a book form one chain up to
  its head, balances are the fold of the posted lines, and no enforced account is below its credit limit.
\<close>

section \<open>The invariant\<close>

definition line_in_book :: "ledger_db \<Rightarrow> string \<Rightarrow> Line \<Rightarrow> bool" where
  "line_in_book db book l \<longleftrightarrow>
     (\<exists>a. dget (ld_accounts db) (line_AccountID l) = Some a \<and> acc_BookID a = book \<and> acc_AssetID a = line_AssetID l)"

text \<open>A stored entry: its lines are numbered from one, its metadata is canonical and its hash is that of the package.\<close>

definition entry_ok :: "(bytes \<Rightarrow> bytes option) \<Rightarrow> ledger_db \<Rightarrow> string \<Rightarrow> transaction_row \<Rightarrow> bool" where
  "entry_ok jsonb db key row \<longleftrightarrow>
     (\<exists>m ls. tr_canonical_metadata row = Some m \<and> CanonicalJSON m = Some m \<and> jsonb m = Some (tr_metadata row) \<and>
        raw_lines key db = enumerate 1 ls \<and> list_all (line_in_book db (tr_book_id row)) ls \<and>
        HashEntry (tr_prev_hash row) (word_of_nat (tr_sequence_no row)) (row_transaction key row m ls) = Inr (tr_entry_hash row)) \<and>
     length (tr_prev_hash row) = 32 \<and> length (tr_request_hash row) = 32 \<and> length (tr_entry_hash row) = 32 \<and>
     0 < tr_sequence_no row \<and> tr_sequence_no row \<le> maxInt8 \<and> tr_status row \<in> {DRAFT, POSTED}"

definition is_posted :: "ledger_db \<Rightarrow> string \<Rightarrow> nat \<Rightarrow> string \<Rightarrow> transaction_row \<Rightarrow> bool" where
  "is_posted db book no key row \<longleftrightarrow> dget (ld_transactions db) key = Some row \<and> tr_status row = POSTED \<and>
     tr_book_id row = book \<and> tr_sequence_no row = no"

text \<open>The posted entries of a book: one for each number below the next one, chained by their hashes up to the head.\<close>

definition chain_ok :: "ledger_db \<Rightarrow> string \<Rightarrow> book_row \<Rightarrow> bool" where
  "chain_ok db book head \<longleftrightarrow>
     0 < bk_next_sequence_no head \<and> bk_next_sequence_no head \<le> maxInt8 \<and> length (bk_last_entry_hash head) = 32 \<and>
     (\<forall>no. (\<exists>key row. is_posted db book no key row) \<longleftrightarrow> 0 < no \<and> no < bk_next_sequence_no head) \<and>
     (\<forall>no key row key' row'. is_posted db book no key row \<longrightarrow> is_posted db book no key' row' \<longrightarrow> key = key') \<and>
     (\<forall>no key row. is_posted db book no key row \<longrightarrow> Suc no = bk_next_sequence_no head \<longrightarrow> tr_entry_hash row = bk_last_entry_hash head) \<and>
     (\<forall>no key row key' row'. is_posted db book no key row \<longrightarrow> is_posted db book (Suc no) key' row' \<longrightarrow>
        tr_prev_hash row' = tr_entry_hash row)"

definition balance_ok :: "ledger_db \<Rightarrow> string \<Rightarrow> Account \<Rightarrow> bool" where
  "balance_ok db key a \<longleftrightarrow>
     (\<exists>b. dget (ld_balances db) key = Some b \<and>
        ba_debit_atoms b = posted_sum Debit key db \<and> ba_credit_atoms b = posted_sum Credit key db \<and>
        ba_current_balance_atoms b = normal_amount (acc_NormalSide a) (ba_debit_atoms b) (ba_credit_atoms b) \<and>
        fitsDecimal38 (ba_debit_atoms b) \<and> fitsDecimal38 (ba_credit_atoms b) \<and> fitsDecimal38 (ba_current_balance_atoms b) \<and>
        \<not> over_limit db key)"

definition asset_imbalance :: "string \<Rightarrow> ledger_db \<Rightarrow> int" where
  "asset_imbalance asset db =
     dict_sum (\<lambda>key b. case dget (ld_accounts db) key of
         None \<Rightarrow> 0
       | Some a \<Rightarrow> if acc_AssetID a = asset then ba_debit_atoms b - ba_credit_atoms b else 0) (ld_balances db)"

definition ledger_inv :: "(bytes \<Rightarrow> bytes option) \<Rightarrow> ledger_db \<Rightarrow> bool" where
  "ledger_inv jsonb db \<longleftrightarrow>
     (\<forall>key row. dget (ld_transactions db) key = Some row \<longrightarrow>
        entry_ok jsonb db key row \<and> dget (ld_books db) (tr_book_id row) \<noteq> None) \<and>
     (\<forall>key. dget (ld_transactions db) key = None \<longrightarrow> raw_lines key db = []) \<and>
     (\<forall>key row key' row'. dget (ld_transactions db) key = Some row \<longrightarrow> dget (ld_transactions db) key' = Some row' \<longrightarrow>
        tr_effect_id row = tr_effect_id row' \<longrightarrow> key = key') \<and>
     (\<forall>book head. dget (ld_books db) book = Some head \<longrightarrow> chain_ok db book head) \<and>
     (\<forall>key a. dget (ld_accounts db) key = Some a \<longrightarrow>
        acc_AccountID a = key \<and> Account_Validate a = None \<and> balance_ok db key a) \<and>
     (\<forall>key. dget (ld_accounts db) key = None \<longrightarrow> dget (ld_balances db) key = None) \<and>
     (\<forall>asset. asset_imbalance asset db = 0)"

lemma DRAFT_POSTED [simp]: "DRAFT \<noteq> POSTED" "POSTED \<noteq> DRAFT"
  by (simp_all add: DRAFT_def POSTED_def)

section \<open>Stored requests\<close>

lemma truncate_simps:
  "PostRequest_Validate (PostRequest.truncate r) = PostRequest_Validate r"
  "canonical_entry p n (PostRequest.truncate r) m = canonical_entry p n r m"
  "pr_Metadata (PostRequest.truncate r) = pr_Metadata r"
  unfolding PostRequest_Validate_def canonical_entry_def PostRequest.truncate_def PostRequest.select_convs
  by (rule refl)+

lemma HashEntry_truncate: "HashEntry p n (PostRequest.truncate r) = HashEntry p n r"
  unfolding HashEntry_def truncate_simps ..

lemma row_transaction_draft:
  "pr_Metadata r = m \<Longrightarrow>
   PostRequest.truncate (row_transaction (pr_TransactionID r) (draft_row r v m n p h) m (pr_Lines r)) = r"
  by (simp add: row_transaction_def draft_row_def PostRequest.truncate_def)

lemma HashEntry_draft:
  "pr_Metadata r = m \<Longrightarrow>
   HashEntry p n (row_transaction (pr_TransactionID r) (draft_row r v m k q h) m (pr_Lines r)) = HashEntry p n r"
  by (metis HashEntry_truncate row_transaction_draft)

section \<open>Inserting drafts\<close>

lemma effect_rows_Nil: "effect_rows e db = [] \<longleftrightarrow> (\<forall>key row. dget (ld_transactions db) key = Some row \<longrightarrow> tr_effect_id row \<noteq> e)"
  unfolding effect_rows_def filter_empty_conv split_paired_Ball_Sigma
  by (simp add: split_paired_all mem_entries_iff Ball_def)

lemma insert_transaction_Some:
  assumes "insert_transaction key row db = Inr (Some db')"
  shows "db' = db\<lparr>ld_transactions := dset key row (ld_transactions db)\<rparr>" "dget (ld_transactions db) key = None"
    "\<forall>k r. dget (ld_transactions db) k = Some r \<longrightarrow> tr_effect_id r \<noteq> tr_effect_id row"
    "dget (ld_books db) (tr_book_id row) \<noteq> None" "tr_status row = DRAFT" "length (tr_request_hash row) = 32"
    "length (tr_entry_hash row) = 32" "length (tr_prev_hash row) = 32"
  using assms
  by (auto simp: insert_transaction_def enforce_ledger_transaction_insert_def effect_rows_Nil split: option.splits if_splits)

lemma insert_line_Inr:
  assumes "insert_line key no l db = Inr db'"
  shows "db' = db\<lparr>ld_lines := dset key (raw_lines key db @ [(no, l)]) (ld_lines db)\<rparr>"
    "\<exists>row. dget (ld_transactions db) key = Some row \<and> tr_status row = DRAFT \<and> line_in_book db (tr_book_id row) l"
  using assms by (auto simp: insert_line_def enforce_ledger_line_insert_def line_in_book_def split: option.splits if_splits)

lemma raw_lines_update [simp]:
  "raw_lines k (db\<lparr>ld_lines := dset key ls (ld_lines db)\<rparr>) = (if k = key then ls else raw_lines k db)"
  "raw_lines k (db\<lparr>ld_transactions := t\<rparr>) = raw_lines k db" "raw_lines k (db\<lparr>ld_books := b\<rparr>) = raw_lines k db"
  "raw_lines k (db\<lparr>ld_balances := c\<rparr>) = raw_lines k db" "raw_lines k (db\<lparr>ld_references := f\<rparr>) = raw_lines k db"
  "raw_lines k (db\<lparr>ld_accounts := a\<rparr>) = raw_lines k db" "raw_lines k (db\<lparr>ld_assets := s\<rparr>) = raw_lines k db"
  by (simp_all add: raw_lines_def)

lemma insert_lines_Inr:
  assumes "insert_lines key no ls db = Inr db'" "dget (ld_transactions db) key = Some row"
  shows "\<exists>L. db' = db\<lparr>ld_lines := L\<rparr> \<and> raw_lines key db' = raw_lines key db @ enumerate no ls \<and>
    (\<forall>k. k \<noteq> key \<longrightarrow> raw_lines k db' = raw_lines k db) \<and> list_all (line_in_book db (tr_book_id row)) ls"
  using assms
proof (induction ls arbitrary: no db)
  case Nil
  then show ?case by (intro exI [of _ "ld_lines db"]) simp
next
  case (Cons l ls)
  obtain db1 where 1: "insert_line key no l db = Inr db1" "insert_lines key (Suc no) ls db1 = Inr db'"
    using Cons.prems(1) by (auto split: sum.splits)
  note db1 = insert_line_Inr [OF 1(1)]
  have row: "dget (ld_transactions db1) key = Some row" using Cons.prems(2) by (simp add: db1(1))
  have same: "line_in_book db1 = line_in_book db" by (intro ext) (simp add: line_in_book_def db1(1))
  obtain L where L: "db' = db1\<lparr>ld_lines := L\<rparr>" "raw_lines key db' = raw_lines key db1 @ enumerate (Suc no) ls"
    "\<forall>k. k \<noteq> key \<longrightarrow> raw_lines k db' = raw_lines k db1" "list_all (line_in_book db1 (tr_book_id row)) ls"
    using Cons.IH [OF 1(2) row] by blast
  have "db' = db\<lparr>ld_lines := L\<rparr>" using L(1) by (simp add: db1(1))
  moreover have "raw_lines key db' = raw_lines key db @ enumerate no (l # ls)" using L(2) by (simp add: db1(1))
  moreover have "\<forall>k. k \<noteq> key \<longrightarrow> raw_lines k db' = raw_lines k db" using L(3) by (simp add: db1(1))
  moreover have "list_all (line_in_book db (tr_book_id row)) (l # ls)"
    using L(4) db1(2) Cons.prems(2) by (auto simp: same)
  ultimately show ?case by blast
qed

section \<open>The parts of the invariant\<close>

lemma ledger_invI:
  assumes "\<And>key row. dget (ld_transactions db) key = Some row \<Longrightarrow> entry_ok jsonb db key row"
    and "\<And>key row. dget (ld_transactions db) key = Some row \<Longrightarrow> dget (ld_books db) (tr_book_id row) \<noteq> None"
    and "\<And>key. dget (ld_transactions db) key = None \<Longrightarrow> raw_lines key db = []"
    and "\<And>key row key' row'. dget (ld_transactions db) key = Some row \<Longrightarrow> dget (ld_transactions db) key' = Some row' \<Longrightarrow>
        tr_effect_id row = tr_effect_id row' \<Longrightarrow> key = key'"
    and "\<And>book head. dget (ld_books db) book = Some head \<Longrightarrow> chain_ok db book head"
    and "\<And>key a. dget (ld_accounts db) key = Some a \<Longrightarrow> acc_AccountID a = key \<and> Account_Validate a = None"
    and "\<And>key a. dget (ld_accounts db) key = Some a \<Longrightarrow> balance_ok db key a"
    and "\<And>key. dget (ld_accounts db) key = None \<Longrightarrow> dget (ld_balances db) key = None"
    and "\<And>asset. asset_imbalance asset db = 0"
  shows "ledger_inv jsonb db"
  unfolding ledger_inv_def by (intro conjI allI impI) (use assms in blast)+

lemma ledger_invD:
  assumes "ledger_inv jsonb db"
  shows inv_entry: "dget (ld_transactions db) key = Some row \<Longrightarrow> entry_ok jsonb db key row"
    and inv_book: "dget (ld_transactions db) key = Some row \<Longrightarrow> dget (ld_books db) (tr_book_id row) \<noteq> None"
    and inv_no_lines: "dget (ld_transactions db) key = None \<Longrightarrow> raw_lines key db = []"
    and inv_effect: "dget (ld_transactions db) key = Some row \<Longrightarrow> dget (ld_transactions db) key' = Some row' \<Longrightarrow>
        tr_effect_id row = tr_effect_id row' \<Longrightarrow> key = key'"
    and inv_chain: "dget (ld_books db) book = Some head \<Longrightarrow> chain_ok db book head"
    and inv_account: "dget (ld_accounts db) key = Some a \<Longrightarrow> acc_AccountID a = key \<and> Account_Validate a = None"
    and inv_balance: "dget (ld_accounts db) key = Some a \<Longrightarrow> balance_ok db key a"
    and inv_no_balance: "dget (ld_accounts db) key = None \<Longrightarrow> dget (ld_balances db) key = None"
    and inv_imbalance: "asset_imbalance asset db = 0"
  using assms unfolding ledger_inv_def by blast+

lemma dict_sum_cong: "(\<And>k v. dget m k = Some v \<Longrightarrow> f k v = g k v) \<Longrightarrow> dict_sum f m = dict_sum g m"
  unfolding dict_sum_def by (intro arg_cong [where f = sum_list] map_cong) (auto simp: mem_entries_iff)

text \<open>What the invariant of books and balances reads of the journal.\<close>

lemma chain_ok_cong: "is_posted db' = is_posted db \<Longrightarrow> chain_ok db' = chain_ok db"
  by (intro ext) (simp add: chain_ok_def)

lemma balance_ok_cong:
  "ld_balances db' = ld_balances db \<Longrightarrow> ld_accounts db' = ld_accounts db \<Longrightarrow>
   (\<And>side key. posted_sum side key db' = posted_sum side key db) \<Longrightarrow> balance_ok db' = balance_ok db"
  by (intro ext) (simp add: balance_ok_def over_limit_def)

lemma asset_imbalance_cong:
  "ld_balances db' = ld_balances db \<Longrightarrow> ld_accounts db' = ld_accounts db \<Longrightarrow> asset_imbalance asset db' = asset_imbalance asset db"
  by (simp add: asset_imbalance_def)

lemma line_in_book_cong: "ld_accounts db' = ld_accounts db \<Longrightarrow> line_in_book db' = line_in_book db"
  by (intro ext) (simp add: line_in_book_def)

lemma entry_ok_cong:
  "ld_accounts db' = ld_accounts db \<Longrightarrow> raw_lines key db' = raw_lines key db \<Longrightarrow>
   entry_ok jsonb db' key row = entry_ok jsonb db key row"
  by (simp add: entry_ok_def line_in_book_cong [of db' db])

lemma draft_inv:
  assumes inv: "ledger_inv jsonb db" and fresh: "dget (ld_transactions db) key = None"
    and row: "tr_status row = DRAFT" "\<forall>k r. dget (ld_transactions db) k = Some r \<longrightarrow> tr_effect_id r \<noteq> tr_effect_id row"
      "dget (ld_books db) (tr_book_id row) \<noteq> None" "entry_ok jsonb db' key row"
    and db': "db' = db\<lparr>ld_transactions := dset key row (ld_transactions db), ld_lines := L\<rparr>"
    and rest: "\<And>k. k \<noteq> key \<Longrightarrow> raw_lines k db' = raw_lines k db"
  shows "ledger_inv jsonb db'"
proof -
  have posted: "is_posted db' = is_posted db"
    by (intro ext) (use fresh row(1) in \<open>auto simp: is_posted_def db' DAList.lookup_update\<close>)
  have tx: "ld_transactions db' = dset key row (ld_transactions db)" by (simp add: db')
  have sums: "posted_sum side k db' = posted_sum side k db" for side k
  proof -
    have "dict_sum (\<lambda>i r. if tr_status r = POSTED then account_side_total side k (map snd (raw_lines i db')) else 0) (ld_transactions db)
        = dict_sum (\<lambda>i r. if tr_status r = POSTED then account_side_total side k (map snd (raw_lines i db)) else 0) (ld_transactions db)"
    proof (rule dict_sum_cong)
      fix i r
      assume "dget (ld_transactions db) i = Some r"
      then have "i \<noteq> key" using fresh by auto
      then show "(if tr_status r = POSTED then account_side_total side k (map snd (raw_lines i db')) else 0) =
          (if tr_status r = POSTED then account_side_total side k (map snd (raw_lines i db)) else 0)"
        by (subst rest) simp_all
    qed
    then show ?thesis
      by (simp add: posted_sum_def tx dict_sum_fresh [OF fresh] row(1))
  qed
  show ?thesis
  proof (rule ledger_invI, goal_cases)
    case (1 k r)
    then show ?case
      using row(4) inv_entry [OF inv, of k r] entry_ok_cong [of db' db k jsonb r] rest [of k]
      by (cases "k = key") (auto simp: db' DAList.lookup_update)
  next
    case (2 k r)
    then show ?case using row(3) inv_book [OF inv, of k r] by (auto simp: db' DAList.lookup_update split: if_splits)
  next
    case (3 k)
    then have "k \<noteq> key" "dget (ld_transactions db) k = None" by (auto simp: db' DAList.lookup_update split: if_splits)
    then show ?case using rest inv_no_lines [OF inv] by simp
  next
    case (4 k r k' r')
    then show ?case using row(2) inv_effect [OF inv, of k r k' r'] by (auto simp: db' DAList.lookup_update split: if_splits)
  next
    case (5 book head)
    then show ?case using inv_chain [OF inv, of book head] chain_ok_cong [OF posted] by (simp add: db')
  next
    case (7 k a)
    then show ?case using inv_balance [OF inv, of k a] balance_ok_cong [of db' db] sums by (simp add: db')
  next
    case (9 asset)
    then show ?case using inv_imbalance [OF inv] asset_imbalance_cong [of db' db asset] by (simp add: db')
  qed (use inv_account [OF inv] inv_no_balance [OF inv] in \<open>auto simp: db'\<close>)
qed

lemma insertDraft_cases:
  assumes "insertDraft jsonb request metadata db = Inr (r, db')"
  obtains (existing) rc where "r = Inl rc" "db' = db" "receiptByEffect db request = Inr (Some rc)"
  | (draft) head stored entryHash db1 where
      "dget (ld_books db) (pr_BookID request) = Some head" "length (bk_last_entry_hash head) = 32"
      "HashEntry (bk_last_entry_hash head) (word_of_nat (bk_next_sequence_no head)) request = Inr entryHash"
      "jsonb metadata = Some stored"
      "insert_transaction (pr_TransactionID request)
         (draft_row request stored metadata (bk_next_sequence_no head) (bk_last_entry_hash head) entryHash) db = Inr (Some db1)"
      "insert_lines (pr_TransactionID request) 1 (pr_Lines request) db1 = Inr db'"
      "r = Inr (receipt_of False (pr_TransactionID request)
         (draft_row request stored metadata (bk_next_sequence_no head) (bk_last_entry_hash head) entryHash))"
  using assms unfolding insertDraft_def Let_def by (auto split: option.splits sum.splits if_splits)

lemma draft_row_simps [simp]:
  "tr_book_id (draft_row r v m n p h) = pr_BookID r" "tr_effect_id (draft_row r v m n p h) = pr_EffectID r"
  "tr_status (draft_row r v m n p h) = DRAFT" "tr_sequence_no (draft_row r v m n p h) = n"
  "tr_prev_hash (draft_row r v m n p h) = p" "tr_entry_hash (draft_row r v m n p h) = h"
  "tr_request_hash (draft_row r v m n p h) = pr_RequestHash r" "tr_metadata (draft_row r v m n p h) = v"
  "tr_canonical_metadata (draft_row r v m n p h) = Some m"
  by (simp_all add: draft_row_def)

lemma HashEntry_sequence: "HashEntry p n r = Inr h \<Longrightarrow> 0 <s n"
  by (simp add: HashEntry_def split: if_splits)

lemma insertDraft_inv:
  assumes inv: "ledger_inv jsonb db" and run: "insertDraft jsonb request metadata db = Inr (r, db')"
    and meta: "pr_Metadata request = metadata" "CanonicalJSON metadata = Some metadata"
  shows "ledger_inv jsonb db'"
  using run
proof (cases rule: insertDraft_cases)
  case existing
  then show ?thesis using inv by simp
next
  case (draft head stored entryHash db1)
  let ?row = "draft_row request stored metadata (bk_next_sequence_no head) (bk_last_entry_hash head) entryHash"
  let ?key = "pr_TransactionID request"
  note new = insert_transaction_Some [OF draft(5)]
  have row1: "dget (ld_transactions db1) ?key = Some ?row" by (simp add: new(1) DAList.lookup_update)
  obtain L where L: "db' = db1\<lparr>ld_lines := L\<rparr>" "raw_lines ?key db' = raw_lines ?key db1 @ enumerate 1 (pr_Lines request)"
    "\<forall>k. k \<noteq> ?key \<longrightarrow> raw_lines k db' = raw_lines k db1"
    "list_all (line_in_book db1 (tr_book_id ?row)) (pr_Lines request)"
    using insert_lines_Inr [OF draft(6) row1] by blast
  have db': "db' = db\<lparr>ld_transactions := dset ?key ?row (ld_transactions db), ld_lines := L\<rparr>"
    using L(1) by (simp add: new(1))
  have lines: "raw_lines ?key db' = enumerate 1 (pr_Lines request)"
    using L(2) inv_no_lines [OF inv new(2)] by (simp add: new(1))
  have chain: "chain_ok db (pr_BookID request) head" using inv_chain [OF inv draft(1)] .
  have ok: "entry_ok jsonb db' ?key ?row"
    unfolding entry_ok_def
  proof (intro conjI exI [of _ metadata] exI [of _ "pr_Lines request"])
    show "list_all (line_in_book db' (tr_book_id ?row)) (pr_Lines request)"
      using L(4) line_in_book_cong [of db' db1] L(1) by simp
    show "HashEntry (tr_prev_hash ?row) (word_of_nat (tr_sequence_no ?row))
        (row_transaction ?key ?row metadata (pr_Lines request)) = Inr (tr_entry_hash ?row)"
      using draft(3) by (simp add: HashEntry_draft [OF meta(1)])
  qed (use meta(2) draft(2,4) new chain lines in \<open>simp_all add: chain_ok_def\<close>)
  show ?thesis
    by (rule draft_inv [OF inv new(2) _ new(3,4) ok db']) (use L(3) in \<open>simp_all add: new(1)\<close>)
qed

section \<open>Balances\<close>

definition column :: "(balance_row \<Rightarrow> int) \<Rightarrow> ledger_db \<Rightarrow> string \<Rightarrow> int" where
  "column f db key = (case dget (ld_balances db) key of None \<Rightarrow> 0 | Some b \<Rightarrow> f b)"

text \<open>The row after the lines are added to what was there.\<close>

definition added_row :: "Line list \<Rightarrow> ledger_db \<Rightarrow> string \<Rightarrow> Account \<Rightarrow> balance_row \<Rightarrow> bool" where
  "added_row ls db key a b \<longleftrightarrow>
     ba_debit_atoms b = column ba_debit_atoms db key + account_side_total Debit key ls \<and>
     ba_credit_atoms b = column ba_credit_atoms db key + account_side_total Credit key ls \<and>
     ba_current_balance_atoms b = column ba_current_balance_atoms db key +
       normal_amount (acc_NormalSide a) (account_side_total Debit key ls) (account_side_total Credit key ls) \<and>
     fitsDecimal38 (ba_debit_atoms b) \<and> fitsDecimal38 (ba_credit_atoms b) \<and> fitsDecimal38 (ba_current_balance_atoms b)"

lemma upsert_balance_Inr:
  assumes "upsert_balance no ls key a db = Inr db'"
  shows "\<exists>b. db' = db\<lparr>ld_balances := dset key b (ld_balances db)\<rparr> \<and> added_row ls db key a b"
  using assms by (auto simp: upsert_balance_def Let_def added_row_def column_def split: if_splits option.splits)

definition line_imbalance :: "string \<Rightarrow> ledger_db \<Rightarrow> Line list \<Rightarrow> string \<Rightarrow> int" where
  "line_imbalance asset db ls key =
     (case dget (ld_accounts db) key of
        None \<Rightarrow> 0
      | Some a \<Rightarrow> if acc_AssetID a = asset then account_side_total Debit key ls - account_side_total Credit key ls else 0)"

lemma asset_imbalance_upsert:
  assumes "dget (ld_accounts db) key = Some a" "added_row ls db key a b"
  shows "asset_imbalance asset (db\<lparr>ld_balances := dset key b (ld_balances db)\<rparr>) = asset_imbalance asset db + line_imbalance asset db ls key"
  using assms by (simp add: asset_imbalance_def dict_sum_dset line_imbalance_def added_row_def column_def split: option.splits)

lemma upsert_balances_Inr:
  assumes "upsert_balances no ls ids db = Inr db'" "distinct ids"
  shows "\<exists>B. db' = db\<lparr>ld_balances := B\<rparr> \<and>
    (\<forall>k. k \<notin> set ids \<or> dget (ld_accounts db) k = None \<longrightarrow> dget B k = dget (ld_balances db) k) \<and>
    (\<forall>k a. k \<in> set ids \<longrightarrow> dget (ld_accounts db) k = Some a \<longrightarrow> (\<exists>b. dget B k = Some b \<and> added_row ls db k a b)) \<and>
    (\<forall>asset. asset_imbalance asset db' = asset_imbalance asset db + (\<Sum>k \<in> set ids. line_imbalance asset db ls k))"
  using assms
proof (induction ids arbitrary: db)
  case Nil
  then show ?case by (intro exI [of _ "ld_balances db"]) simp
next
  case (Cons i ids)
  show ?case
  proof (cases "dget (ld_accounts db) i")
    case None
    then obtain B where "db' = db\<lparr>ld_balances := B\<rparr>"
      "\<forall>k. k \<notin> set ids \<or> dget (ld_accounts db) k = None \<longrightarrow> dget B k = dget (ld_balances db) k"
      "\<forall>k a. k \<in> set ids \<longrightarrow> dget (ld_accounts db) k = Some a \<longrightarrow> (\<exists>b. dget B k = Some b \<and> added_row ls db k a b)"
      "\<forall>asset. asset_imbalance asset db' = asset_imbalance asset db + (\<Sum>k \<in> set ids. line_imbalance asset db ls k)"
      using Cons.IH [of db] Cons.prems by auto
    moreover have "line_imbalance asset db ls i = 0" for asset using None by (simp add: line_imbalance_def)
    ultimately show ?thesis using None Cons.prems(2) by (intro exI [of _ B]) auto
  next
    case (Some a)
    then obtain db1 where db1: "upsert_balance no ls i a db = Inr db1" "upsert_balances no ls ids db1 = Inr db'"
      using Cons.prems(1) by (auto split: sum.splits)
    obtain b where b: "db1 = db\<lparr>ld_balances := dset i b (ld_balances db)\<rparr>" "added_row ls db i a b"
      using upsert_balance_Inr [OF db1(1)] by blast
    obtain B where B: "db' = db1\<lparr>ld_balances := B\<rparr>"
      "\<And>k. k \<notin> set ids \<or> dget (ld_accounts db1) k = None \<Longrightarrow> dget B k = dget (ld_balances db1) k"
      "\<And>k a. k \<in> set ids \<Longrightarrow> dget (ld_accounts db1) k = Some a \<Longrightarrow> \<exists>b. dget B k = Some b \<and> added_row ls db1 k a b"
      "\<And>asset. asset_imbalance asset db' = asset_imbalance asset db1 + (\<Sum>k \<in> set ids. line_imbalance asset db1 ls k)"
      using Cons.IH [OF db1(2)] Cons.prems(2) by auto
    have row: "added_row ls db1 k = added_row ls db k" if "k \<noteq> i" for k
      using that by (intro ext) (simp add: added_row_def column_def b(1) DAList.lookup_update)
    have imb: "line_imbalance asset db1 ls = line_imbalance asset db ls" for asset
      by (intro ext) (simp add: line_imbalance_def b(1))
    show ?thesis
    proof (intro exI [of _ B] conjI allI impI)
      show "db' = db\<lparr>ld_balances := B\<rparr>" using B(1) by (simp add: b(1))
      fix k
      assume "k \<notin> set (i # ids) \<or> dget (ld_accounts db) k = None"
      then show "dget B k = dget (ld_balances db) k" using B(2) [of k] Some by (auto simp: b(1) DAList.lookup_update)
    next
      fix k a'
      assume k: "k \<in> set (i # ids)" "dget (ld_accounts db) k = Some a'"
      show "\<exists>b. dget B k = Some b \<and> added_row ls db k a' b"
      proof (cases "k = i")
        case True
        then show ?thesis using B(2) [of k] Cons.prems(2) k Some b by (simp add: DAList.lookup_update)
      next
        case False
        then show ?thesis using B(3) [of k a'] k row by (simp add: b(1))
      qed
    next
      fix asset
      show "asset_imbalance asset db' = asset_imbalance asset db + (\<Sum>k \<in> set (i # ids). line_imbalance asset db ls k)"
        using B(4) [of asset, unfolded imb] asset_imbalance_upsert [OF Some b(2), of asset, folded b(1)] Cons.prems(2) by simp
    qed
  qed
qed

text \<open>Grouping the lines by account loses none of them.\<close>

lemma account_side_total_simps [simp]:
  "account_side_total s k [] = 0"
  "account_side_total s k (l # ls) = (if line_AccountID l = k \<and> line_Side l = s then line_AmountAtoms l else 0) + account_side_total s k ls"
  by (simp_all add: account_side_total_def)

lemma account_side_total_untouched: "k \<notin> line_AccountID ` set ls \<Longrightarrow> account_side_total s k ls = 0"
  by (induction ls) auto

lemma sum_by_account:
  assumes "finite S" "line_AccountID ` set ls \<subseteq> S"
    "\<forall>l \<in> set ls. P (line_AccountID l) \<longleftrightarrow> line_AssetID l = asset"
  shows "(\<Sum>k \<in> S. if P k then account_side_total s k ls else 0) = side_total s asset ls"
  using assms(2,3)
proof (induction ls)
  case (Cons l ls)
  have "(\<Sum>k \<in> S. if P k then account_side_total s k (l # ls) else 0) =
      (\<Sum>k \<in> S. if P k then account_side_total s k ls else 0) +
      (\<Sum>k \<in> S. if k = line_AccountID l then (if P k \<and> line_Side l = s then line_AmountAtoms l else 0) else 0)"
    unfolding sum.distrib [symmetric] by (intro sum.cong) auto
  also have "(\<Sum>k \<in> S. if k = line_AccountID l then (if P k \<and> line_Side l = s then line_AmountAtoms l else 0) else 0) =
      (if line_AssetID l = asset \<and> line_Side l = s then line_AmountAtoms l else 0)"
    using Cons.prems assms(1) by (simp add: sum.delta)
  finally show ?case using Cons by simp
qed (auto intro: sum.neutral)

lemma line_imbalance_zero:
  assumes book: "list_all (line_in_book db book) ls"
    and balanced: "side_total Debit asset ls = side_total Credit asset ls"
  shows "(\<Sum>k \<in> set (remdups (map line_AccountID ls)). line_imbalance asset db ls k) = 0"
proof -
  let ?P = "\<lambda>k. \<exists>a. dget (ld_accounts db) k = Some a \<and> acc_AssetID a = asset"
  have P: "\<forall>l \<in> set ls. ?P (line_AccountID l) \<longleftrightarrow> line_AssetID l = asset"
    using book by (auto simp: list_all_iff line_in_book_def)
  have "line_imbalance asset db ls k =
      (if ?P k then account_side_total Debit k ls else 0) - (if ?P k then account_side_total Credit k ls else 0)" for k
    by (auto simp: line_imbalance_def split: option.splits)
  then show ?thesis
    using sum_by_account [of "line_AccountID ` set ls" ls ?P asset] P balanced by (simp add: sum_subtractf)
qed

section \<open>Finalizing\<close>

lemma ordered_lines_enumerate: "raw_lines key db = enumerate n ls \<Longrightarrow> ordered_lines key db = enumerate n ls"
  by (simp add: ordered_lines_def sorted_sort_id [symmetric] sort_key_id_if_sorted)

lemma finalize_cases:
  assumes "finalize_ledger_transaction jsonb key db = Inr (r, db')"
  obtains (unchanged) "r = None" "db' = db"
  | (posted) row db1 db2 where "r = Some key" "dget (ld_transactions db) key = Some row" "tr_status row = DRAFT"
      "finalize_checks jsonb key row db = None" "advance_book row db = Inr db1" "mark_posted key row db1 = Inr db2"
      "upsert_balances (tr_sequence_no row) (map snd (ordered_lines key db))
         (remdups (map line_AccountID (map snd (ordered_lines key db)))) (shadow_reference key row db2) = Inr db'"
      "\<not> list_ex (over_limit db') (map line_AccountID (map snd (ordered_lines key db)))"
  using assms unfolding finalize_ledger_transaction_def Let_def
  by (auto simp: list_ex_iff split: option.splits sum.splits if_splits)

lemma advance_book_Inr:
  assumes "advance_book row db = Inr db'"
  obtains head where "dget (ld_books db) (tr_book_id row) = Some head" "bk_next_sequence_no head = tr_sequence_no row"
    "bk_last_entry_hash head = tr_prev_hash row" "bk_next_sequence_no head < maxInt8"
    "db' = db\<lparr>ld_books := dset (tr_book_id row) (head\<lparr>bk_next_sequence_no := Suc (tr_sequence_no row),
       bk_last_entry_hash := tr_entry_hash row\<rparr>) (ld_books db)\<rparr>"
  using assms by (auto simp: advance_book_def split: option.splits if_splits)

lemma shadow_reference_frame: "\<exists>R. shadow_reference key row db = db\<lparr>ld_references := R\<rparr>"
proof -
  have same: "\<exists>R. db = db\<lparr>ld_references := R\<rparr>" by (rule exI [of _ "ld_references db"]) simp
  then show ?thesis by (auto simp: shadow_reference_def split: option.splits)
qed

lemma chain_advance:
  assumes old: "chain_ok db book head" and small: "bk_next_sequence_no head < maxInt8"
    and link: "tr_prev_hash row' = bk_last_entry_hash head" "length (tr_entry_hash row') = 32"
    and new: "\<And>no k r. is_posted db' book no k r \<longleftrightarrow>
      is_posted db book no k r \<or> no = bk_next_sequence_no head \<and> k = key \<and> r = row'"
  shows "chain_ok db' book (head\<lparr>bk_next_sequence_no := Suc (bk_next_sequence_no head), bk_last_entry_hash := tr_entry_hash row'\<rparr>)"
proof -
  have range: "is_posted db book no k r \<Longrightarrow> 0 < no \<and> no < bk_next_sequence_no head" for no k r
    using old unfolding chain_ok_def by blast
  have all: "0 < no \<Longrightarrow> no < bk_next_sequence_no head \<Longrightarrow> \<exists>k r. is_posted db book no k r" for no
    using old unfolding chain_ok_def by blast
  have one: "is_posted db book no k r \<Longrightarrow> is_posted db book no k' r' \<Longrightarrow> k = k'" for no k r k' r'
    using old unfolding chain_ok_def by blast
  have last: "is_posted db book no k r \<Longrightarrow> Suc no = bk_next_sequence_no head \<Longrightarrow> tr_entry_hash r = bk_last_entry_hash head" for no k r
    using old unfolding chain_ok_def by blast
  have prev: "is_posted db book no k r \<Longrightarrow> is_posted db book (Suc no) k' r' \<Longrightarrow> tr_prev_hash r' = tr_entry_hash r" for no k r k' r'
    using old unfolding chain_ok_def by blast
  have pos: "0 < bk_next_sequence_no head" using old by (simp add: chain_ok_def)
  show ?thesis
    unfolding chain_ok_def
  proof (intro conjI allI impI)
    fix no
    show "(\<exists>k r. is_posted db' book no k r) \<longleftrightarrow> 0 < no \<and>
        no < bk_next_sequence_no (head\<lparr>bk_next_sequence_no := Suc (bk_next_sequence_no head), bk_last_entry_hash := tr_entry_hash row'\<rparr>)"
      using range [of no] all [of no] pos by (auto simp: new less_Suc_eq)
  next
    fix no k r k' r'
    assume "is_posted db' book no k r" "is_posted db' book no k' r'"
    then show "k = k'" using one [of no k r k' r'] range [of no k r] range [of no k' r'] by (auto simp: new)
  next
    fix no k r
    assume "is_posted db' book no k r"
      "Suc no = bk_next_sequence_no (head\<lparr>bk_next_sequence_no := Suc (bk_next_sequence_no head), bk_last_entry_hash := tr_entry_hash row'\<rparr>)"
    then show "tr_entry_hash r =
        bk_last_entry_hash (head\<lparr>bk_next_sequence_no := Suc (bk_next_sequence_no head), bk_last_entry_hash := tr_entry_hash row'\<rparr>)"
      using range [of no k r] by (auto simp: new)
  next
    fix no k r k' r'
    assume "is_posted db' book no k r" "is_posted db' book (Suc no) k' r'"
    then show "tr_prev_hash r' = tr_entry_hash r"
      using prev last range [of "Suc no" k' r'] link(1) by (auto simp: new)
  qed (use small link(2) in simp_all)
qed

lemma entry_status:
  "entry_ok jsonb db key row \<Longrightarrow> s \<in> {DRAFT, POSTED} \<Longrightarrow> entry_ok jsonb db key (row\<lparr>tr_status := s\<rparr>)"
proof -
  have "PostRequest.truncate (row_transaction key (row\<lparr>tr_status := s\<rparr>) m ls) = PostRequest.truncate (row_transaction key row m ls)" for m ls
    by (simp add: row_transaction_def PostRequest.truncate_def)
  then have "HashEntry p n (row_transaction key (row\<lparr>tr_status := s\<rparr>) m ls) = HashEntry p n (row_transaction key row m ls)" for p n m ls
    by (metis HashEntry_truncate)
  then show "entry_ok jsonb db key row \<Longrightarrow> s \<in> {DRAFT, POSTED} \<Longrightarrow> ?thesis"
    by (simp add: entry_ok_def)
qed

lemma entry_balanced:
  assumes "HashEntry p n (row_transaction key row m ls) = Inr h"
  shows "list_all line_ok ls" "side_total Debit asset ls = side_total Credit asset ls" "2 \<le> length ls"
proof -
  have "PostRequest_Validate (row_transaction key row m ls) = None"
    using assms by (auto simp: HashEntry_def split: if_splits option.splits)
  then have "posting_ok (row_transaction key row m ls)" by (simp add: Validate_iff_posting_ok)
  then show "list_all line_ok ls" "side_total Debit asset ls = side_total Credit asset ls" "2 \<le> length ls"
    by (simp_all add: posting_ok_def header_ok_def row_transaction_def)
qed

lemma finalize_inv:
  assumes inv: "ledger_inv jsonb db" and run: "finalize_ledger_transaction jsonb key db = Inr (r, db')"
  shows "ledger_inv jsonb db'"
  using run
proof (cases rule: finalize_cases)
  case unchanged
  then show ?thesis using inv by simp
next
  case (posted row db1 db2)
  let ?row = "row\<lparr>tr_status := POSTED\<rparr>"
  have entry: "entry_ok jsonb db key row" using inv_entry [OF inv posted(2)] .
  then obtain m ls where ls: "raw_lines key db = enumerate 1 ls" "list_all (line_in_book db (tr_book_id row)) ls"
    "HashEntry (tr_prev_hash row) (word_of_nat (tr_sequence_no row)) (row_transaction key row m ls) = Inr (tr_entry_hash row)"
    unfolding entry_ok_def by blast
  have snd: "map snd (ordered_lines key db) = ls" by (simp add: ordered_lines_enumerate [OF ls(1)])
  obtain head where head: "dget (ld_books db) (tr_book_id row) = Some head" "bk_next_sequence_no head = tr_sequence_no row"
    "bk_last_entry_hash head = tr_prev_hash row" "bk_next_sequence_no head < maxInt8"
    "db1 = db\<lparr>ld_books := dset (tr_book_id row) (head\<lparr>bk_next_sequence_no := Suc (tr_sequence_no row),
       bk_last_entry_hash := tr_entry_hash row\<rparr>) (ld_books db)\<rparr>"
    using advance_book_Inr [OF posted(5)] .
  have db2: "db2 = db1\<lparr>ld_transactions := dset key ?row (ld_transactions db)\<rparr>"
    using posted(6) by (simp add: mark_posted_def head(5) split: if_splits)
  obtain R where R: "shadow_reference key row db2 = db2\<lparr>ld_references := R\<rparr>" using shadow_reference_frame by blast
  let ?db3 = "db2\<lparr>ld_references := R\<rparr>"
  obtain B where B: "db' = ?db3\<lparr>ld_balances := B\<rparr>"
    "\<And>k. k \<notin> line_AccountID ` set ls \<Longrightarrow> dget B k = dget (ld_balances db) k"
    "\<And>k. dget (ld_accounts db) k = None \<Longrightarrow> dget B k = dget (ld_balances db) k"
    "\<And>k a. k \<in> line_AccountID ` set ls \<Longrightarrow> dget (ld_accounts db) k = Some a \<Longrightarrow> \<exists>b. dget B k = Some b \<and> added_row ls ?db3 k a b"
    "\<And>asset. asset_imbalance asset db' = asset_imbalance asset ?db3 + (\<Sum>k \<in> set (remdups (map line_AccountID ls)). line_imbalance asset ?db3 ls k)"
    using upsert_balances_Inr [OF posted(7) [unfolded snd R] distinct_remdups] by (auto simp: db2 head(5))
  have db': "db' = db\<lparr>ld_books := ld_books db1, ld_transactions := dset key ?row (ld_transactions db),
      ld_references := R, ld_balances := B\<rparr>"
    using B(1) by (simp add: db2 head(5))
  have same: "ld_accounts db' = ld_accounts db" "raw_lines k db' = raw_lines k db" for k
    by (simp_all add: db' raw_lines_def)
  have tx: "ld_transactions db' = dset key ?row (ld_transactions db)" and bal: "ld_balances db' = B" by (simp_all add: db')
  have old: "\<exists>r0. dget (ld_transactions db) k = Some r0 \<and> tr_effect_id r0 = tr_effect_id r"
    if "dget (ld_transactions db') k = Some r" for k r
    using that posted(2) by (cases "k = key") (auto simp: tx DAList.lookup_update)
  have now: "is_posted db' book no k r \<longleftrightarrow>
      is_posted db book no k r \<or> book = tr_book_id row \<and> no = tr_sequence_no row \<and> k = key \<and> r = ?row" for book no k r
    using posted(2,3) by (auto simp: is_posted_def tx DAList.lookup_update)
  have sums: "posted_sum side k db' = posted_sum side k db + account_side_total side k ls" for side k
    unfolding posted_sum_def tx same dict_sum_replace [OF posted(2)] using posted(3) by (simp add: ls(1))
  show ?thesis
  proof (rule ledger_invI, goal_cases)
    case (1 k r)
    have "entry_ok jsonb db k r"
      using 1 inv_entry [OF inv, of k r] entry_status [OF entry, of POSTED] by (auto simp: tx DAList.lookup_update split: if_splits)
    then show ?case using entry_ok_cong [OF same] by simp
  next
    case (2 k r)
    then have "dget (ld_books db) (tr_book_id r) \<noteq> None"
      using inv_book [OF inv, of k r] head(1) by (auto simp: tx DAList.lookup_update split: if_splits)
    then show ?case by (auto simp: db' head(5) DAList.lookup_update)
  next
    case (3 k)
    then have "dget (ld_transactions db) k = None" by (simp add: tx DAList.lookup_update split: if_splits)
    then show ?case using inv_no_lines [OF inv] same(2) by simp
  next
    case (4 k r k' r')
    then show ?case using old [of k r] old [of k' r'] inv_effect [OF inv, of k _ k'] by metis
  next
    case (5 book hd)
    show ?case
    proof (cases "book = tr_book_id row")
      case True
      have "hd = head\<lparr>bk_next_sequence_no := Suc (bk_next_sequence_no head), bk_last_entry_hash := tr_entry_hash ?row\<rparr>"
        using 5 by (simp add: db' head(2,5) True DAList.lookup_update)
      moreover have "length (tr_entry_hash row) = 32" using entry by (simp add: entry_ok_def)
      ultimately show ?thesis
        using chain_advance [OF inv_chain [OF inv head(1)] head(4), of ?row db' key] now head(2,3) by (simp add: True)
    next
      case False
      then have "is_posted db' book = is_posted db book" by (intro ext) (simp add: now)
      then have "chain_ok db' book hd = chain_ok db book hd" by (simp add: chain_ok_def)
      then show ?thesis using 5 inv_chain [OF inv, of book hd] False by (simp add: db' head(5) DAList.lookup_update)
    qed
  next
    case (7 k a)
    then have a: "dget (ld_accounts db) k = Some a" by (simp add: same)
    obtain b0 where b0: "dget (ld_balances db) k = Some b0" "ba_debit_atoms b0 = posted_sum Debit k db"
      "ba_credit_atoms b0 = posted_sum Credit k db"
      "ba_current_balance_atoms b0 = normal_amount (acc_NormalSide a) (ba_debit_atoms b0) (ba_credit_atoms b0)"
      "fitsDecimal38 (ba_debit_atoms b0)" "fitsDecimal38 (ba_credit_atoms b0)" "fitsDecimal38 (ba_current_balance_atoms b0)"
      "\<not> over_limit db k"
      using inv_balance [OF inv a] unfolding balance_ok_def by blast
    show ?case
    proof (cases "k \<in> line_AccountID ` set ls")
      case True
      obtain b where b: "dget B k = Some b" "added_row ls ?db3 k a b" using B(4) [OF True a] by blast
      have "\<not> over_limit db' k" using posted(8) True by (auto simp: snd list_ex_iff)
      then show ?thesis
        using b b0 by (auto simp: balance_ok_def bal sums added_row_def column_def db2 head(5) normal_amount_def)
    next
      case False
      have "over_limit db' k = over_limit db k" using B(2) [OF False] by (simp add: over_limit_def same bal)
      then show ?thesis
        using b0 B(2) [OF False] by (simp add: balance_ok_def bal sums account_side_total_untouched [OF False])
    qed
  next
    case (9 asset)
    have "asset_imbalance asset ?db3 = asset_imbalance asset db"
      by (rule asset_imbalance_cong) (simp_all add: db2 head(5))
    moreover have "line_imbalance asset ?db3 ls = line_imbalance asset db ls"
      by (intro ext) (simp add: line_imbalance_def db2 head(5))
    ultimately show ?case
      using B(5) [of asset] inv_imbalance [OF inv, of asset] line_imbalance_zero [OF ls(2) entry_balanced(2) [OF ls(3)], of asset] by simp
  qed (use inv_account [OF inv] inv_no_balance [OF inv] B(3) in \<open>auto simp: same bal\<close>)
qed

end
