(* ===== verification/Ledger_Run.thy ===== *)
theory Ledger_Run
  imports Ledger_Invariant
begin

text \<open>
  Runs of the ledger service: clients of any number call its operations and the database finalizer in any order, attempts conflict and
  acknowledgements are lost. The invariant of \<open>Ledger_Invariant\<close> holds in every state of a run.
\<close>

section \<open>Runs\<close>

datatype ledger_op =
    DoRegisterAsset attempts Asset
  | DoCreateBook attempts Book
  | DoEnsureBook attempts Book
  | DoCreateAccount attempts Account
  | DoPost attempts PostRequest
  | DoPrepare attempts PostRequest
  | DoFinalize attempts string

definition ledger_step :: "(bytes \<Rightarrow> bytes option) \<Rightarrow> int \<Rightarrow> ledger_op \<Rightarrow> ledger_db \<Rightarrow> ledger_db" where
  "ledger_step jsonb m op db =
     (case op of
        DoRegisterAsset oc asset \<Rightarrow> snd (RegisterAsset m oc asset db)
      | DoCreateBook oc book \<Rightarrow> snd (CreateBook m oc book db)
      | DoEnsureBook oc book \<Rightarrow> snd (EnsureBook m oc book db)
      | DoCreateAccount oc account \<Rightarrow> snd (CreateAccount m oc account db)
      | DoPost oc request \<Rightarrow> snd (Post jsonb m oc request db)
      | DoPrepare oc request \<Rightarrow> snd (RunSerializable m oc (PreparePaymentInTx jsonb request) db)
      | DoFinalize oc key \<Rightarrow> snd (RunSerializable m oc (finalize_ledger_transaction jsonb key) db))"

definition ledger_run :: "(bytes \<Rightarrow> bytes option) \<Rightarrow> int \<Rightarrow> string option \<Rightarrow> ledger_op list \<Rightarrow> ledger_db" where
  "ledger_run jsonb m phase ops = fold (ledger_step jsonb m) ops (empty_ledger phase)"

section \<open>Every operation keeps the invariant\<close>

lemma is_posted_frame [simp]:
  "is_posted (db\<lparr>ld_assets := v0\<rparr>) = is_posted db"
  "is_posted (db\<lparr>ld_books := v1\<rparr>) = is_posted db"
  "is_posted (db\<lparr>ld_accounts := v2\<rparr>) = is_posted db"
  "is_posted (db\<lparr>ld_balances := v3\<rparr>) = is_posted db"
  "is_posted (db\<lparr>ld_references := v4\<rparr>) = is_posted db"
  by (intro ext, simp add: is_posted_def)+

lemma posted_sum_frame [simp]:
  "posted_sum side k (db\<lparr>ld_assets := v0\<rparr>) = posted_sum side k db"
  "posted_sum side k (db\<lparr>ld_books := v1\<rparr>) = posted_sum side k db"
  "posted_sum side k (db\<lparr>ld_accounts := v2\<rparr>) = posted_sum side k db"
  "posted_sum side k (db\<lparr>ld_balances := v3\<rparr>) = posted_sum side k db"
  "posted_sum side k (db\<lparr>ld_references := v4\<rparr>) = posted_sum side k db"
  unfolding posted_sum_def raw_lines_update by simp_all

lemma account_side_total_outside: "list_all (line_in_book db book) ls \<Longrightarrow> dget (ld_accounts db) k = None \<Longrightarrow> account_side_total s k ls = 0"
  by (induction ls) (auto simp: line_in_book_def)

lemma posted_sum_outside:
  assumes inv: "ledger_inv jsonb db" and "dget (ld_accounts db) k = None"
  shows "posted_sum side k db = 0"
proof -
  have "posted_sum side k db = dict_sum (\<lambda>_ _. 0) (ld_transactions db)"
    unfolding posted_sum_def
  proof (rule dict_sum_cong)
    fix key row
    assume "dget (ld_transactions db) key = Some row"
    from inv_entry [OF inv this] obtain ls where
      "raw_lines key db = enumerate 1 ls" "list_all (line_in_book db (tr_book_id row)) ls"
      unfolding entry_ok_def by blast
    then show "(if tr_status row = POSTED then account_side_total side k (map snd (raw_lines key db)) else 0) = 0"
      using account_side_total_outside assms(2) by simp
  qed
  then show ?thesis by (simp add: dict_sum_def sum_list_0 split_def)
qed

lemma registerAsset_inv: "ledger_inv jsonb db \<Longrightarrow> registerAssetTx asset db = Inr (x, db') \<Longrightarrow> ledger_inv jsonb db'"
proof -
  have same: "ledger_inv jsonb (db\<lparr>ld_assets := s\<rparr>) = ledger_inv jsonb db" for s
  proof -
    have "balance_ok (db\<lparr>ld_assets := s\<rparr>) = balance_ok db" by (rule balance_ok_cong) simp_all
    moreover have "entry_ok jsonb (db\<lparr>ld_assets := s\<rparr>) k r = entry_ok jsonb db k r" for k r by (rule entry_ok_cong) simp_all
    moreover have "asset_imbalance a (db\<lparr>ld_assets := s\<rparr>) = asset_imbalance a db" for a by (rule asset_imbalance_cong) simp_all
    moreover have "chain_ok (db\<lparr>ld_assets := s\<rparr>) = chain_ok db" by (rule chain_ok_cong) simp
    ultimately show ?thesis by (simp add: ledger_inv_def)
  qed
  assume "ledger_inv jsonb db" "registerAssetTx asset db = Inr (x, db')"
  then show ?thesis by (auto simp: registerAssetTx_def same split: option.splits if_splits)
qed

lemma new_book_inv:
  assumes inv: "ledger_inv jsonb db" and fresh: "dget (ld_books db) book = None" and len: "length genesis = 32"
  shows "ledger_inv jsonb (db\<lparr>ld_books := dset book \<lparr>bk_legal_entity_id = e, bk_jurisdiction = j, bk_next_sequence_no = Suc 0,
    bk_last_entry_hash = genesis\<rparr> (ld_books db)\<rparr>)" (is "ledger_inv jsonb ?db")
proof (rule ledger_invI, goal_cases)
  case (1 k r)
  then show ?case using inv_entry [OF inv, of k r] entry_ok_cong [of ?db db k jsonb r] by simp
next
  case (2 k r)
  then show ?case using inv_book [OF inv, of k r] by (auto simp: DAList.lookup_update)
next
  case (3 k)
  then show ?case using inv_no_lines [OF inv, of k] by simp
next
  case (4 k r k' r')
  then show ?case using inv_effect [OF inv, of k r k' r'] by simp
next
  case (5 b head)
  have chain: "chain_ok ?db = chain_ok db" by (rule chain_ok_cong) simp
  show ?case
  proof (cases "b = book")
    case True
    have "\<not> is_posted db book no k r" for no k r using inv_book [OF inv, of k r] fresh by (auto simp: is_posted_def)
    then show ?thesis using 5 len True by (auto simp: chain_ok_def DAList.lookup_update maxInt8_def)
  next
    case False
    then show ?thesis using 5 inv_chain [OF inv, of b head] unfolding chain by (simp add: DAList.lookup_update)
  qed
next
  case (7 k a)
  then show ?case using inv_balance [OF inv, of k a] balance_ok_cong [of ?db db] by simp
next
  case (9 asset)
  then show ?case using inv_imbalance [OF inv, of asset] asset_imbalance_cong [of ?db db asset] by simp
qed (use inv_account [OF inv] inv_no_balance [OF inv] in simp_all)

lemma upsertBook_inv: "ledger_inv jsonb db \<Longrightarrow> upsertBookInTx book u db = Inr (x, db') \<Longrightarrow> ledger_inv jsonb db'"
  by (auto simp: upsertBookInTx_def Let_def new_book_inv split: option.splits if_splits)

text \<open>A new account has no lines, so its zero row is their sum.\<close>

lemma new_account_inv:
  assumes inv: "ledger_inv jsonb db" and fresh: "dget (ld_accounts db) (acc_AccountID a) = None" and ok: "Account_Validate a = None"
  shows "ledger_inv jsonb (insert_balance (acc_AccountID a) (db\<lparr>ld_accounts := dset (acc_AccountID a) a (ld_accounts db)\<rparr>))"
    (is "ledger_inv jsonb ?db")
proof -
  let ?zero = "\<lparr>ba_debit_atoms = 0, ba_credit_atoms = 0, ba_current_balance_atoms = 0, ba_last_sequence_no = 0\<rparr>"
  have none: "dget (ld_balances db) (acc_AccountID a) = None" by (rule inv_no_balance [OF inv fresh])
  have db: "?db = db\<lparr>ld_accounts := dset (acc_AccountID a) a (ld_accounts db), ld_balances := dset (acc_AccountID a) ?zero (ld_balances db)\<rparr>"
    by (simp add: insert_balance_def none)
  have lines: "list_all (line_in_book ?db book) ls" if "list_all (line_in_book db book) ls" for book ls
    using that fresh unfolding db by (auto simp: list_all_iff line_in_book_def DAList.lookup_update)
  have raw: "raw_lines k ?db = raw_lines k db" for k by (simp add: db)
  have limit: "0 \<le> acc_CreditLimitAtoms a"
    using ok by (auto simp: Account_Validate_def Amount_Sign_def sgn_if split: if_splits)
  have chain: "chain_ok ?db = chain_ok db" unfolding db by (rule chain_ok_cong) simp
  have fits: "fitsDecimal38 0" by (simp add: fitsDecimal38_iff)
  show ?thesis
  proof (rule ledger_invI, goal_cases)
    case (1 k r)
    then have "entry_ok jsonb db k r" using inv_entry [OF inv, of k r] by (simp add: db)
    then show ?case unfolding entry_ok_def raw using lines by blast
  next
    case (2 k r)
    then show ?case using inv_book [OF inv, of k r] by (simp add: db)
  next
    case (3 k)
    then show ?case using inv_no_lines [OF inv, of k] by (simp add: db)
  next
    case (4 k r k' r')
    then show ?case using inv_effect [OF inv, of k r k' r'] by (simp add: db)
  next
    case (5 b head)
    then show ?case using inv_chain [OF inv, of b head] unfolding chain by (simp add: db)
  next
    case (6 k x)
    then show ?case using inv_account [OF inv, of k x] ok by (auto simp: db DAList.lookup_update split: if_splits)
  next
    case (7 k x)
    show ?case
    proof (cases "k = acc_AccountID a")
      case True
      then have "x = a" using 7 by (simp add: db DAList.lookup_update)
      then show ?thesis
        unfolding db balance_ok_def over_limit_def True
        using limit posted_sum_outside [OF inv fresh] fits by (simp add: DAList.lookup_update normal_amount_def)
    next
      case False
      then show ?thesis
        using 7 inv_balance [OF inv, of k x] by (simp add: db balance_ok_def over_limit_def DAList.lookup_update)
    qed
  next
    case (8 k)
    then show ?case using inv_no_balance [OF inv, of k] by (auto simp: db DAList.lookup_update split: if_splits)
  next
    case (9 asset)
    have "asset_imbalance asset ?db = asset_imbalance asset db"
      unfolding asset_imbalance_def db
      by (simp add: dict_sum_fresh [OF none] DAList.lookup_update) (rule dict_sum_cong, use none in auto)
    then show ?case using inv_imbalance [OF inv, of asset] by simp
  qed
qed

lemma createAccount_inv:
  assumes inv: "ledger_inv jsonb db" and run: "CreateAccountInTx account db = Inr (x, db')"
  shows "ledger_inv jsonb db'"
proof (cases "dget (ld_accounts db) (acc_AccountID account)")
  case None
  then have "db' = insert_balance (acc_AccountID account) (db\<lparr>ld_accounts := dset (acc_AccountID account) account (ld_accounts db)\<rparr>)"
    "Account_Validate account = None"
    using run by (auto simp: CreateAccountInTx_def insert_account_def split: option.splits sum.splits if_splits)
  then show ?thesis using new_account_inv [OF inv None] by simp
next
  case (Some stored)
  then obtain b where "dget (ld_balances db) (acc_AccountID account) = Some b"
    using inv_balance [OF inv] unfolding balance_ok_def by blast
  then have "db' = db"
    using run Some by (auto simp: CreateAccountInTx_def insert_account_def insert_balance_def split: option.splits sum.splits if_splits)
  then show ?thesis using inv by simp
qed

lemma postInTx_cases:
  assumes "postInTx jsonb request paymentDraft db = Inr (receipt, db')"
  obtains (existing) metadata where "PostRequest_Validate request = None" "CanonicalJSON (pr_Metadata request) = Some metadata"
      "receiptByEffect db (request\<lparr>pr_Metadata := metadata\<rparr>) = Inr (Some receipt)" "db' = db"
  | (fresh) metadata r db1 where "PostRequest_Validate request = None" "CanonicalJSON (pr_Metadata request) = Some metadata"
      "receiptByEffect db (request\<lparr>pr_Metadata := metadata\<rparr>) = Inr None"
      "insertDraft jsonb (request\<lparr>pr_Metadata := metadata\<rparr>) metadata db = Inr (r, db1)" "r = Inl receipt \<or> r = Inr receipt"
      "db' = db1 \<and> (paymentDraft \<or> r = Inl receipt) \<or>
       (\<not> paymentDraft \<and> r = Inr receipt \<and>
        finalize_ledger_transaction jsonb (pr_TransactionID request) db1 = Inr (Some (pr_TransactionID request), db'))"
  using assms unfolding postInTx_def Let_def by (auto split: option.splits sum.splits if_splits prod.splits)

lemma postInTx_inv:
  assumes inv: "ledger_inv jsonb db" and run: "postInTx jsonb request paymentDraft db = Inr (receipt, db')"
  shows "ledger_inv jsonb db'"
  using run
proof (cases rule: postInTx_cases)
  case existing
  then show ?thesis using inv by simp
next
  case (fresh metadata r db1)
  have "ledger_inv jsonb db1"
    by (rule insertDraft_inv [OF inv fresh(4)]) (use CanonicalJSON_idem [OF fresh(2)] in simp_all)
  then show ?thesis using fresh(6) finalize_inv by metis
qed

lemma ledger_step_inv:
  assumes inv: "ledger_inv jsonb db"
  shows "ledger_inv jsonb (ledger_step jsonb m op db)"
proof -
  note keep = RunSerializable_preserves [where P = "ledger_inv jsonb", OF inv]
  show ?thesis
  proof (cases op)
    case (DoRegisterAsset oc asset)
    then show ?thesis using inv keep [where fn = "registerAssetTx asset", OF registerAsset_inv [OF inv]]
      by (simp add: ledger_step_def RegisterAsset_def)
  next
    case (DoCreateBook oc book)
    then show ?thesis using keep [where fn = "upsertBookInTx book True", OF upsertBook_inv [OF inv]] by (simp add: ledger_step_def CreateBook_def CreateBookInTx_def)
  next
    case (DoEnsureBook oc book)
    then show ?thesis using keep [where fn = "upsertBookInTx book False", OF upsertBook_inv [OF inv]] by (simp add: ledger_step_def EnsureBook_def EnsureBookInTx_def)
  next
    case (DoCreateAccount oc account)
    then show ?thesis using keep [where fn = "CreateAccountInTx account", OF createAccount_inv [OF inv]] by (simp add: ledger_step_def CreateAccount_def)
  next
    case (DoPost oc request)
    have "snd (Post jsonb m oc request db) = db \<or> snd (Post jsonb m oc request db) = snd (RunSerializable m oc (PostInTx jsonb request) db)"
      by (auto simp: Post_def split: option.splits prod.splits sum.splits)
    then show ?thesis using inv keep [where fn = "postInTx jsonb request False", OF postInTx_inv [OF inv]] by (auto simp: DoPost ledger_step_def PostInTx_def)
  next
    case (DoPrepare oc request)
    then show ?thesis using keep [where fn = "postInTx jsonb request True", OF postInTx_inv [OF inv]] by (simp add: ledger_step_def PreparePaymentInTx_def)
  next
    case (DoFinalize oc key)
    then show ?thesis using keep [where fn = "finalize_ledger_transaction jsonb key", OF finalize_inv [OF inv]] by (simp add: ledger_step_def)
  qed
qed

lemma empty_ledger_inv: "ledger_inv jsonb (empty_ledger phase)"
  by (simp add: ledger_inv_def empty_ledger_def raw_lines_def asset_imbalance_def)

interpretation ledger: state_machine "ledger_step jsonb m" "\<lambda>db. db = empty_ledger phase" "\<lambda>_. True" "ledger_inv jsonb"
  by unfold_locales (simp_all add: empty_ledger_inv ledger_step_inv)

lemma ledger_run_inv: "ledger_inv jsonb (ledger_run jsonb m phase ops)"
  unfolding ledger_run_def by (rule ledger.inv_run) simp_all

end
