(* ===== verification/Ledger_Rehash.thy ===== *)
theory Ledger_Rehash
  imports Ledger_Service Idgen
begin

text \<open>
  The finalizer of migration 018 rebuilds the hashed bytes of an entry in SQL, by way of hexadecimal text. Here these bytes are
  shown to be those of \<^verbatim>\<open>HashEntry\<close> in \<^verbatim>\<open>internal/ledger/hash.go\<close>.
\<close>

section \<open>Hexadecimal text\<close>

lemma hex_digit_zero: "hex_digit 0 = CHR ''0''"
  by code_simp

lemma to_hex_fixed: "0 < k \<Longrightarrow> v < 16 ^ k \<Longrightarrow> length (to_hex v) \<le> k \<and> replicate (k - length (to_hex v)) (CHR ''0'') @ to_hex v = hex_fixed k v"
proof (induction k arbitrary: v)
  case (Suc k)
  have zero: "hex_fixed j 0 = replicate j (CHR ''0'')" for j
    by (induction j) (simp_all add: hex_digit_zero replicate_append_same)
  show ?case
  proof (cases "v < 16")
    case True
    then show ?thesis by (simp add: to_hex.simps [of v] zero)
  next
    case False
    then have k: "0 < k" and small: "v div 16 < 16 ^ k"
      using Suc.prems by (auto simp: less_mult_imp_div_less mult.commute intro: gr0I)
    from Suc.IH [OF this] False show ?thesis by (simp add: to_hex.simps [of v] Suc_diff_le)
  qed
qed simp

lemma lpad_to_hex: "0 < k \<Longrightarrow> v < 16 ^ k \<Longrightarrow> lpad (to_hex v) k = hex_fixed k v"
  using to_hex_fixed [of k v] length_hex_fixed [of k v] by (simp add: lpad_def)

lemma decode_hex_append:
  "even (length a) \<Longrightarrow> decode_hex (a @ b) = (case decode_hex a of None \<Rightarrow> None | Some x \<Rightarrow> map_option (\<lambda>y. x @ y) (decode_hex b))"
  by (induction a rule: decode_hex.induct) (auto split: option.splits simp: map_option_case)

lemma decode_hex_fixed: "decode_hex (hex_fixed (2 * k) v) = Some (be_bytes k (int v))"
proof (induction k arbitrary: v)
  case (Suc k)
  have "hex_fixed (2 * Suc k) v = hex_fixed (2 * k) (v div 256) @ [hex_digit (v div 16 mod 16), hex_digit (v mod 16)]"
    by (simp add: div_mult2_eq [symmetric])
  moreover have "16 * (v div 16 mod 16) + v mod 16 = v mod 256"
    using mod_mult2_eq [of v 16 16] by simp
  moreover have "char_of (v mod 256) = (char_of (int v mod 256) :: char)"
    by (metis char_of_mod_256 char_of_nat)
  ultimately show ?case
    by (simp add: decode_hex_append length_hex_fixed Suc.IH hex_value_digit zdiv_int)
qed simp

lemma decode_hex_bytes: "decode_hex (hex_bytes b @ s) = map_option (\<lambda>t. b @ t) (decode_hex s)"
proof (induction b)
  case Nil
  then show ?case by (cases "decode_hex s") (simp_all add: hex_bytes_def)
next
  case (Cons c b)
  have "hex_fixed (2 * 1) (of_char c) = [hex_digit (of_char c div 16 mod 16), hex_digit (of_char c mod 16)]"
    by (simp add: numeral_2_eq_2)
  moreover have "16 * (of_char c div 16 mod 16) + of_char c mod 16 = (of_char c :: nat)"
    using mod_mult2_eq [of "of_char c :: nat" 16 16] by simp
  ultimately show ?case
    using Cons.IH by (simp add: hex_bytes_def hex_value_digit map_option_case split: option.splits)
qed

lemma decode_hex_frames: "decode_hex (concat (map hex_bytes fs)) = Some (concat fs)"
  by (induction fs) (simp_all add: decode_hex_bytes)

section \<open>The framing functions\<close>

lemma ledger_hash_uint32_eq: "v < 2 ^ 32 \<Longrightarrow> ledger_hash_uint32 v = Some (writeUint32 (word_of_nat v))"
  using decode_hex_fixed [of 4 v]
  by (simp add: ledger_hash_uint32_def lpad_to_hex writeUint32_def put_uint32_def unsigned_of_nat take_bit_nat_eq_self)

lemma ledger_hash_int64_eq: "v < 2 ^ 64 \<Longrightarrow> ledger_hash_int64 v = Some (writeInt64 (word_of_nat v))"
  using decode_hex_fixed [of 8 v]
  by (simp add: ledger_hash_int64_def lpad_to_hex writeInt64_def put_uint64_def unsigned_of_nat take_bit_nat_eq_self)

lemma ledger_hash_length_prefixed_eq: "writeBytes v = Inr b \<Longrightarrow> ledger_hash_length_prefixed v = Some b"
  by (auto simp: writeBytes_def ledger_hash_length_prefixed_def ledger_hash_uint32_eq split: if_splits)

lemma concat_bytes_simps [simp]:
  "concat_bytes [] = Some []"
  "concat_bytes (Some b # bs) = map_option (\<lambda>c. b @ c) (concat_bytes bs)"
  by (cases "those bs"; simp add: concat_bytes_def)+

lemma writeAll_Cons: "writeAll (v # vs) = Inr b \<longleftrightarrow> (\<exists>b1 b2. writeBytes v = Inr b1 \<and> writeAll vs = Inr b2 \<and> b = b1 @ b2)"
  by (auto split: sum.splits)

lemma line_frames_eq:
  "writeLines no ls = Inr b \<Longrightarrow> no + length ls \<le> 2 ^ 64 \<Longrightarrow> \<exists>fs. those (map line_frame (enumerate no ls)) = Some fs \<and> concat fs = b"
proof (induction ls arbitrary: no b)
  case (Cons l ls)
  obtain b1 b2 where b: "writeAll [line_AccountID l, line_AssetID l, line_Side l, line_Memo l, Amount_String (line_AmountAtoms l)] = Inr b1"
    "writeLines (Suc no) ls = Inr b2" "b = writeInt64 (word_of_nat no) @ b1 @ b2"
    using Cons.prems(1) unfolding writeLines.simps by (auto simp del: writeAll.simps split: sum.splits)
  have "line_frame (no, l) = Some (writeInt64 (word_of_nat no) @ b1)"
    using b(1) Cons.prems(2)
    by (auto simp: line_frame_def writeAll_Cons ledger_hash_int64_eq ledger_hash_length_prefixed_eq simp del: writeAll.simps(2))
  moreover obtain fs where "those (map line_frame (enumerate (Suc no) ls)) = Some fs" "concat fs = b2"
    using Cons.IH [OF b(2)] Cons.prems(2) by auto
  ultimately show ?case by (simp add: b(3))
qed simp

text \<open>The bytes the finalizer hashes for a draft are the bytes \<^verbatim>\<open>HashEntry\<close> hashed for the request.\<close>

lemma canonical_hash_input_eq:
  assumes bytes: "canonical_entry p (word_of_nat n) r m = Inr b" and bounds: "n < 2 ^ 64" "length (pr_Lines r) < 2 ^ 32"
  shows "canonical_hash_input (pr_TransactionID r) (draft_row r v m n p h) m (enumerate 1 (pr_Lines r)) = Some b"
proof -
  obtain hd ref meta ls where 1: "writeAll [pr_TransactionID r, pr_BookID r, pr_OperationID r, pr_EffectID r, pr_Kind r,
      pr_PostingRuleVersion r] = Inr hd" "writeReference (pr_ReferenceTransactionID r) = Inr ref" "writeBytes m = Inr meta"
    "writeLines 1 (pr_Lines r) = Inr ls"
    "b = ledgerHashDomain @ p @ writeInt64 (word_of_nat n) @ hd @ writeInt64 (pr_SchemaVersion r) @ ref
         @ pr_RequestHash r @ meta @ writeUint32 (word_of_nat (length (pr_Lines r))) @ ls"
    using canonical_entry_Inr [OF bytes] .
  have lines: "canonical_line_bytes (enumerate 1 (pr_Lines r)) = Some ls"
    using line_frames_eq [OF 1(4)] bounds(2) by (auto simp: canonical_line_bytes_def decode_hex_frames)
  have domain: "decode_hex ''7061796d656e742d706c6174666f726d2f6c65646765722d656e7472792f763100'' = Some ledgerHashDomain"
    by code_simp
  have flags: "decode_hex ''00'' = Some [CHR 0x00]" "decode_hex ''01'' = Some [CHR 0x01]" by code_simp+
  have ref: "(case pr_ReferenceTransactionID r of None \<Rightarrow> decode_hex ''00''
      | Some t \<Rightarrow> concat_bytes [decode_hex ''01'', ledger_hash_length_prefixed t]) = Some ref"
    using 1(2) by (auto simp: writeReference_def flags ledger_hash_length_prefixed_eq simp del: decode_hex.simps
        split: option.splits sum.splits)
  have schema: "ledger_hash_int64 (unat (pr_SchemaVersion r)) = Some (writeInt64 (pr_SchemaVersion r))"
    using ledger_hash_int64_eq [of "unat (pr_SchemaVersion r)"] unsigned_less [of "pr_SchemaVersion r"] by simp
  obtain h1 h2 h3 h4 h5 h6 where hd: "writeBytes (pr_TransactionID r) = Inr h1" "writeBytes (pr_BookID r) = Inr h2"
    "writeBytes (pr_OperationID r) = Inr h3" "writeBytes (pr_EffectID r) = Inr h4" "writeBytes (pr_Kind r) = Inr h5"
    "writeBytes (pr_PostingRuleVersion r) = Inr h6" "hd = h1 @ h2 @ h3 @ h4 @ h5 @ h6"
    using 1(1) by (auto simp: writeAll_Cons simp del: writeAll.simps(2))
  show ?thesis
    unfolding canonical_hash_input_def
    by (simp add: draft_row_def domain ledger_hash_int64_eq [OF bounds(1)] hd(1-6) [THEN ledger_hash_length_prefixed_eq] schema ref
        ledger_hash_length_prefixed_eq [OF 1(3)] ledger_hash_uint32_eq [OF bounds(2)] lines [simplified] 1(5) hd(7)
        del: decode_hex.simps)
qed

end
