(* ===== verification/Ledger_Commit.thy ===== *)
theory Ledger_Commit
  imports Ledger_Run Ledger_Rehash
begin

text \<open>
  A posting that the rules allow is committed: no check of the triggers or of the finalizer refuses it, the recomputed hash agrees and
  the balances move by exactly its lines.
\<close>

section \<open>What a posting needs\<close>

text \<open>The account has room for the lines in its columns and its credit limit.\<close>

definition postable :: "ledger_db \<Rightarrow> Line list \<Rightarrow> string \<Rightarrow> bool" where
  "postable db ls k =
     (case (dget (ld_balances db) k, dget (ld_accounts db) k) of
        (Some b, Some a) \<Rightarrow>
          let debit = account_side_total Debit k ls; credit = account_side_total Credit k ls;
              current = normal_amount (acc_NormalSide a) debit credit in
          fitsDecimal38 debit \<and> fitsDecimal38 credit \<and> fitsDecimal38 current \<and>
          fitsDecimal38 (ba_debit_atoms b + debit) \<and> fitsDecimal38 (ba_credit_atoms b + credit) \<and>
          fitsDecimal38 (ba_current_balance_atoms b + current) \<and>
          \<not> (acc_EnforceSpendLimit a \<and> ba_current_balance_atoms b + current < - acc_CreditLimitAtoms a)
      | _ \<Rightarrow> False)"

text \<open>The text of a request, all of it written to \<^verbatim>\<open>STRING\<close> columns.\<close>

definition request_text :: "PostRequest \<Rightarrow> string list" where
  "request_text r =
     [pr_TransactionID r, pr_BookID r, pr_OperationID r, pr_EffectID r, pr_Kind r, pr_PostingRuleVersion r]
     @ (case pr_ReferenceTransactionID r of None \<Rightarrow> [] | Some ref \<Rightarrow> [ref])
     @ concat (map (\<lambda>l. [line_AccountID l, line_AssetID l, line_Side l, line_Memo l]) (pr_Lines r))"

definition admissible_posting :: "(bytes \<Rightarrow> bytes option) \<Rightarrow> ledger_db \<Rightarrow> PostRequest \<Rightarrow> bool" where
  "admissible_posting jsonb db r \<longleftrightarrow>
     PostRequest_Validate r = None \<and> length (pr_RequestHash r) = 32 \<and> length (pr_Lines r) < 2 ^ 32 \<and>
     (case CanonicalJSON (pr_Metadata r) of None \<Rightarrow> False | Some m \<Rightarrow>
        jsonb m \<noteq> None \<and>
        (case dget (ld_books db) (pr_BookID r) of None \<Rightarrow> False | Some head \<Rightarrow>
           bk_next_sequence_no head < maxInt8 \<and>
           (case HashEntry (bk_last_entry_hash head) (word_of_nat (bk_next_sequence_no head)) (r\<lparr>pr_Metadata := m\<rparr>) of
              Inl _ \<Rightarrow> False | Inr _ \<Rightarrow> True))) \<and>
     effect_rows (pr_EffectID r) db = [] \<and> dget (ld_transactions db) (pr_TransactionID r) = None \<and>
     (case pr_ReferenceTransactionID r of None \<Rightarrow> True | Some ref \<Rightarrow> dget (ld_transactions db) ref \<noteq> None) \<and>
     list_all valid_utf8 (request_text r) \<and>
     list_all (line_in_book db (pr_BookID r)) (pr_Lines r) \<and>
     list_all (\<lambda>l. dget (ld_assets db) (line_AssetID l) \<noteq> None) (pr_Lines r) \<and>
     list_all (postable db (pr_Lines r)) (map line_AccountID (pr_Lines r))"

section \<open>Each statement succeeds\<close>

lemma insert_lines_succeeds:
  assumes "dget (ld_transactions db) key = Some row" "tr_status row = DRAFT"
    and "list_all (line_in_book db (tr_book_id row)) ls" "list_all line_ok ls"
    and "list_all (\<lambda>l. dget (ld_assets db) (line_AssetID l) \<noteq> None) ls"
    and "\<forall>i \<in> fst ` set (raw_lines key db). i < no" "0 < no" "list_all (\<lambda>l. list_all valid_utf8 (line_text l)) ls"
  shows "\<exists>db'. insert_lines key no ls db = Inr db'"
  using assms
proof (induction ls arbitrary: no db)
  case (Cons l ls)
  let ?db = "db\<lparr>ld_lines := dset key (raw_lines key db @ [(no, l)]) (ld_lines db)\<rparr>"
  have "enforce_ledger_line_insert key l db = None"
    using Cons.prems by (auto simp: enforce_ledger_line_insert_def line_in_book_def)
  moreover have "no \<notin> fst ` set (raw_lines key db)" using Cons.prems(6) by blast
  ultimately have "insert_line key no l db = Inr ?db"
    using Cons.prems by (auto simp: insert_line_def line_ok_def)
  moreover have "line_in_book ?db = line_in_book db" by (rule line_in_book_cong) simp
  then have "\<exists>db'. insert_lines key (Suc no) ls ?db = Inr db'"
    using Cons.prems by (intro Cons.IH) (auto simp: less_Suc_eq)
  ultimately show ?case by simp
qed simp

lemma upsert_balances_succeeds:
  assumes "distinct ids" "list_all (postable db ls) ids"
  shows "\<exists>db'. upsert_balances no ls ids db = Inr db'"
  using assms
proof (induction ids arbitrary: db)
  case (Cons k ids)
  obtain a b where ab: "dget (ld_accounts db) k = Some a" "dget (ld_balances db) k = Some b"
    using Cons.prems(2) by (auto simp: postable_def split: option.splits)
  then obtain b' where db': "upsert_balance no ls k a db = Inr (db\<lparr>ld_balances := dset k b' (ld_balances db)\<rparr>)"
    using Cons.prems(2) by (auto simp: postable_def upsert_balance_def Let_def)
  have "postable (db\<lparr>ld_balances := dset k b' (ld_balances db)\<rparr>) ls j = postable db ls j" if "j \<in> set ids" for j
  proof -
    have "j \<noteq> k" using that Cons.prems(1) by auto
    then show ?thesis by (simp add: postable_def DAList.lookup_update)
  qed
  then have "list_all (postable (db\<lparr>ld_balances := dset k b' (ld_balances db)\<rparr>) ls) ids"
    using Cons.prems by (auto simp: list_all_iff)
  then show ?case using Cons.IH Cons.prems(1) ab db' by simp
qed simp

lemma enumerate_ends: "ls \<noteq> [] \<Longrightarrow> fst (hd (enumerate n ls)) = n \<and> Suc (fst (last (enumerate n ls))) = n + length ls"
proof (induction ls arbitrary: n)
  case (Cons l ls)
  then show ?case by (cases ls) auto
qed simp

text \<open>The checks of the finalizer, on a draft whose hash is that of the package.\<close>

lemma finalize_checks_pass:
  assumes lines: "raw_lines (pr_TransactionID r) db = enumerate 1 (pr_Lines r)" "length (pr_Lines r) < 2 ^ 32"
    and book: "list_all (line_in_book db (pr_BookID r)) (pr_Lines r)"
    and hash: "HashEntry p (word_of_nat n) r = Inr h" "n < 2 ^ 64"
    and meta: "CanonicalJSON (pr_Metadata r) = Some (pr_Metadata r)" "jsonb (pr_Metadata r) = Some v"
  shows "finalize_checks jsonb (pr_TransactionID r) (draft_row r v (pr_Metadata r) n p h) db = None"
proof -
  let ?ls = "pr_Lines r"
  have valid: "posting_ok r"
    using hash(1) by (auto simp: HashEntry_def Validate_iff_posting_ok [symmetric] split: if_splits option.splits)
  obtain b where b: "canonical_entry p (word_of_nat n) r (pr_Metadata r) = Inr b" "h = sha256 b"
    using HashEntry_Inr [OF hash(1)] meta(1) by (metis option.inject)
  have two: "2 \<le> length ?ls" using valid by (simp add: posting_ok_def header_ok_def)
  have ordered: "ordered_lines (pr_TransactionID r) db = enumerate 1 ?ls" by (rule ordered_lines_enumerate [OF lines(1)])
  have "\<not> unbalanced_lines ?ls" using valid by (simp add: unbalanced_lines_def list_ex_iff posting_ok_def)
  moreover have "\<not> list_ex (mismatched_line (pr_BookID r) db) ?ls"
    using book by (auto simp: list_ex_iff list_all_iff mismatched_line_def line_in_book_def)
  moreover have "fst (hd (enumerate 1 ?ls)) = 1" "fst (last (enumerate 1 ?ls)) = length ?ls"
    using two enumerate_ends [of ?ls 1] by (cases ?ls; auto)+
  moreover have "canonical_hash_input (pr_TransactionID r) (draft_row r v (pr_Metadata r) n p h) (pr_Metadata r) (enumerate 1 ?ls) = Some b"
    by (rule canonical_hash_input_eq [OF b(1) hash(2) lines(2)])
  ultimately show ?thesis
    using two meta(2) by (simp add: finalize_checks_def ordered Let_def b(2) del: One_nat_def)
qed

lemma mark_posted_succeeds:
  assumes "chain_ok db (tr_book_id row) head" "bk_next_sequence_no head = tr_sequence_no row"
  shows "posted_at (tr_book_id row) (tr_sequence_no row) db = []"
proof -
  have "\<not> is_posted db (tr_book_id row) (tr_sequence_no row) k r" for k r
    using assms unfolding chain_ok_def by (metis less_irrefl)
  then show ?thesis by (auto simp: posted_at_def is_posted_def filter_empty_conv mem_entries_iff)
qed

text \<open>What a committed posting changes: its entry is posted, the head of its book advances, the columns move by its lines.\<close>

definition moved :: "string \<Rightarrow> transaction_row \<Rightarrow> book_row \<Rightarrow> Line list \<Rightarrow> ledger_db \<Rightarrow> ledger_db \<Rightarrow> bool" where
  "moved key row head ls db db' \<longleftrightarrow>
     dget (ld_transactions db') key = Some (row\<lparr>tr_status := POSTED\<rparr>) \<and> raw_lines key db' = enumerate 1 ls \<and>
     dget (ld_books db') (tr_book_id row) =
       Some (head\<lparr>bk_next_sequence_no := Suc (bk_next_sequence_no head), bk_last_entry_hash := tr_entry_hash row\<rparr>) \<and>
     (\<forall>k. column ba_debit_atoms db' k = column ba_debit_atoms db k + account_side_total Debit k ls \<and>
          column ba_credit_atoms db' k = column ba_credit_atoms db k + account_side_total Credit k ls)"

lemma finalize_draft:
  assumes row: "dget (ld_transactions db) key = Some row" "tr_status row = DRAFT" "finalize_checks jsonb key row db = None"
    and head: "dget (ld_books db) (tr_book_id row) = Some head" "bk_next_sequence_no head = tr_sequence_no row"
      "bk_last_entry_hash head = tr_prev_hash row" "bk_next_sequence_no head < maxInt8" "chain_ok db (tr_book_id row) head"
    and lines: "raw_lines key db = enumerate 1 ls" "list_all (postable db ls) (map line_AccountID ls)"
  shows "\<exists>db'. finalize_ledger_transaction jsonb key db = Inr (Some key, db') \<and> moved key row head ls db db'"
proof -
  let ?head = "head\<lparr>bk_next_sequence_no := Suc (bk_next_sequence_no head), bk_last_entry_hash := tr_entry_hash row\<rparr>"
  let ?ids = "remdups (map line_AccountID ls)"
  let ?db1 = "db\<lparr>ld_books := dset (tr_book_id row) ?head (ld_books db)\<rparr>"
  let ?db2 = "?db1\<lparr>ld_transactions := dset key (row\<lparr>tr_status := POSTED\<rparr>) (ld_transactions db)\<rparr>"
  have snd: "map snd (ordered_lines key db) = ls" by (simp add: ordered_lines_enumerate [OF lines(1)])
  have 1: "advance_book row db = Inr ?db1" using head by (simp add: advance_book_def)
  have 2: "mark_posted key row ?db1 = Inr ?db2"
    using mark_posted_succeeds [of db row head] head by (simp add: mark_posted_def posted_at_def)
  obtain R where R: "shadow_reference key row ?db2 = ?db2\<lparr>ld_references := R\<rparr>" using shadow_reference_frame by blast
  let ?db3 = "?db2\<lparr>ld_references := R\<rparr>"
  have "postable ?db3 ls = postable db ls" by (intro ext) (simp add: postable_def)
  then have post: "list_all (postable ?db3 ls) ?ids" using lines(2) by (simp add: list_all_iff)
  obtain db' where db': "upsert_balances (tr_sequence_no row) ls ?ids ?db3 = Inr db'"
    using upsert_balances_succeeds [OF distinct_remdups post] by blast
  obtain B where B: "db' = ?db3\<lparr>ld_balances := B\<rparr>"
    "\<And>k. k \<notin> line_AccountID ` set ls \<Longrightarrow> dget B k = dget (ld_balances db) k"
    "\<And>k a. k \<in> line_AccountID ` set ls \<Longrightarrow> dget (ld_accounts db) k = Some a \<Longrightarrow> \<exists>b. dget B k = Some b \<and> added_row ls ?db3 k a b"
    using upsert_balances_Inr [OF db' distinct_remdups] by auto
  have touched: "\<exists>a b b'. dget (ld_accounts db) k = Some a \<and> dget (ld_balances db) k = Some b \<and> dget B k = Some b' \<and>
      added_row ls ?db3 k a b'" if k: "k \<in> line_AccountID ` set ls" for k
  proof -
    have "postable db ls k" using lines(2) k by (auto simp: list_all_iff)
    then obtain a b where "dget (ld_accounts db) k = Some a" "dget (ld_balances db) k = Some b"
      by (auto simp: postable_def split: option.splits)
    with B(3) [OF k] show ?thesis by blast
  qed
  have limit: "\<not> list_ex (over_limit db') ?ids"
  proof -
    have "\<not> over_limit db' k" if k: "k \<in> line_AccountID ` set ls" for k
    proof -
      have "postable db ls k" using lines(2) k by (auto simp: list_all_iff)
      with touched [OF k] show ?thesis
        by (auto simp: over_limit_def B(1) postable_def Let_def added_row_def column_def split: option.splits)
    qed
    then show ?thesis by (auto simp: list_ex_iff)
  qed
  have "finalize_ledger_transaction jsonb key db = Inr (Some key, db')"
    unfolding finalize_ledger_transaction_def Let_def snd
    using row 1 2 R db' limit by simp
  moreover have "column f db' k = column f db k + account_side_total s k ls"
    if "(f, s) = (ba_debit_atoms, Debit) \<or> (f, s) = (ba_credit_atoms, Credit)" for f s k
  proof (cases "k \<in> line_AccountID ` set ls")
    case True
    from touched [OF this] show ?thesis using that by (auto simp: column_def B(1) added_row_def)
  next
    case False
    then show ?thesis using B(2) [OF False] by (simp add: column_def B(1) account_side_total_untouched)
  qed
  ultimately show ?thesis
    using lines(1) by (intro exI [of _ db']) (simp add: moved_def B(1) DAList.lookup_update)
qed

lemma post_commits:
  assumes inv: "ledger_inv jsonb db" and ok: "admissible_posting jsonb db r"
  shows "\<exists>row head db'. Post jsonb m [] r db = (Inr (receipt_of False (pr_TransactionID r) row), db') \<and>
    dget (ld_books db) (pr_BookID r) = Some head \<and> tr_sequence_no row = bk_next_sequence_no head \<and>
    sameRequest row r \<and> tr_effect_id row = pr_EffectID r \<and> moved (pr_TransactionID r) row head (pr_Lines r) db db'"
proof -
  let ?key = "pr_TransactionID r"
  obtain meta v head h where p: "CanonicalJSON (pr_Metadata r) = Some meta" "jsonb meta = Some v"
    "dget (ld_books db) (pr_BookID r) = Some head" "bk_next_sequence_no head < maxInt8"
    "HashEntry (bk_last_entry_hash head) (word_of_nat (bk_next_sequence_no head)) (r\<lparr>pr_Metadata := meta\<rparr>) = Inr h"
    using ok by (auto simp: admissible_posting_def split: option.splits sum.splits)
  let ?r = "r\<lparr>pr_Metadata := meta\<rparr>"
  let ?row = "draft_row ?r v meta (bk_next_sequence_no head) (bk_last_entry_hash head) h"
  let ?db1 = "db\<lparr>ld_transactions := dset ?key ?row (ld_transactions db)\<rparr>"
  have idem: "CanonicalJSON meta = Some meta" by (rule CanonicalJSON_idem [OF p(1)])
  have valid: "PostRequest_Validate r = None" "length (pr_RequestHash r) = 32" "length (pr_Lines r) < 2 ^ 32"
    "effect_rows (pr_EffectID r) db = []" "dget (ld_transactions db) ?key = None"
    "list_all (line_in_book db (pr_BookID r)) (pr_Lines r)"
    "list_all (\<lambda>l. dget (ld_assets db) (line_AssetID l) \<noteq> None) (pr_Lines r)"
    "list_all (postable db (pr_Lines r)) (map line_AccountID (pr_Lines r))"
    "case pr_ReferenceTransactionID r of None \<Rightarrow> True | Some ref \<Rightarrow> dget (ld_transactions db) ref \<noteq> None"
    "list_all valid_utf8 (transaction_text ?key ?row)" "list_all (\<lambda>l. list_all valid_utf8 (line_text l)) (pr_Lines r)"
    using ok by (auto simp: admissible_posting_def request_text_def transaction_text_def draft_row_def line_text_def list_all_iff)
  have posting: "posting_ok r" using valid(1) by (simp add: Validate_iff_posting_ok)
  have chain: "chain_ok db (pr_BookID r) head" by (rule inv_chain [OF inv p(3)])
  have h32: "length h = 32" using HashEntry_Inr [OF p(5)] by (metis length_sha256)
  have ins: "insert_transaction ?key ?row db = Inr (Some ?db1)"
    using valid p(3) posting chain h32
    by (auto simp: insert_transaction_def enforce_ledger_transaction_insert_def chain_ok_def posting_ok_def header_ok_def
        draft_row_def split: option.splits)
  have same1: "line_in_book ?db1 = line_in_book db" by (rule line_in_book_cong) simp
  have none: "raw_lines ?key db = []" by (rule inv_no_lines [OF inv valid(5)])
  have "\<exists>db2. insert_lines ?key 1 (pr_Lines r) ?db1 = Inr db2"
    by (rule insert_lines_succeeds [where row = ?row])
      (use valid posting none same1 in \<open>simp_all add: DAList.lookup_update posting_ok_def\<close>)
  then obtain db2 where lines: "insert_lines ?key 1 (pr_Lines r) ?db1 = Inr db2" by blast
  have draft: "insertDraft jsonb ?r meta db = Inr (Inr (receipt_of False ?key ?row), db2)"
    using p(2,3,5) chain ins lines by (simp add: insertDraft_def chain_ok_def)
  have inv2: "ledger_inv jsonb db2" by (rule insertDraft_inv [OF inv draft]) (simp_all add: idem)
  obtain L where L: "db2 = ?db1\<lparr>ld_lines := L\<rparr>" "raw_lines ?key db2 = enumerate 1 (pr_Lines r)"
    using insert_lines_Inr [OF lines, of ?row] none by (auto simp: DAList.lookup_update)
  have checks: "finalize_checks jsonb ?key ?row db2 = None"
    using finalize_checks_pass [of ?r db2 "bk_last_entry_hash head" "bk_next_sequence_no head" h jsonb v]
      L(2) valid(3,6) p(2,4,5) idem line_in_book_cong [of db2 db] by (simp add: L(1) maxInt8_def)
  have "postable db2 (pr_Lines r) = postable db (pr_Lines r)" by (intro ext) (simp add: postable_def L(1))
  moreover have "chain_ok db2 (pr_BookID r) head" using inv_chain [OF inv2] p(3) by (simp add: L(1))
  ultimately obtain db' where fin: "finalize_ledger_transaction jsonb ?key db2 = Inr (Some ?key, db')"
    "moved ?key ?row head (pr_Lines r) db2 db'"
    using finalize_draft [of db2 ?key ?row jsonb head "pr_Lines r"] checks p(3,4) valid(8) L
    by (auto simp: DAList.lookup_update)
  have "column f db2 = column f db" for f by (intro ext) (simp add: column_def L(1))
  then have "moved ?key ?row head (pr_Lines r) db db'" using fin(2) by (simp add: moved_def)
  moreover have "receiptByEffect db ?r = Inr None" using valid(4) by (simp add: receiptByEffect_def)
  then have "PostInTx jsonb r db = Inr (receipt_of False ?key ?row, db')"
    using valid(1) p(1) draft fin(1) by (simp add: PostInTx_def postInTx_def Let_def)
  then have "Post jsonb m [] r db = (Inr (receipt_of False ?key ?row), db')"
    using valid(1) by (simp add: Post_def RunSerializable_plain)
  moreover have "sameRequest ?row r"
    by (simp add: sameRequest_def sameOptionalReference_def draft_row_def split: option.splits)
  ultimately show ?thesis using p(3) by (intro exI [of _ ?row] exI [of _ head] exI [of _ db']) simp
qed

end
