(* ===== verification/Ledger_Properties.thy ===== *)
theory Ledger_Properties
  imports Ledger_Commit
begin

text \<open>
  The properties of the ledger service over its runs, and the example run their witnesses use.
\<close>

section \<open>Posted entries are final\<close>

definition keeps_posted :: "ledger_db \<Rightarrow> ledger_db \<Rightarrow> bool" where
  "keeps_posted db db' \<longleftrightarrow>
     (\<forall>key row. dget (ld_transactions db) key = Some row \<longrightarrow> tr_status row = POSTED \<longrightarrow> dget (ld_transactions db') key = Some row)"

lemma keeps_posted_refl [simp]: "keeps_posted db db"
  by (simp add: keeps_posted_def)

lemma keeps_posted_trans: "keeps_posted a b \<Longrightarrow> keeps_posted b c \<Longrightarrow> keeps_posted a c"
  by (auto simp: keeps_posted_def)

lemma keeps_posted_same: "ld_transactions db' = ld_transactions db \<Longrightarrow> keeps_posted db db'"
  by (simp add: keeps_posted_def)

lemma insertDraft_keeps:
  assumes "insertDraft jsonb request metadata db = Inr (r, db')"
  shows "keeps_posted db db'"
  using assms
proof (cases rule: insertDraft_cases)
  case (draft head stored entryHash db1)
  note new = insert_transaction_Some [OF draft(5)]
  have "\<exists>row. dget (ld_transactions db1) (pr_TransactionID request) = Some row" by (simp add: new(1) DAList.lookup_update)
  then obtain L where "db' = db1\<lparr>ld_lines := L\<rparr>" using insert_lines_Inr [OF draft(6)] by blast
  then show ?thesis using new(2) by (auto simp: keeps_posted_def new(1) DAList.lookup_update)
qed simp

lemma finalize_keeps:
  assumes "finalize_ledger_transaction jsonb key db = Inr (r, db')"
  shows "keeps_posted db db'"
  using assms
proof (cases rule: finalize_cases)
  case (posted row db1 db2)
  obtain R where R: "shadow_reference key row db2 = db2\<lparr>ld_references := R\<rparr>" using shadow_reference_frame by blast
  obtain B where "db' = db2\<lparr>ld_references := R, ld_balances := B\<rparr>"
    using upsert_balances_Inr [OF posted(7) distinct_remdups] by (auto simp: R)
  moreover have "ld_transactions db1 = ld_transactions db" using posted(5) by (auto simp: advance_book_def split: option.splits if_splits)
  ultimately show ?thesis
    using posted(2,3,6) by (auto simp: keeps_posted_def mark_posted_def DAList.lookup_update split: if_splits)
qed simp

lemma postInTx_keeps: "postInTx jsonb request paymentDraft db = Inr (x, db') \<Longrightarrow> keeps_posted db db'"
  by (erule postInTx_cases) (auto dest: insertDraft_keeps finalize_keeps intro: keeps_posted_trans)

lemma ledger_step_keeps: "keeps_posted db (ledger_step jsonb m op db)"
proof -
  note keep = RunSerializable_preserves [where P = "keeps_posted db", OF keeps_posted_refl]
  show ?thesis
  proof (cases op)
    case (DoRegisterAsset oc asset)
    have "keeps_posted db (snd (RunSerializable m oc (registerAssetTx asset) db))"
      by (rule keep) (auto simp: registerAssetTx_def intro: keeps_posted_same split: option.splits if_splits)
    then show ?thesis by (simp add: DoRegisterAsset ledger_step_def RegisterAsset_def)
  next
    case (DoCreateBook oc book)
    have "keeps_posted db (snd (RunSerializable m oc (upsertBookInTx book True) db))"
      by (rule keep) (auto simp: upsertBookInTx_def Let_def intro: keeps_posted_same split: option.splits if_splits)
    then show ?thesis by (simp add: DoCreateBook ledger_step_def CreateBook_def CreateBookInTx_def)
  next
    case (DoEnsureBook oc book)
    have "keeps_posted db (snd (RunSerializable m oc (upsertBookInTx book False) db))"
      by (rule keep) (auto simp: upsertBookInTx_def Let_def intro: keeps_posted_same split: option.splits if_splits)
    then show ?thesis by (simp add: DoEnsureBook ledger_step_def EnsureBook_def EnsureBookInTx_def)
  next
    case (DoCreateAccount oc account)
    have "keeps_posted db (snd (RunSerializable m oc (CreateAccountInTx account) db))"
      by (rule keep) (auto simp: CreateAccountInTx_def insert_account_def insert_balance_def intro!: keeps_posted_same
          split: option.splits sum.splits if_splits)
    then show ?thesis by (simp add: DoCreateAccount ledger_step_def CreateAccount_def)
  next
    case (DoPost oc request)
    have "snd (Post jsonb m oc request db) = db \<or> snd (Post jsonb m oc request db) = snd (RunSerializable m oc (PostInTx jsonb request) db)"
      by (auto simp: Post_def split: option.splits prod.splits sum.splits)
    moreover have "keeps_posted db (snd (RunSerializable m oc (PostInTx jsonb request) db))"
      by (rule keep) (simp add: PostInTx_def postInTx_keeps)
    ultimately show ?thesis by (auto simp: DoPost ledger_step_def)
  next
    case (DoPrepare oc request)
    then show ?thesis using keep [where fn = "postInTx jsonb request True", OF postInTx_keeps]
      by (simp add: ledger_step_def PreparePaymentInTx_def)
  next
    case (DoFinalize oc key)
    then show ?thesis using keep [where fn = "finalize_ledger_transaction jsonb key", OF finalize_keeps] by (simp add: ledger_step_def)
  qed
qed

lemma ledger_run_keeps: "keeps_posted (ledger_run jsonb m phase ops) (ledger_run jsonb m phase (ops @ ops'))"
proof -
  have "keeps_posted db (fold (ledger_step jsonb m) ops' db)" for db
    by (induction ops' arbitrary: db) (auto intro: keeps_posted_trans ledger_step_keeps)
  then show ?thesis by (simp add: ledger_run_def)
qed

lemma effect_rows_posted:
  assumes inv: "ledger_inv jsonb db" and row: "dget (ld_transactions db) key = Some row"
  shows "\<exists>rest. effect_rows (tr_effect_id row) db = (key, row) # rest"
proof -
  have "(key, row) \<in> set (effect_rows (tr_effect_id row) db)" using row by (simp add: effect_rows_def mem_entries_iff)
  moreover have "set (effect_rows (tr_effect_id row) db) \<subseteq> {(key, row)}"
    using row inv_effect [OF inv] by (auto simp: effect_rows_def mem_entries_iff) (metis option.inject)+
  ultimately show ?thesis by (cases "effect_rows (tr_effect_id row) db") auto
qed

section \<open>An example run\<close>

definition example_account :: "string \<Rightarrow> string \<Rightarrow> amount \<Rightarrow> Account" where
  "example_account name kind limit = \<lparr>acc_AccountID = name, acc_BookID = ''book'', acc_AssetID = ''USD'', acc_AccountType = kind,
     acc_NormalSide = Credit, acc_EnforceSpendLimit = True, acc_CreditLimitAtoms = limit\<rparr>"

definition example_accounts :: "ledger_op list" where
  "example_accounts =
     [DoRegisterAsset [] \<lparr>ast_AssetID = ''USD'', ast_DisplayCode = ''USD'', ast_AtomicScale = 2\<rparr>,
      DoCreateBook [] \<lparr>book_BookID = ''book'', book_LegalEntityID = ''le'', book_Jurisdiction = ''KZ'', book_GenesisHash = zero_hash\<rparr>,
      DoCreateAccount [] (example_account ''payer'' ''CUSTOMER'' 200),
      DoCreateAccount [] (example_account ''merchant'' ''MERCHANT'' 0)]"

lemma example_bytes: "\<exists>b. canonical_entry p n example_posting ''{}'' = Inr b"
  by (simp add: canonical_entry_def example_posting_def example_line_def writeBytes_def writeReference_def
      Amount_String_def show_int_def dec_digits.simps Debit_def Credit_def)

lemma length_GenesisHash [simp]: "length (GenesisHash book) = 32"
  by (simp add: GenesisHash_def)

definition zero_balance :: balance_row where
  "zero_balance = \<lparr>ba_debit_atoms = 0, ba_credit_atoms = 0, ba_current_balance_atoms = 0, ba_last_sequence_no = 0\<rparr>"

lemma create_account_step:
  assumes "Account_Validate a = None" "dget (ld_accounts db) (acc_AccountID a) = None" "dget (ld_balances db) (acc_AccountID a) = None"
    "dget (ld_books db) (acc_BookID a) \<noteq> None" "dget (ld_assets db) (acc_AssetID a) \<noteq> None"
    "list_all valid_utf8 [acc_AccountID a, acc_BookID a, acc_AssetID a, acc_AccountType a, acc_NormalSide a]"
  shows "ledger_step jsonb m (DoCreateAccount [] a) db = db\<lparr>ld_accounts := dset (acc_AccountID a) a (ld_accounts db),
    ld_balances := dset (acc_AccountID a) zero_balance (ld_balances db)\<rparr>"
  using assms by (auto simp: ledger_step_def CreateAccount_def RunSerializable_plain CreateAccountInTx_def insert_account_def
      insert_balance_def zero_balance_def)

lemma example_account_valid:
  "Account_Validate (example_account ''payer'' ''CUSTOMER'' 200) = None" "Account_Validate (example_account ''merchant'' ''MERCHANT'' 0) = None"
  by code_simp+

lemma example_account_simps [simp]:
  "acc_AccountID (example_account name kind limit) = name" "acc_BookID (example_account name kind limit) = ''book''"
  "acc_AssetID (example_account name kind limit) = ''USD''" "acc_NormalSide (example_account name kind limit) = Credit"
  "acc_CreditLimitAtoms (example_account name kind limit) = limit" "acc_AccountType (example_account name kind limit) = kind"
  by (simp_all add: example_account_def)

lemma example_text [simp]:
  "valid_utf8 ''USD''" "valid_utf8 ''book''" "valid_utf8 ''le''" "valid_utf8 ''KZ''" "valid_utf8 ''payer''" "valid_utf8 ''merchant''"
  "valid_utf8 ''CUSTOMER''" "valid_utf8 ''MERCHANT''" "valid_utf8 Credit"
  by code_simp+

lemma example_request_text: "list_all valid_utf8 (request_text example_posting)"
  by code_simp

lemma example_state:
  "ledger_run Some 8 None example_accounts =
     \<lparr>ld_assets = dset ''USD'' \<lparr>as_display_code = ''USD'', as_atomic_scale = 2\<rparr> dempty,
      ld_books = dset ''book'' \<lparr>bk_legal_entity_id = ''le'', bk_jurisdiction = ''KZ'', bk_next_sequence_no = 1,
        bk_last_entry_hash = GenesisHash ''book''\<rparr> dempty,
      ld_accounts = dset ''merchant'' (example_account ''merchant'' ''MERCHANT'' 0)
        (dset ''payer'' (example_account ''payer'' ''CUSTOMER'' 200) dempty),
      ld_balances = dset ''merchant'' zero_balance (dset ''payer'' zero_balance dempty),
      ld_transactions = dempty, ld_lines = dempty, ld_reference_phase = None, ld_references = dempty\<rparr>"
proof -
  let ?db1 = "(empty_ledger None)\<lparr>ld_assets := dset ''USD'' \<lparr>as_display_code = ''USD'', as_atomic_scale = 2\<rparr> dempty\<rparr>"
  let ?db2 = "?db1\<lparr>ld_books := dset ''book'' \<lparr>bk_legal_entity_id = ''le'', bk_jurisdiction = ''KZ'', bk_next_sequence_no = 1,
        bk_last_entry_hash = GenesisHash ''book''\<rparr> dempty\<rparr>"
  have 1: "ledger_step Some 8 (DoRegisterAsset [] \<lparr>ast_AssetID = ''USD'', ast_DisplayCode = ''USD'', ast_AtomicScale = 2\<rparr>) (empty_ledger None) = ?db1"
    by (simp add: ledger_step_def RegisterAsset_def registerAssetTx_def RunSerializable_plain empty_ledger_def word_sless_alt
        DAList.empty.rep_eq)
  have "Book_Validate \<lparr>book_BookID = ''book'', book_LegalEntityID = ''le'', book_Jurisdiction = ''KZ'', book_GenesisHash = zero_hash\<rparr> = None"
    by code_simp
  then have 2: "ledger_step Some 8 (DoCreateBook [] \<lparr>book_BookID = ''book'', book_LegalEntityID = ''le'', book_Jurisdiction = ''KZ'',
      book_GenesisHash = zero_hash\<rparr>) ?db1 = ?db2"
    by (simp add: ledger_step_def CreateBook_def CreateBookInTx_def upsertBookInTx_def RunSerializable_plain empty_ledger_def)
  show ?thesis
    unfolding ledger_run_def example_accounts_def fold_simps 1 2
    by (simp add: create_account_step example_account_valid DAList.lookup_update empty_ledger_def)
qed

lemma example_admissible: "admissible_posting Some (ledger_run Some 8 None example_accounts) example_posting"
proof -
  have canonical: "CanonicalJSON ''{}'' = Some ''{}''" by code_simp
  have same: "example_posting\<lparr>pr_Metadata := ''{}''\<rparr> = example_posting" by (simp add: example_posting_def)
  obtain b where "canonical_entry (GenesisHash ''book'') 1 example_posting ''{}'' = Inr b" using example_bytes by blast
  then have hash: "HashEntry (GenesisHash ''book'') 1 example_posting = Inr (sha256 b)"
    using example_posting_valid canonical by (simp add: HashEntry_def example_posting_simps word_sless_alt)
  show ?thesis
    unfolding admissible_posting_def example_state
    using example_posting_valid(1) canonical hash example_request_text
    by (simp add: example_posting_simps same maxInt8_def)
      (simp add: example_posting_def example_line_def effect_rows_def line_in_book_def postable_def DAList.lookup_update
        DAList.empty.rep_eq maxInt8_def normal_amount_def example_account_def zero_balance_def fitsDecimal38_iff Debit_def Credit_def)
qed

section \<open>Properties\<close>

text \<open>
  C1: In every run of the service, whatever clients do and whichever acknowledgements are lost, the stored balance of an account is the
  one \<^verbatim>\<open>FoldBalance\<close> recomputes from the posted journal, an account that enforces its limit is never below it, and for every
  asset the debits of all accounts equal their credits.
\<close>

theorem balances_are_the_journal:
  "(case fst (Balance_of m [] account (ledger_run jsonb m phase ops)) of
      Inl e \<Rightarrow> e = BodyError (LedgerError ErrAccountNotFound) \<and> fst (FoldBalance m [] account (ledger_run jsonb m phase ops)) = Inl e
    | Inr b \<Rightarrow> fst (FoldBalance m [] account (ledger_run jsonb m phase ops)) = Inr (bl_CurrentBalanceAtoms b)) \<and>
   \<not> over_limit (ledger_run jsonb m phase ops) account \<and>
   asset_imbalance asset (ledger_run jsonb m phase ops) = 0"
proof -
  let ?db = "ledger_run jsonb m phase ops"
  have inv: "ledger_inv jsonb ?db" by (rule ledger_run_inv)
  show ?thesis
  proof (cases "dget (ld_accounts ?db) account")
    case None
    then show ?thesis
      using inv_no_balance [OF inv None] inv_imbalance [OF inv]
      by (simp add: Balance_of_def FoldBalance_def balanceTx_def foldBalanceTx_def RunSerializable_plain no_rows_as_def
          map_store_error_def over_limit_def)
  next
    case (Some a)
    obtain b where b: "dget (ld_balances ?db) account = Some b" "ba_debit_atoms b = posted_sum Debit account ?db"
      "ba_credit_atoms b = posted_sum Credit account ?db"
      "ba_current_balance_atoms b = normal_amount (acc_NormalSide a) (ba_debit_atoms b) (ba_credit_atoms b)"
      "fitsDecimal38 (ba_debit_atoms b)" "fitsDecimal38 (ba_credit_atoms b)" "fitsDecimal38 (ba_current_balance_atoms b)"
      "\<not> over_limit ?db account"
      using inv_balance [OF inv Some] unfolding balance_ok_def by blast
    have "fitsDecimal38 (acc_CreditLimitAtoms a)"
      using inv_account [OF inv Some] by (auto simp: Account_Validate_def split: if_splits)
    moreover have "normal_amount (acc_NormalSide a) (posted_sum Debit account ?db) (posted_sum Credit account ?db) = ba_current_balance_atoms b"
      using b by simp
    ultimately show ?thesis
      using b Some inv_imbalance [OF inv]
      by (simp add: Balance_of_def FoldBalance_def balanceTx_def foldBalanceTx_def RunSerializable_plain read_column_def ParseAmount_String)
  qed
qed

text \<open>
  C5: A posting that satisfies the rules, against the state of any run, is committed at the first attempt: no trigger and no check of
  the finalizer refuses it. The receipt carries the next number of the book, the entry is posted with exactly the lines of the
  request, the head of the book advances by one, and the debit and credit columns of every account move by exactly its lines.
\<close>

theorem admissible_posting_commits:
  assumes "admissible_posting jsonb (ledger_run jsonb m phase ops) r"
  shows "\<exists>row head db'. Post jsonb m [] r (ledger_run jsonb m phase ops) = (Inr (receipt_of False (pr_TransactionID r) row), db') \<and>
    dget (ld_books (ledger_run jsonb m phase ops)) (pr_BookID r) = Some head \<and> tr_sequence_no row = bk_next_sequence_no head \<and>
    sameRequest row r \<and> tr_effect_id row = pr_EffectID r \<and> moved (pr_TransactionID r) row head (pr_Lines r) (ledger_run jsonb m phase ops) db'"
  by (rule post_commits [OF ledger_run_inv assms])

theorem admissible_posting_commits_witness:
  "admissible_posting Some (ledger_run Some 8 None example_accounts) example_posting \<and>
   (\<exists>receipt db'. Post Some 8 [] example_posting (ledger_run Some 8 None example_accounts) = (Inr receipt, db') \<and>
      column ba_credit_atoms db' ''merchant'' = 125 \<and> column ba_debit_atoms db' ''payer'' = 125)"
proof (rule conjI [OF example_admissible])
  obtain row head db' where "Post Some 8 [] example_posting (ledger_run Some 8 None example_accounts) = (Inr (receipt_of False (pr_TransactionID example_posting) row), db')"
    "moved (pr_TransactionID example_posting) row head (pr_Lines example_posting) (ledger_run Some 8 None example_accounts) db'"
    using admissible_posting_commits [OF example_admissible] by blast
  then show "\<exists>receipt db'. Post Some 8 [] example_posting (ledger_run Some 8 None example_accounts) = (Inr receipt, db') \<and>
      column ba_credit_atoms db' ''merchant'' = 125 \<and> column ba_debit_atoms db' ''payer'' = 125"
    by (auto simp: moved_def example_state zero_balance_def column_def DAList.lookup_update example_posting_def example_line_def Debit_def Credit_def)
qed

text \<open>
  C4: A posted effect is applied once. After any further operations of any clients, a posting under its effect identifier
  changes nothing: the same request is answered with the original receipt, marked as duplicate, and another request with
  \<^verbatim>\<open>ErrEffectConflict\<close>.
\<close>

theorem posted_effect_applied_once:
  assumes "dget (ld_transactions (ledger_run jsonb m phase ops)) key = Some row" "tr_status row = POSTED"
    and "tr_effect_id row = pr_EffectID r" "PostRequest_Validate r = None"
  shows "Post jsonb m [] r (ledger_run jsonb m phase (ops @ ops')) =
    (if sameRequest row r then Inr (receipt_of True key row) else Inl (BodyError (LedgerError ErrLedgerEffectConflict)),
     ledger_run jsonb m phase (ops @ ops'))"
proof -
  let ?db = "ledger_run jsonb m phase (ops @ ops')"
  have inv: "ledger_inv jsonb ?db" by (rule ledger_run_inv)
  have row: "dget (ld_transactions ?db) key = Some row"
    using ledger_run_keeps [of jsonb m phase ops ops'] assms(1,2) by (simp add: keeps_posted_def)
  obtain meta where meta: "CanonicalJSON (pr_Metadata r) = Some meta"
    using assms(4) by (auto simp: Validate_iff_posting_ok posting_ok_def header_ok_def)
  have "length (tr_entry_hash row) = 32" using inv_entry [OF inv row] by (simp add: entry_ok_def)
  then have "receiptByEffect ?db (r\<lparr>pr_Metadata := meta\<rparr>) =
      (if sameRequest row r then Inr (Some (receipt_of True key row)) else Inl (LedgerError ErrLedgerEffectConflict))"
    using effect_rows_posted [OF inv row] assms(2,3) by (auto simp: receiptByEffect_def sameRequest_def)
  then show ?thesis
    using assms(4) meta
    by (auto simp: Post_def PostInTx_def postInTx_def Let_def RunSerializable_plain map_store_error_def mapDatabaseError_def)
qed

theorem posted_effect_applied_once_witness:
  "\<exists>row. dget (ld_transactions (ledger_run Some 8 None (example_accounts @ [DoPost [] example_posting]))) ''tx-1'' = Some row \<and>
     tr_status row = POSTED \<and>
     Post Some 8 [] example_posting (ledger_run Some 8 None ((example_accounts @ [DoPost [] example_posting]) @ [DoFinalize [] ''tx-1''])) =
       (Inr (receipt_of True ''tx-1'' row),
        ledger_run Some 8 None ((example_accounts @ [DoPost [] example_posting]) @ [DoFinalize [] ''tx-1'']))"
proof -
  let ?ops = "example_accounts @ [DoPost [] example_posting]"
  have key: "pr_TransactionID example_posting = ''tx-1''" by (simp add: example_posting_def)
  obtain r receipt db' where post: "Post Some 8 [] example_posting (ledger_run Some 8 None example_accounts) = (receipt, db')"
    "dget (ld_transactions db') ''tx-1'' = Some (r\<lparr>tr_status := POSTED\<rparr>)" "sameRequest r example_posting"
    "tr_effect_id r = pr_EffectID example_posting"
    using post_commits [OF ledger_run_inv example_admissible] unfolding moved_def key by blast
  let ?row = "r\<lparr>tr_status := POSTED\<rparr>"
  have "ledger_run Some 8 None ?ops = db'" using post(1) by (simp add: ledger_run_def ledger_step_def)
  then have row: "dget (ld_transactions (ledger_run Some 8 None ?ops)) ''tx-1'' = Some ?row" using post(2) by simp
  have same: "sameRequest ?row example_posting" using post(3) by (simp add: sameRequest_def)
  have "Post Some 8 [] example_posting (ledger_run Some 8 None (?ops @ [DoFinalize [] ''tx-1''])) =
      (Inr (receipt_of True ''tx-1'' ?row), ledger_run Some 8 None (?ops @ [DoFinalize [] ''tx-1'']))"
    using posted_effect_applied_once [OF row _ _ example_posting_valid(1), of "[DoFinalize [] ''tx-1'']"] same post(4) by simp
  with row show ?thesis by (intro exI [of _ ?row]) simp
qed

text \<open>
  C9: The hash that the database recomputes from the stored columns, by way of hexadecimal text, is the hash that
  \<^verbatim>\<open>HashEntry\<close> computed for the request, so the finalizer never refuses an entry of the service for its hash.
\<close>

theorem database_hash_agrees:
  assumes "HashEntry p (word_of_nat n) r = Inr h" "CanonicalJSON (pr_Metadata r) = Some (pr_Metadata r)"
    and "n < 2 ^ 64" "length (pr_Lines r) < 2 ^ 32"
  shows "map_option sha256 (canonical_hash_input (pr_TransactionID r) (draft_row r v (pr_Metadata r) n p h) (pr_Metadata r)
    (enumerate 1 (pr_Lines r))) = Some h"
proof -
  obtain b where b: "canonical_entry p (word_of_nat n) r (pr_Metadata r) = Inr b" "h = sha256 b"
    using HashEntry_Inr [OF assms(1)] assms(2) by (metis option.inject)
  show ?thesis unfolding canonical_hash_input_eq [OF b(1) assms(3,4)] by (simp add: b(2))
qed

theorem database_hash_agrees_witness:
  "\<exists>h. HashEntry zero_hash (word_of_nat 1) example_posting = Inr h \<and>
     map_option sha256 (canonical_hash_input ''tx-1'' (draft_row example_posting ''{}'' ''{}'' 1 zero_hash h) ''{}''
       (enumerate 1 (pr_Lines example_posting))) = Some h"
proof -
  have canonical: "CanonicalJSON ''{}'' = Some ''{}''" by code_simp
  obtain b where "canonical_entry zero_hash 1 example_posting ''{}'' = Inr b" using example_bytes by blast
  then have hash: "HashEntry zero_hash (word_of_nat 1) example_posting = Inr (sha256 b)"
    using example_posting_valid canonical by (simp add: HashEntry_def example_posting_simps word_sless_alt)
  have key: "pr_TransactionID example_posting = ''tx-1''" "length (pr_Lines example_posting) < 2 ^ 32"
    by (simp_all add: example_posting_def)
  show ?thesis
    using database_hash_agrees [OF hash _ _ key(2), of "''{}''"] canonical hash unfolding example_posting_simps key(1) by auto
qed

end
