(* ===== verification/Spec2Isabelle.thy ===== *)
theory Spec2Isabelle
  imports Cluster Sim_Properties Offline_Verify Escrow_Properties Idgen Payment_State Ledger_Properties
begin

text \<open>
  Verification of the payment platform, a Go program on a serializable SQL database. The development covers its financial
  core: the double-entry ledger, the regional escrow of spending authority, the offline allowances' cryptographic
  boundary, durable identifiers, the payment state machine, and the two deterministic simulators with which the
  repository tests the design.

  \<^bold>\<open>Parts and theories.\<close>

  \<^item> \<open>Prelude\<close>: how Go values are represented, finite maps (\<open>dict\<close>), and two interfaces used throughout: \<open>codec\<close> for
    an encoder with its decoder, \<open>state_machine\<close> for an invariant over runs.
  \<^item> \<open>Hashing\<close>, \<open>Base64\<close>, \<open>Json\<close>, \<open>Json_Facts\<close>, \<open>Json_Struct\<close>: what the code uses of the standard library
    (SHA-256, HMAC, big-endian integers, base64, \<^verbatim>\<open>encoding/json\<close>), and \<^verbatim>\<open>CanonicalJSON\<close> of \<^verbatim>\<open>internal/ledger/hash.go\<close>.
  \<^item> \<open>Ledger_Amount\<close>, \<open>Ledger_Posting\<close>: \<^verbatim>\<open>internal/ledger/types.go\<close> and \<^verbatim>\<open>hash.go\<close>: amounts, validation of postings
    and the canonical entry hash.
  \<^item> \<open>Store\<close>: \<^verbatim>\<open>internal/store/tx.go\<close>, the retry loop around serializable transactions. A transaction body is a
    function from the database to an error or a result and a new database. What befalls each attempt (commit, conflict,
    commit with a lost acknowledgement) is an argument.
  \<^item> \<open>Ledger_Db\<close>, \<open>Ledger_Service\<close>: the ledger tables, triggers and the SQL finalizer of
    \<^verbatim>\<open>migrations/018_ledger_hash_verification.sql\<close>, and every method of \<^verbatim>\<open>internal/ledger/service.go\<close>.
    \<open>Ledger_Invariant\<close> and \<open>Ledger_Run\<close> prove the invariant of every run, \<open>Ledger_Rehash\<close> that the SQL function
    hashes the bytes \<^verbatim>\<open>HashEntry\<close> hashes, \<open>Ledger_Commit\<close> that an admissible posting is not refused, and
    \<open>Ledger_Properties\<close> states the properties.
  \<^item> \<open>Authority_Db\<close>, \<open>Escrow_Types\<close>, \<open>Escrow_Wire\<close>, \<open>Escrow_Service\<close>: \<^verbatim>\<open>internal/escrow\<close>, its tables with keys and CHECKs,
    certificates and receipts with payloads, signatures and JSON forms, local effects and the three-step transfer
    of authority between regions. \<open>Escrow_Conservation\<close> proves what every run keeps, \<open>Escrow_Properties\<close> states it.
  \<^item> \<open>Offline_Types\<close>, \<open>Offline_Verify\<close>: \<^verbatim>\<open>internal/offline\<close>: types, signed payloads, and verification of allowances,
    presentations and closure sets.
  \<^item> \<open>Idgen\<close>: \<^verbatim>\<open>internal/idgen/generator.go\<close>; \<open>Payment_State\<close>: \<^verbatim>\<open>internal/payment/state.go\<close>.
  \<^item> \<open>Network\<close>, \<open>Cluster\<close>: \<^verbatim>\<open>internal/simulation\<close>, the faulty transport and the fenced cluster.
  \<^item> \<open>Sim_World\<close>, \<open>Sim_Certificate\<close>, \<open>Sim_Operations\<close>, \<open>Sim_Transfer\<close>, \<open>Sim_Saga\<close>, \<open>Sim_Invariants\<close>: \<^verbatim>\<open>internal/failuresim\<close>,
    the model of the whole platform under faults, and its auditor. \<open>Sim_Audit\<close> shows what the auditor's acceptance
    means; \<open>Sim_Journal\<close>, \<open>Sim_Inv\<close>, \<open>Sim_Steps\<close> and the \<open>Sim_Preserve\<close> theories that every operation keeps the invariant;
    \<open>Sim_Run\<close> that it holds in every run; \<open>Sim_Retry\<close> the behaviour of retries; \<open>Sim_Properties\<close> states the properties.

  \<^bold>\<open>How state and operations correspond.\<close> A struct is a record with the fields of the source, a table a finite map from
  the primary key, an error a value of a sum type. A method that changes state is a function to the new state and its
  result, with the guards in the order of the code. A method that runs one transaction is its body under
  \<open>RunSerializable\<close>; a method that runs two takes what other clients commit in between as an argument. Runs are
  inductive relations or lists of operations of any clients in any order.

  \<^bold>\<open>What is shown.\<close>

  \<^item> Ledger: stored balances are the fold of the posted journal, debits equal credits per asset and no enforced account falls below its
    limit, in every run; an admissible posting commits with exactly its effect; an effect is applied once; database and program
    agree on the entry hash, and the hashed bytes determine the entry.
  \<^item> Escrow: total authority equals its buckets in every run; effects, certificates and acknowledgements take effect once under
    retries and lost acknowledgements; payloads are unambiguous, wire forms decode to what was encoded.
  \<^item> Offline: exact acceptance conditions of the verifiers, and that an accepted allowance was issued as it reads.
  \<^item> Identifiers of all generators are distinct; the payment life cycle is one-way; the retry loop ends, writes the effect of the body
    once when it returns a result, and nothing when it returns an error that is not ambiguous.
  \<^item> Simulators: the auditor accepts every reachable state, acceptance implies conservation and a sound journal, retries return the original
    receipt and change nothing else, external charges happen once, the network delivers every accepted packet once and in order on
    each link, a fence stays invalid after a restart, whether or not a crash preceded it.

  \<^bold>\<open>Bounds and fuel.\<close> Amounts have at most 38 digits, as in the code. Counters that can wrap are words; the simulator's
  properties assume fewer journal entries than the 64-bit commit sequence can number, and those about generators and the
  ledger carry the code's overflow checks instead. The JSON parser takes fuel, one more than twice the input length, which is enough for
  every printed value (\<open>json_fuel_le\<close>). The other functions are total without fuel. SHA-256 is computed, and never
  assumed to be injective: where requests are told apart by hashes, the property names the finite set on which
  no collision may occur, or concludes that the hashed bytes are equal.

  \<^bold>\<open>Parameters.\<close> Ed25519, the hardware verifiers of offline allowances, the JSONB cast of the server, the outcomes of
  transaction attempts and the handlers of the cluster are arguments of the definitions that use them.

  \<^bold>\<open>Not modelled.\<close> The service methods of \<^verbatim>\<open>internal/payment\<close>, \<^verbatim>\<open>internal/offline\<close>, \<^verbatim>\<open>internal/transfer\<close>, \<^verbatim>\<open>internal/provisioning\<close>,
  \<^verbatim>\<open>internal/saga\<close>, \<^verbatim>\<open>internal/fx\<close> and \<^verbatim>\<open>internal/repair\<close>, which run SQL capabilities of other migrations; the escrow entry
  points \<^verbatim>\<open>PaymentSpendInTx\<close>, \<^verbatim>\<open>PaymentReturnInTx\<close> and \<^verbatim>\<open>CashbackRepairSpendInTx\<close> for the same reason; checkpoints and export of the audit trail,
  messaging, reconciliation, authorization, personal data, schema roll-out, processors, metrics, hosts, commands and
  generated code, which are queries, transport or input and output. Timestamps of rows are left out where no condition reads them.
  Three loops that take a lock once per item run as one step: \<open>DispatchOutbox\<close>, \<open>DeliverMessages\<close> and \<open>PumpUntilSettled\<close> of the simulator. A
  lookup of the ledger by text that is not UTF-8 finds no row, where the server reports an encoding error.
\<close>

end
